theory Spec2Isabelle
  imports Complex_Main "HOL-Library.Multiset" "HOL-Library.Char_ord"
begin

section \<open>Values (types.ts)\<close>

text \<open>
  A number of the language is a double: a finite value, NaN or one of the two infinities.
  A finite double is a rational number, and \<open>Finite\<close> holds it as such; zero has no sign
  here, since the program only compares numbers (\<open>===\<close>, \<open><\<close>, the keys of a \<open>Map\<close>),
  which never tells \<open>-0\<close> from \<open>0\<close>.  \<open>to_double\<close> rounds a rational to the nearest
  double, ties to the even significand, as reading a numeric literal does.

  \<open>jsval\<close> are the primitive values: what a cell of a row, a literal of the query
  language and an entry of \<open>updates\<close> can be (\<open>string | number | boolean | null\<close>, and
  \<open>undefined\<close>).  Reading a property of an object can also give a member that the object
  inherits from \<open>Object.prototype\<close>: one of its functions, or \<open>Object.prototype\<close> itself
  for \<open>__proto__\<close>.  \<open>jsany\<close> adds these two kinds of object to the primitive values.
\<close>

datatype number = Finite rat | NaN | Infinity | MinusInfinity

datatype jsval = JStr string | JNum number | JBool bool | JNull | JUndefined

datatype jsany = Prim jsval | Function string | ObjectPrototype

text \<open>\<open>strict_eq\<close> is \<open>===\<close>: NaN is not equal to itself, the same object is.\<close>

definition strict_eq :: "jsany \<Rightarrow> jsany \<Rightarrow> bool" where
  "strict_eq a b = (a = b \<and> a \<noteq> Prim (JNum NaN))"

definition typeof :: "jsany \<Rightarrow> string" where
  "typeof a =
     (case a of
        Prim (JStr s) \<Rightarrow> ''string''
      | Prim (JNum n) \<Rightarrow> ''number''
      | Prim (JBool b) \<Rightarrow> ''boolean''
      | Prim JNull \<Rightarrow> ''object''
      | Prim JUndefined \<Rightarrow> ''undefined''
      | Function f \<Rightarrow> ''function''
      | ObjectPrototype \<Rightarrow> ''object'')"

text \<open>\<open>primitive\<close> reads a value at a place where the types of the source say that it is
  primitive: a value that passed \<open>validateType\<close>, a property that the object owns.\<close>

definition primitive :: "jsany \<Rightarrow> jsval" where
  "primitive a = (case a of Prim v \<Rightarrow> v | Function f \<Rightarrow> JUndefined | ObjectPrototype \<Rightarrow> JUndefined)"

function bits :: "int \<Rightarrow> int" where
  "bits n = (if n \<le> 0 then 0 else 1 + bits (n div 2))"
  by pat_completeness auto

termination
  by (relation "measure nat") auto

declare bits.simps [simp del]

function fast_power :: "rat \<Rightarrow> int \<Rightarrow> rat" where
  "fast_power b k =
     (if k \<le> 0 then 1
      else (let h = fast_power b (k div 2) in if even k then h * h else b * h * h))"
  by pat_completeness auto

termination
  by (relation "measure (\<lambda>(b, k). nat k)") auto

declare fast_power.simps [simp del]

definition power_of :: "rat \<Rightarrow> int \<Rightarrow> rat" where
  "power_of b k = (if 0 \<le> k then fast_power b k else 1 / fast_power b (- k))"

definition round_even :: "rat \<Rightarrow> int" where
  "round_even q =
     (let f = \<lfloor>q\<rfloor>; d = q - of_int f
      in if d < 1 / 2 then f else if 1 / 2 < d then f + 1 else if even f then f else f + 1)"

definition exponent :: "rat \<Rightarrow> int" where
  "exponent a = (if 1 \<le> a then bits \<lfloor>a\<rfloor> - 1 else - bits (\<lceil>1 / a\<rceil> - 1))"

definition to_double :: "rat \<Rightarrow> number" where
  "to_double q =
     (if q = 0 then Finite 0
      else
        (let a = \<bar>q\<bar>;
             e = max (exponent a - 52) (- 1074);
             m = round_even (a / power_of 2 e);
             v = of_int m * power_of 2 e
         in if 1024 < bits \<lfloor>v\<rfloor> then (if 0 < q then Infinity else MinusInfinity)
            else Finite (if 0 < q then v else - v)))"

section \<open>Exceptions\<close>

text \<open>
  A function of the source that can throw returns \<open>exn + 'a\<close>: \<open>Inl\<close> is the exception,
  \<open>Inr\<close> the value returned.  The program throws \<open>Error\<close> objects (the parser) and the
  language throws a \<open>TypeError\<close> (a call of something that is not a function, a property
  read on \<open>undefined\<close>); the texts of the TypeErrors are those of V8.  \<open>message\<close> is
  \<open>error.message\<close>.  \<open>try_catch\<close> is \<open>try { body } catch (error) { handler }\<close>.
\<close>

datatype exn = Error string | TypeError string

fun message :: "exn \<Rightarrow> string" where
  "message (Error m) = m"
| "message (TypeError m) = m"

definition try_catch :: "exn + 'a \<Rightarrow> (exn \<Rightarrow> exn + 'a) \<Rightarrow> exn + 'a" where
  "try_catch body handler = (case body of Inl error \<Rightarrow> handler error | Inr r \<Rightarrow> Inr r)"

fun each :: "('a \<Rightarrow> exn + 'b) \<Rightarrow> 'a list \<Rightarrow> exn + 'b list" where
  "each f [] = Inr []"
| "each f (x # xs) =
     (case f x of
        Inl e \<Rightarrow> Inl e
      | Inr y \<Rightarrow> (case each f xs of Inl e \<Rightarrow> Inl e | Inr ys \<Rightarrow> Inr (y # ys)))"

section \<open>Rows and schemas (types.ts)\<close>

datatype ColumnType = TString | TNumber | TBoolean

record ColumnDefinition =
  col_name :: string
  col_type :: ColumnType
  col_primaryKey :: bool
  col_unique :: bool
  col_nullable :: bool

record TableSchema =
  schema_name :: string
  columns :: "ColumnDefinition list"
  schema_primaryKey :: "string option"

text \<open>
  A row is a plain object: \<open>props\<close> are its own properties in the order in which the
  language lists them (\<open>Object.entries\<close>, a spread): the names that are array indexes
  first, in ascending order, then the other names in the order of their creation.  Its
  prototype is \<open>Object.prototype\<close>, as for every object literal, unless an assignment to
  \<open>__proto__\<close> has set it to \<open>null\<close> (\<open>proto_null\<close>).  \<open>object ps\<close> is the literal
  \<open>{k1: v1, ...}\<close>, and \<open>object []\<close> is \<open>{}\<close>.

  \<open>row_get\<close> is \<open>row[k]\<close>: the own property, else the member of \<open>Object.prototype\<close> of
  that name if the row inherits from it, else \<open>undefined\<close>.  \<open>row_set\<close> is \<open>row[k] = v\<close>
  for a primitive \<open>v\<close>: an own property is overwritten in place; otherwise, on a row that
  inherits the accessor \<open>__proto__\<close>, an assignment to \<open>__proto__\<close> runs its setter, which
  sets the prototype to \<open>null\<close> for \<open>null\<close> and ignores every other primitive; in all
  other cases a new own property is created.  \<open>spread\<close> is \<open>{...row}\<close>: a new object
  literal with the own properties of \<open>row\<close>.  \<open>hasOwnProperty\<close> is the call
  \<open>row.hasOwnProperty(k)\<close>: it looks the method up on the row, so it fails when the row
  owns a cell of that name or has no prototype.
\<close>

definition is_digit :: "char \<Rightarrow> bool" where
  "is_digit c = (CHR ''0'' \<le> c \<and> c \<le> CHR ''9'')"

definition digits_value :: "string \<Rightarrow> int" where
  "digits_value ds = foldl (\<lambda>n d. 10 * n + (of_char d - 48)) 0 ds"

definition is_array_index :: "string \<Rightarrow> bool" where
  "is_array_index k =
     (k \<noteq> [] \<and> list_all is_digit k \<and> (if hd k = CHR ''0'' then k = ''0'' else True) \<and>
      digits_value k < 4294967295)"

record Row =
  props :: "(string \<times> jsval) list"
  proto_null :: bool

definition object :: "(string \<times> jsval) list \<Rightarrow> Row" where
  "object ps = \<lparr>props = ps, proto_null = False\<rparr>"

definition owns :: "Row \<Rightarrow> string \<Rightarrow> bool" where
  "owns row k = (map_of (props row) k \<noteq> None)"

definition object_prototype :: "string \<Rightarrow> jsany" where
  "object_prototype k =
     (if k = ''constructor'' then Function ''Object''
      else if k = ''__proto__'' then ObjectPrototype
      else if k \<in> set [''__defineGetter__'', ''__defineSetter__'', ''hasOwnProperty'',
                         ''__lookupGetter__'', ''__lookupSetter__'', ''isPrototypeOf'',
                         ''propertyIsEnumerable'', ''toString'', ''valueOf'', ''toLocaleString'']
        then Function k
      else Prim JUndefined)"

definition row_get :: "Row \<Rightarrow> string \<Rightarrow> jsany" where
  "row_get row k =
     (case map_of (props row) k of
        Some v \<Rightarrow> Prim v
      | None \<Rightarrow> if proto_null row then Prim JUndefined else object_prototype k)"

definition replace_property :: "(string \<times> jsval) list \<Rightarrow> string \<Rightarrow> jsval \<Rightarrow> (string \<times> jsval) list" where
  "replace_property ps k v = map (\<lambda>(k', v'). if k' = k then (k', v) else (k', v')) ps"

fun add_property :: "(string \<times> jsval) list \<Rightarrow> string \<Rightarrow> jsval \<Rightarrow> (string \<times> jsval) list" where
  "add_property [] k v = [(k, v)]"
| "add_property ((k', v') # ps) k v =
     (if is_array_index k \<and> (if is_array_index k' then digits_value k < digits_value k' else True)
      then (k, v) # (k', v') # ps
      else (k', v') # add_property ps k v)"

definition row_set :: "Row \<Rightarrow> string \<Rightarrow> jsval \<Rightarrow> Row" where
  "row_set row k v =
     (if owns row k then row\<lparr>props := replace_property (props row) k v\<rparr>
      else if k = ''__proto__'' \<and> \<not> proto_null row
        then (if v = JNull then row\<lparr>proto_null := True\<rparr> else row)
      else row\<lparr>props := add_property (props row) k v\<rparr>)"

definition spread :: "Row \<Rightarrow> Row" where
  "spread row = object (props row)"

definition hasOwnProperty :: "Row \<Rightarrow> string \<Rightarrow> exn + bool" where
  "hasOwnProperty row k =
     (case row_get row ''hasOwnProperty'' of
        Function f \<Rightarrow> Inr (owns row k)
      | Prim v \<Rightarrow> Inl (TypeError ''row.hasOwnProperty is not a function'')
      | ObjectPrototype \<Rightarrow> Inl (TypeError ''row.hasOwnProperty is not a function''))"

section \<open>Index (class Index)\<close>

text \<open>
  \<open>Map<value, number[]>\<close>: only \<open>get\<close>, \<open>set\<close>, \<open>delete\<close> and \<open>clear\<close> are used, so
  the map is a partial function from values to lists of row positions.  A \<open>Map\<close> finds
  its keys by SameValueZero, under which NaN is equal to itself and an object to itself:
  the equality of \<open>jsany\<close>.
\<close>

type_synonym Index = "jsany \<rightharpoonup> nat list"

definition index_add :: "Index \<Rightarrow> jsany \<Rightarrow> nat \<Rightarrow> Index" where
  "index_add ix v rowIndex =
     (if v = Prim JNull then ix
      else ix(v \<mapsto> (case ix v of None \<Rightarrow> [] | Some existing \<Rightarrow> existing) @ [rowIndex]))"

definition index_remove :: "Index \<Rightarrow> jsany \<Rightarrow> nat \<Rightarrow> Index" where
  "index_remove ix v rowIndex =
     (if v = Prim JNull then ix
      else case ix v of
             None \<Rightarrow> ix
           | Some existing \<Rightarrow>
               (let filtered = filter (\<lambda>idx. idx \<noteq> rowIndex) existing
                in if length filtered = 0 then ix(v := None) else ix(v \<mapsto> filtered)))"

definition index_find :: "Index \<Rightarrow> jsany \<Rightarrow> nat list" where
  "index_find ix v = (case ix v of None \<Rightarrow> [] | Some existing \<Rightarrow> existing)"

definition index_clear :: "Index \<Rightarrow> Index" where
  "index_clear ix = Map.empty"

section \<open>Table (Table.ts)\<close>

record Table =
  rows :: "Row list"
  schema :: TableSchema
  indexes :: "string \<rightharpoonup> Index"

datatype Outcome = Success | Failure string

definition indexed :: "ColumnDefinition \<Rightarrow> bool" where
  "indexed col = (col_primaryKey col \<or> col_unique col)"

definition new_Table :: "TableSchema \<Rightarrow> Table" where
  "new_Table s =
     \<lparr>rows = [], schema = s,
      indexes = fold (\<lambda>col m. if indexed col then m(col_name col \<mapsto> Map.empty) else m)
                  (columns s) Map.empty\<rparr>"

definition validateType :: "jsany \<Rightarrow> ColumnType \<Rightarrow> bool" where
  "validateType v ty =
     (case ty of
        TString \<Rightarrow> typeof v = ''string''
      | TNumber \<Rightarrow> typeof v = ''number''
      | TBoolean \<Rightarrow> typeof v = ''boolean'')"

text \<open>\<open>Table.insert\<close> is \<open>insert_row\<close> here (\<open>insert\<close> is the set operation of HOL).
  Its first loop: one schema column after the other, with its early
  returns; \<open>Inl\<close> is the error message of a \<open>{success: false}\<close> return.\<close>

fun insert_cols :: "Table \<Rightarrow> Row \<Rightarrow> ColumnDefinition list \<Rightarrow> Row \<Rightarrow> string + Row" where
  "insert_cols t row [] newRow = Inr newRow"
| "insert_cols t row (col # cols) newRow =
     (let v = row_get row (col_name col) in
      if v = Prim JUndefined \<or> v = Prim JNull then
        (if \<not> col_nullable col \<and> \<not> col_primaryKey col
         then Inl (''Column '' @ col_name col @ '' cannot be null'')
         else insert_cols t row cols (row_set newRow (col_name col) JNull))
      else if \<not> validateType v (col_type col)
        then Inl (''Invalid type for column '' @ col_name col)
      else if (col_unique col \<or> col_primaryKey col) \<and>
              (case indexes t (col_name col) of
                 None \<Rightarrow> False
               | Some index \<Rightarrow> length (index_find index v) > 0)
        then Inl (''Duplicate value for ''
                  @ (if col_primaryKey col then ''primary key'' else ''unique'')
                  @ '' column '' @ col_name col)
      else insert_cols t row cols (row_set newRow (col_name col) (primitive v)))"

text \<open>The loop that files one row under its position in the index of every primary-key
  or unique column (the second loop of \<open>insert\<close>, and the inner loop of
  \<open>rebuildIndexes\<close>).\<close>

definition index_row ::
  "ColumnDefinition list \<Rightarrow> Row \<Rightarrow> nat \<Rightarrow> (string \<rightharpoonup> Index) \<Rightarrow> (string \<rightharpoonup> Index)" where
  "index_row cols row rowIndex ixs =
     fold (\<lambda>col m.
             if indexed col then
               (case m (col_name col) of
                  None \<Rightarrow> m
                | Some index \<Rightarrow>
                    if row_get row (col_name col) \<noteq> Prim JNull
                    then m(col_name col \<mapsto> index_add index (row_get row (col_name col)) rowIndex)
                    else m)
             else m)
          cols ixs"

definition insert_row :: "Table \<Rightarrow> Row \<Rightarrow> Outcome \<times> Table" where
  "insert_row t row =
     (case insert_cols t row (columns (schema t)) (object []) of
        Inl err \<Rightarrow> (Failure err, t)
      | Inr newRow \<Rightarrow>
          (let rowIndex = length (rows t)
           in (Success,
               t\<lparr>rows := rows t @ [newRow],
                 indexes := index_row (columns (schema t)) newRow rowIndex (indexes t)\<rparr>)))"

text \<open>\<open>select\<close>: \<open>select_columns\<close> is the loop over the column list for one row, which
  fills the object \<open>selected\<close>; the first call of \<open>hasOwnProperty\<close> that throws ends the
  whole \<open>select\<close>.\<close>

fun select_columns :: "Row \<Rightarrow> string list \<Rightarrow> Row \<Rightarrow> exn + Row" where
  "select_columns row [] selected = Inr selected"
| "select_columns row (col # cols) selected =
     (case hasOwnProperty row col of
        Inl e \<Rightarrow> Inl e
      | Inr has \<Rightarrow>
          select_columns row cols
            (if has then row_set selected col (primitive (row_get row col)) else selected))"

definition select :: "Table \<Rightarrow> string list \<Rightarrow> exn + Row list" where
  "select t cols =
     (if length cols = 0 \<or> hd cols = ''*'' then Inr (map spread (rows t))
      else each (\<lambda>row. select_columns row cols (object [])) (rows t))"

text \<open>\<open>update\<close>: the loop over the entries of \<open>updates\<close> for the row at position \<open>idx\<close>,
  then the loop over the rows.\<close>

definition update_entry ::
  "TableSchema \<Rightarrow> nat \<Rightarrow> string \<times> jsval \<Rightarrow> Row \<times> (string \<rightharpoonup> Index) \<Rightarrow> Row \<times> (string \<rightharpoonup> Index)" where
  "update_entry s idx kv st =
     (case kv of (key, v) \<Rightarrow> case st of (row, ixs) \<Rightarrow>
        (case find (\<lambda>c. col_name c = key) (columns s) of
           None \<Rightarrow> (row, ixs)
         | Some col \<Rightarrow>
             if v = JUndefined then (row, ixs)
             else if v \<noteq> JNull \<and> \<not> validateType (Prim v) (col_type col) then (row, ixs)
             else
               (let ixs' =
                      (if (col_unique col \<or> col_primaryKey col) \<and> \<not> strict_eq (Prim v) (row_get row key)
                       then (case ixs key of
                               None \<Rightarrow> ixs
                             | Some index \<Rightarrow>
                                 ixs(key \<mapsto> index_add (index_remove index (row_get row key) idx) (Prim v) idx))
                       else ixs)
                in (row_set row key v, ixs'))))"

definition update_row :: "Row \<Rightarrow> (Row \<Rightarrow> bool) \<Rightarrow> nat \<Rightarrow> nat \<times> Table \<Rightarrow> nat \<times> Table" where
  "update_row updates predicate idx st =
     (case st of (updatedCount, t) \<Rightarrow>
        if predicate (rows t ! idx) then
          (case fold (update_entry (schema t) idx) (props updates) (rows t ! idx, indexes t) of
             (row', ixs') \<Rightarrow>
               (updatedCount + 1, t\<lparr>rows := (rows t)[idx := row'], indexes := ixs'\<rparr>))
        else (updatedCount, t))"

definition update :: "Table \<Rightarrow> Row \<Rightarrow> (Row \<Rightarrow> bool) \<Rightarrow> nat \<times> Table" where
  "update t updates predicate =
     fold (update_row updates predicate) [0..<length (rows t)] (0, t)"

text \<open>\<open>rebuildIndexes\<close>: every index is cleared, then every row is filed again.\<close>

definition rebuildIndexes :: "Table \<Rightarrow> Table" where
  "rebuildIndexes t =
     t\<lparr>indexes :=
         fold (\<lambda>(idx, row) ixs. index_row (columns (schema t)) row idx ixs)
              (enumerate 0 (rows t))
              (map_option index_clear \<circ> indexes t)\<rparr>"

text \<open>\<open>delete\<close>: the positions of the matching rows are collected first, then taken out
  from the last to the first (out of the indexes, then out of the row sequence), and the
  indexes are rebuilt.\<close>

definition unindex_row ::
  "ColumnDefinition list \<Rightarrow> Row \<Rightarrow> nat \<Rightarrow> (string \<rightharpoonup> Index) \<Rightarrow> (string \<rightharpoonup> Index)" where
  "unindex_row cols row idx ixs =
     fold (\<lambda>col m.
             if indexed col then
               (case m (col_name col) of
                  None \<Rightarrow> m
                | Some index \<Rightarrow> m(col_name col \<mapsto> index_remove index (row_get row (col_name col)) idx))
             else m)
          cols ixs"

definition splice1 :: "nat \<Rightarrow> 'a list \<Rightarrow> 'a list" where
  "splice1 idx xs = take idx xs @ drop (Suc idx) xs"

definition delete_at :: "nat \<Rightarrow> Table \<Rightarrow> Table" where
  "delete_at idx t =
     t\<lparr>indexes := unindex_row (columns (schema t)) (rows t ! idx) idx (indexes t),
       rows := splice1 idx (rows t)\<rparr>"

definition delete :: "Table \<Rightarrow> (Row \<Rightarrow> bool) \<Rightarrow> nat \<times> Table" where
  "delete t predicate =
     (let toDelete = filter (\<lambda>idx. predicate (rows t ! idx)) [0..<length (rows t)]
      in (length toDelete, rebuildIndexes (fold delete_at (rev toDelete) t)))"

text \<open>\<open>findByIndex\<close> copies the rows at the positions the index gives; the copy of a
  position outside the row sequence (\<open>{...undefined}\<close>) is the empty object.\<close>

definition findByIndex :: "Table \<Rightarrow> string \<Rightarrow> jsval \<Rightarrow> Row list" where
  "findByIndex t columnName v =
     (case indexes t columnName of
        None \<Rightarrow> []
      | Some index \<Rightarrow>
          map (\<lambda>idx. if idx < length (rows t) then spread (rows t ! idx) else object [])
              (index_find index (Prim v)))"

section \<open>Queries and results (types.ts, QueryParser.ts)\<close>

text \<open>
  A condition keeps its operator as the text the parser captured.  A join clause keeps
  the two sides of \<open>on\<close> as \<open>on_leftColumn\<close> and \<open>on_rightColumn\<close>.  An optional field
  of a result or of a query is an \<open>option\<close>; the optional flags of a column definition
  are booleans (absent is false).  The eight kinds of parsed query are the constructors
  of \<open>ParsedQuery\<close>, with the fields of each interface in their order.
\<close>

record WhereClause =
  wc_column :: string
  wc_operator :: string
  wc_value :: jsval

datatype JoinType = INNER | LEFT

record JoinClause =
  join_type :: JoinType
  join_table :: string
  on_leftColumn :: string
  on_rightColumn :: string

record QueryResult =
  qr_success :: bool
  qr_rows :: "Row list option"
  qr_rowCount :: "nat option"
  qr_message :: "string option"
  qr_error :: "string option"

datatype ParsedQuery =
    CREATE_TABLE string "ColumnDefinition list"
  | DROP_TABLE string
  | INSERT string "string list option" "jsval list"
  | SELECT "string list" string "WhereClause list option" "JoinClause option"
  | UPDATE string Row "WhereClause list option"
  | DELETE string "WhereClause list option"
  | SHOW_TABLES
  | DESCRIBE string

section \<open>Values of the language: numbers of strings, comparison\<close>

text \<open>
  Strings are ASCII texts.  \<open>is_space\<close> is the white space of \<open>trim\<close> and of \<open>\s\<close>.

  \<open>StringToNumber\<close> is \<open>Number(text)\<close>: between white space, the empty text is 0; a
  binary, octal or hexadecimal integer (\<open>0b\<close>, \<open>0o\<close>, \<open>0x\<close>) has no sign; a decimal
  literal has an optional sign, digits with an optional fraction (one of the two parts
  may be empty, not both) and an optional exponent, or is \<open>Infinity\<close>; every other text
  is NaN.  The value is rounded to a double.

  \<open>ToPrimitive\<close> turns the two kinds of inherited object into the text that their
  \<open>toString\<close> gives.  \<open>IsLessThan\<close> is the relational comparison of the language: two
  strings are compared by their characters, anything else as numbers, and a comparison
  with NaN is undefined (\<open>None\<close>).  \<open>a > b\<close> is \<open>IsLessThan b a\<close> being true, \<open>a >= b\<close>
  is \<open>IsLessThan a b\<close> being false, and so on.
\<close>

definition is_space :: "char \<Rightarrow> bool" where
  "is_space c = (c \<in> set [CHR '' '', CHR 0x09, CHR 0x0A, CHR 0x0B, CHR 0x0C, CHR 0x0D])"

definition trim :: "string \<Rightarrow> string" where
  "trim s = rev (dropWhile is_space (rev (dropWhile is_space s)))"

definition digit_of :: "char \<Rightarrow> int" where
  "digit_of c =
     (if is_digit c then of_char c - 48
      else if CHR ''a'' \<le> c \<and> c \<le> CHR ''z'' then of_char c - 87
      else if CHR ''A'' \<le> c \<and> c \<le> CHR ''Z'' then of_char c - 55
      else 36)"

definition radix_value :: "int \<Rightarrow> string \<Rightarrow> int" where
  "radix_value radix ds = foldl (\<lambda>n d. radix * n + digit_of d) 0 ds"

definition non_decimal :: "string \<Rightarrow> int option" where
  "non_decimal s =
     (case s of
        c0 # c1 # ds \<Rightarrow>
          (let radix = (if c1 = CHR ''x'' \<or> c1 = CHR ''X'' then 16
                        else if c1 = CHR ''o'' \<or> c1 = CHR ''O'' then 8
                        else if c1 = CHR ''b'' \<or> c1 = CHR ''B'' then 2 else 0)
           in if c0 = CHR ''0'' \<and> ds \<noteq> [] \<and> list_all (\<lambda>d. digit_of d < radix) ds
              then Some (radix_value radix ds) else None)
      | _ \<Rightarrow> None)"

definition signed_integer :: "string \<Rightarrow> int option" where
  "signed_integer s =
     (let ds = (if s \<noteq> [] \<and> (hd s = CHR ''-'' \<or> hd s = CHR ''+'') then tl s else s)
      in if ds \<noteq> [] \<and> list_all is_digit ds
         then Some (if hd s = CHR ''-'' then - digits_value ds else digits_value ds)
         else None)"

definition unsigned_decimal :: "string \<Rightarrow> rat option" where
  "unsigned_decimal s =
     (let mantissa = takeWhile (\<lambda>c. c \<noteq> CHR ''e'' \<and> c \<noteq> CHR ''E'') s;
          rest = dropWhile (\<lambda>c. c \<noteq> CHR ''e'' \<and> c \<noteq> CHR ''E'') s;
          whole = takeWhile is_digit mantissa;
          after = dropWhile is_digit mantissa;
          fraction = (if after = [] then Some []
                      else if hd after = CHR ''.'' \<and> list_all is_digit (tl after) then Some (tl after)
                      else None);
          exponent_part = (if rest = [] then Some 0 else signed_integer (tl rest))
      in case (fraction, exponent_part) of
           (Some f, Some e) \<Rightarrow>
             if whole = [] \<and> f = [] then None
             else Some (of_int (digits_value (whole @ f)) * power_of 10 (e - int (length f)))
         | _ \<Rightarrow> None)"

definition StringToNumber :: "string \<Rightarrow> number" where
  "StringToNumber str =
     (let s = trim str in
      if s = [] then Finite 0
      else
        (case non_decimal s of
           Some n \<Rightarrow> to_double (of_int n)
         | None \<Rightarrow>
             (let body = (if hd s = CHR ''-'' \<or> hd s = CHR ''+'' then tl s else s)
              in if body = ''Infinity'' then (if hd s = CHR ''-'' then MinusInfinity else Infinity)
                 else (case unsigned_decimal body of
                         Some q \<Rightarrow> to_double (if hd s = CHR ''-'' then - q else q)
                       | None \<Rightarrow> NaN))))"

definition ToNumber :: "jsval \<Rightarrow> number" where
  "ToNumber v =
     (case v of
        JUndefined \<Rightarrow> NaN
      | JNull \<Rightarrow> Finite 0
      | JBool b \<Rightarrow> Finite (if b then 1 else 0)
      | JNum n \<Rightarrow> n
      | JStr s \<Rightarrow> StringToNumber s)"

definition ToPrimitive :: "jsany \<Rightarrow> jsval" where
  "ToPrimitive a =
     (case a of
        Prim v \<Rightarrow> v
      | Function f \<Rightarrow> JStr (''function '' @ f @ ''() { [native code] }'')
      | ObjectPrototype \<Rightarrow> JStr ''[object Object]'')"

fun number_less :: "number \<Rightarrow> number \<Rightarrow> bool option" where
  "number_less NaN y = None"
| "number_less x NaN = None"
| "number_less (Finite a) (Finite b) = Some (a < b)"
| "number_less Infinity y = Some False"
| "number_less x Infinity = Some True"
| "number_less x MinusInfinity = Some False"
| "number_less MinusInfinity y = Some True"

fun string_less :: "string \<Rightarrow> string \<Rightarrow> bool" where
  "string_less [] [] = False"
| "string_less [] (y # ys) = True"
| "string_less (x # xs) [] = False"
| "string_less (x # xs) (y # ys) = (x < y \<or> (x = y \<and> string_less xs ys))"

definition IsLessThan :: "jsany \<Rightarrow> jsany \<Rightarrow> bool option" where
  "IsLessThan x y =
     (case (ToPrimitive x, ToPrimitive y) of
        (JStr a, JStr b) \<Rightarrow> Some (string_less a b)
      | (px, py) \<Rightarrow> number_less (ToNumber px) (ToNumber py))"

definition js_lt :: "jsany \<Rightarrow> jsany \<Rightarrow> bool" where
  "js_lt a b = (IsLessThan a b = Some True)"

definition js_gt :: "jsany \<Rightarrow> jsany \<Rightarrow> bool" where
  "js_gt a b = (IsLessThan b a = Some True)"

definition js_le :: "jsany \<Rightarrow> jsany \<Rightarrow> bool" where
  "js_le a b = (IsLessThan b a = Some False)"

definition js_ge :: "jsany \<Rightarrow> jsany \<Rightarrow> bool" where
  "js_ge a b = (IsLessThan a b = Some False)"

section \<open>QueryExecutor (QueryExecutor.ts)\<close>

text \<open>
  \<open>evaluateCondition\<close> is the function that \<open>evaluateWhere\<close> hands to \<open>every\<close>, with its
  \<open>switch\<close> on the operator.  \<open>executeJoin\<close> is the nested loop of the source:
  \<open>join_inner_loop\<close> is one turn of the loop over the right rows, with the result list
  and the flag \<open>matched\<close> as its state, and \<open>join_outer_loop\<close> is one turn of the loop over
  the left rows.  \<open>qualify\<close> copies the entries of a row into the joined row under
  \<open><table>.<key>\<close>.  \<open>split_char\<close> is \<open>split\<close> with a separator of one character, and
  \<open>second\<close> is the destructuring \<open>[, x]\<close>: an absent second part is \<open>undefined\<close>, which as
  a property name reads \<open>undefined\<close>.
\<close>

definition evaluateCondition :: "Row \<Rightarrow> WhereClause \<Rightarrow> bool" where
  "evaluateCondition row condition =
     (let rowValue = row_get row (wc_column condition);
          condValue = Prim (wc_value condition)
      in if wc_operator condition = ''='' then strict_eq rowValue condValue
         else if wc_operator condition = ''!='' then \<not> strict_eq rowValue condValue
         else if wc_operator condition = ''>'' then js_gt rowValue condValue
         else if wc_operator condition = ''<'' then js_lt rowValue condValue
         else if wc_operator condition = ''>='' then js_ge rowValue condValue
         else if wc_operator condition = ''<='' then js_le rowValue condValue
         else False)"

definition evaluateWhere :: "Row \<Rightarrow> WhereClause list \<Rightarrow> bool" where
  "evaluateWhere row conditions = list_all (evaluateCondition row) conditions"

definition filterRows :: "Row list \<Rightarrow> WhereClause list \<Rightarrow> Row list" where
  "filterRows rs whr = filter (\<lambda>row. evaluateWhere row whr) rs"

fun split_char :: "char \<Rightarrow> string \<Rightarrow> string list" where
  "split_char sep [] = [[]]"
| "split_char sep (x # xs) =
     (if x = sep then [] # split_char sep xs
      else (case split_char sep xs of
              [] \<Rightarrow> [[x]]
            | w # ws \<Rightarrow> (x # w) # ws))"

definition property_key :: "string option \<Rightarrow> string" where
  "property_key k = (case k of None \<Rightarrow> ''undefined'' | Some s \<Rightarrow> s)"

definition second :: "'a list \<Rightarrow> 'a option" where
  "second xs = (case xs of _ # y # _ \<Rightarrow> Some y | _ \<Rightarrow> None)"

definition qualify :: "string \<Rightarrow> Row \<Rightarrow> Row \<Rightarrow> Row" where
  "qualify tableName row joinedRow =
     fold (\<lambda>(key, v) j. row_set j (tableName @ ''.'' @ key) v) (props row) joinedRow"

definition join_inner_loop ::
  "Row \<Rightarrow> string \<Rightarrow> string \<Rightarrow> string \<Rightarrow> string \<Rightarrow> Row \<Rightarrow> Row list \<times> bool \<Rightarrow> Row list \<times> bool" where
  "join_inner_loop leftRow leftCol rightCol leftTableName rightTableName rightRow st =
     (case st of (result, matched) \<Rightarrow>
        if strict_eq (row_get leftRow leftCol) (row_get rightRow rightCol)
        then (result @ [qualify rightTableName rightRow (qualify leftTableName leftRow (object []))], True)
        else (result, matched))"

definition join_outer_loop ::
  "Row list \<Rightarrow> JoinClause \<Rightarrow> string \<Rightarrow> string \<Rightarrow> string \<Rightarrow> string \<Rightarrow> Row \<Rightarrow> Row list \<Rightarrow> Row list" where
  "join_outer_loop rightRows join leftCol rightCol leftTableName rightTableName leftRow result =
     (case fold (join_inner_loop leftRow leftCol rightCol leftTableName rightTableName) rightRows (result, False) of
        (result', matched) \<Rightarrow>
          if \<not> matched \<and> join_type join = LEFT
          then result' @ [qualify leftTableName leftRow (object [])]
          else result')"

definition executeJoin ::
  "Row list \<Rightarrow> Row list \<Rightarrow> JoinClause \<Rightarrow> string \<Rightarrow> string \<Rightarrow> Row list" where
  "executeJoin leftRows rightRows join leftTableName rightTableName =
     (let leftCol = property_key (second (split_char CHR ''.'' (on_leftColumn join)));
          rightCol = property_key (second (split_char CHR ''.'' (on_rightColumn join)))
      in fold (join_outer_loop rightRows join leftCol rightCol leftTableName rightTableName) leftRows [])"

section \<open>Database (Database.ts) and the statements of the executor\<close>

text \<open>
  The table map keeps its insertion order, so it is a list of names with their tables.
  The source mutates the table object it got from the map; here every statement returns
  the database with the new state of the table written back (\<open>setTable\<close>).
  \<open>failed\<close>, \<open>done_message\<close> and \<open>done_rows\<close> are the three shapes of result the executor
  builds, and \<open>show_nat\<close> prints a row count in a message.

  \<open>executeSelect\<close> can throw, since \<open>Table.select\<close> can; it changes nothing, so the
  database at the \<open>catch\<close> is the one before the statement.  \<open>execute_switch\<close> is the
  \<open>switch\<close> inside the \<open>try\<close> of \<open>execute\<close>, and the handler of \<open>execute\<close> turns the
  exception into a result that carries its message.
\<close>

type_synonym Database = "(string \<times> Table) list"

definition hasTable :: "Database \<Rightarrow> string \<Rightarrow> bool" where
  "hasTable db tableName = (map_of db tableName \<noteq> None)"

definition getTable :: "Database \<Rightarrow> string \<Rightarrow> Table option" where
  "getTable db tableName = map_of db tableName"

definition getTables :: "Database \<Rightarrow> string list" where
  "getTables db = map fst db"

definition createTable :: "Database \<Rightarrow> TableSchema \<Rightarrow> Outcome \<times> Database" where
  "createTable db s =
     (if hasTable db (schema_name s) then (Failure (''Table '' @ schema_name s @ '' already exists''), db)
      else
        (let primaryKeys = filter col_primaryKey (columns s) in
         if length primaryKeys > 1 then (Failure ''Multiple primary keys not supported'', db)
         else
           (let s' = (if length primaryKeys = 1
                      then s\<lparr>schema_primaryKey := Some (col_name (hd primaryKeys))\<rparr> else s)
            in (Success, db @ [(schema_name s, new_Table s')]))))"

definition dropTable :: "Database \<Rightarrow> string \<Rightarrow> Outcome \<times> Database" where
  "dropTable db tableName =
     (if \<not> hasTable db tableName then (Failure (''Table '' @ tableName @ '' does not exist''), db)
      else (Success, filter (\<lambda>(n, t). n \<noteq> tableName) db))"

definition setTable :: "Database \<Rightarrow> string \<Rightarrow> Table \<Rightarrow> Database" where
  "setTable db tableName t = map (\<lambda>(n, t'). if n = tableName then (n, t) else (n, t')) db"

fun show_nat :: "nat \<Rightarrow> string" where
  "show_nat n = (if n < 10 then [char_of (48 + n)] else show_nat (n div 10) @ [char_of (48 + n mod 10)])"

declare show_nat.simps [simp del]

definition failed :: "string \<Rightarrow> QueryResult" where
  "failed e = \<lparr>qr_success = False, qr_rows = None, qr_rowCount = None, qr_message = None, qr_error = Some e\<rparr>"

definition done_message :: "string \<Rightarrow> nat option \<Rightarrow> QueryResult" where
  "done_message msg n = \<lparr>qr_success = True, qr_rows = None, qr_rowCount = n, qr_message = Some msg, qr_error = None\<rparr>"

definition done_rows :: "Row list \<Rightarrow> QueryResult" where
  "done_rows rs = \<lparr>qr_success = True, qr_rows = Some rs, qr_rowCount = Some (length rs), qr_message = None, qr_error = None\<rparr>"

definition executeCreateTable :: "Database \<Rightarrow> string \<Rightarrow> ColumnDefinition list \<Rightarrow> QueryResult \<times> Database" where
  "executeCreateTable db tableName cols =
     (case createTable db \<lparr>schema_name = tableName, columns = cols, schema_primaryKey = None\<rparr> of
        (Success, db') \<Rightarrow> (done_message (''Table '' @ tableName @ '' created'') None, db')
      | (Failure e, db') \<Rightarrow> (failed e, db'))"

definition executeDropTable :: "Database \<Rightarrow> string \<Rightarrow> QueryResult \<times> Database" where
  "executeDropTable db tableName =
     (case dropTable db tableName of
        (Success, db') \<Rightarrow> (done_message (''Table '' @ tableName @ '' dropped'') None, db')
      | (Failure e, db') \<Rightarrow> (failed e, db'))"

definition value_at :: "jsval list \<Rightarrow> nat \<Rightarrow> jsval" where
  "value_at vs idx = (if idx < length vs then vs ! idx else JUndefined)"

definition executeInsert :: "Database \<Rightarrow> string \<Rightarrow> string list option \<Rightarrow> jsval list \<Rightarrow> QueryResult \<times> Database" where
  "executeInsert db tableName cols vs =
     (case getTable db tableName of
        None \<Rightarrow> (failed (''Table '' @ tableName @ '' does not exist''), db)
      | Some t \<Rightarrow>
          (let names = (case cols of Some cs \<Rightarrow> cs | None \<Rightarrow> map col_name (columns (schema t)));
               row = fold (\<lambda>(idx, col) row. row_set row col (value_at vs idx)) (enumerate 0 names) (object [])
           in case insert_row t row of
                (Success, t') \<Rightarrow> (done_message ''1 row inserted'' (Some 1), setTable db tableName t')
              | (Failure e, t') \<Rightarrow> (failed e, setTable db tableName t')))"

definition executeSelect ::
  "Database \<Rightarrow> string list \<Rightarrow> string \<Rightarrow> WhereClause list option \<Rightarrow> JoinClause option \<Rightarrow> exn + QueryResult" where
  "executeSelect db cols frm whr join =
     (case getTable db frm of
        None \<Rightarrow> Inr (failed (''Table '' @ frm @ '' does not exist''))
      | Some t \<Rightarrow>
          (case select t cols of
             Inl e \<Rightarrow> Inl e
           | Inr rows0 \<Rightarrow>
               (let rows1 = (case whr of Some w \<Rightarrow> filterRows rows0 w | None \<Rightarrow> rows0)
                in case join of
                     None \<Rightarrow> Inr (done_rows rows1)
                   | Some j \<Rightarrow>
                       (case getTable db (join_table j) of
                          None \<Rightarrow> Inr (failed (''Join table '' @ join_table j @ '' does not exist''))
                        | Some joinTable \<Rightarrow>
                            (case select joinTable [] of
                               Inl e \<Rightarrow> Inl e
                             | Inr rightRows \<Rightarrow>
                                 Inr (done_rows (executeJoin rows1 rightRows j frm (join_table j))))))))"

definition where_predicate :: "WhereClause list option \<Rightarrow> Row \<Rightarrow> bool" where
  "where_predicate whr = (case whr of Some w \<Rightarrow> (\<lambda>row. evaluateWhere row w) | None \<Rightarrow> (\<lambda>row. True))"

definition executeUpdate :: "Database \<Rightarrow> string \<Rightarrow> Row \<Rightarrow> WhereClause list option \<Rightarrow> QueryResult \<times> Database" where
  "executeUpdate db tableName st whr =
     (case getTable db tableName of
        None \<Rightarrow> (failed (''Table '' @ tableName @ '' does not exist''), db)
      | Some t \<Rightarrow>
          (case update t st (where_predicate whr) of
             (cnt, t') \<Rightarrow>
               (done_message (show_nat cnt @ '' row(s) updated'') (Some cnt),
                setTable db tableName t')))"

definition executeDelete :: "Database \<Rightarrow> string \<Rightarrow> WhereClause list option \<Rightarrow> QueryResult \<times> Database" where
  "executeDelete db frm whr =
     (case getTable db frm of
        None \<Rightarrow> (failed (''Table '' @ frm @ '' does not exist''), db)
      | Some t \<Rightarrow>
          (case delete t (where_predicate whr) of
             (cnt, t') \<Rightarrow>
               (done_message (show_nat cnt @ '' row(s) deleted'') (Some cnt),
                setTable db frm t')))"

definition executeShowTables :: "Database \<Rightarrow> QueryResult" where
  "executeShowTables db = done_rows (map (\<lambda>name. object [(''table_name'', JStr name)]) (getTables db))"

definition type_name :: "ColumnType \<Rightarrow> string" where
  "type_name ty = (case ty of TString \<Rightarrow> ''string'' | TNumber \<Rightarrow> ''number'' | TBoolean \<Rightarrow> ''boolean'')"

definition executeDescribe :: "Database \<Rightarrow> string \<Rightarrow> QueryResult" where
  "executeDescribe db tableName =
     (case getTable db tableName of
        None \<Rightarrow> failed (''Table '' @ tableName @ '' does not exist'')
      | Some t \<Rightarrow>
          done_rows (map (\<lambda>col. object [(''column'', JStr (col_name col)),
                                         (''type'', JStr (type_name (col_type col))),
                                         (''nullable'', JStr (if col_nullable col then ''YES'' else ''NO'')),
                                         (''key'', JStr (if col_primaryKey col then ''PRI''
                                                         else if col_unique col then ''UNI'' else ''''))])
                         (columns (schema t))))"

definition execute_switch :: "Database \<Rightarrow> ParsedQuery \<Rightarrow> exn + (QueryResult \<times> Database)" where
  "execute_switch db query =
     (case query of
        CREATE_TABLE tableName cols \<Rightarrow> Inr (executeCreateTable db tableName cols)
      | DROP_TABLE tableName \<Rightarrow> Inr (executeDropTable db tableName)
      | INSERT tableName cols vs \<Rightarrow> Inr (executeInsert db tableName cols vs)
      | SELECT cols frm whr join \<Rightarrow>
          (case executeSelect db cols frm whr join of Inl e \<Rightarrow> Inl e | Inr r \<Rightarrow> Inr (r, db))
      | UPDATE tableName st whr \<Rightarrow> Inr (executeUpdate db tableName st whr)
      | DELETE frm whr \<Rightarrow> Inr (executeDelete db frm whr)
      | SHOW_TABLES \<Rightarrow> Inr (executeShowTables db, db)
      | DESCRIBE tableName \<Rightarrow> Inr (executeDescribe db tableName, db))"

definition execute :: "Database \<Rightarrow> ParsedQuery \<Rightarrow> exn + (QueryResult \<times> Database)" where
  "execute db query =
     try_catch (execute_switch db query) (\<lambda>error. Inr (failed (message error), db))"

section \<open>Regular expressions\<close>

text \<open>
  The patterns of the parser are run by a backtracking matcher with the priorities of
  the language: the alternatives of \<open>|\<close> from left to right, a greedy \<open>*\<close> the longest
  run first, a lazy \<open>*?\<close> the shortest first, the first path that reaches the end of
  the pattern wins.  Every quantifier of the parser stands on a single character or
  character class, so \<open>Star\<close> and \<open>LazyStar\<close> take a class; \<open>x+\<close> is \<open>xx*\<close>
  (\<open>one_or_more\<close>, and \<open>lazy_one_or_more\<close> for \<open>x+?\<close>) and \<open>(...)?\<close> is \<open>(...)|\<close>empty
  (\<open>opt\<close>).  \<open>run\<close> works on the stack of what is still to match: \<open>Close n p\<close> ends
  group \<open>n\<close>, which began at position \<open>p\<close>.  It returns the end position and the captured
  groups.  \<open>exec\<close> tries the start positions from the left, as \<open>match\<close> and \<open>test\<close> do
  without the flags \<open>g\<close> and \<open>y\<close>; \<open>split_re\<close> is \<open>split\<close> with a pattern.
\<close>

datatype re =
    Eps
  | Chr "char \<Rightarrow> bool"
  | Seq re re
  | Alt re re
  | Star "char \<Rightarrow> bool"
  | LazyStar "char \<Rightarrow> bool"
  | Group nat re
  | Bos
  | Eos

datatype frame = Re re | Close nat nat

fun re_size :: "re \<Rightarrow> nat" where
  "re_size (Seq a b) = 2 + re_size a + re_size b"
| "re_size (Alt a b) = 1 + re_size a + re_size b"
| "re_size (Group n r) = 2 + re_size r"
| "re_size _ = 0"

fun frame_size :: "frame \<Rightarrow> nat" where
  "frame_size (Re r) = 1 + re_size r"
| "frame_size (Close n p) = 1"

type_synonym captures = "nat \<rightharpoonup> string"

function (sequential) run :: "string \<Rightarrow> frame list \<Rightarrow> string \<Rightarrow> captures \<Rightarrow> (nat \<times> captures) option" where
  "run inp [] s caps = Some (length inp - length s, caps)"
| "run inp (Close n p # k) s caps =
     run inp k s (caps(n \<mapsto> take (length inp - length s - p) (drop p inp)))"
| "run inp (Re Eps # k) s caps = run inp k s caps"
| "run inp (Re (Chr c) # k) [] caps = None"
| "run inp (Re (Chr c) # k) (x # xs) caps = (if c x then run inp k xs caps else None)"
| "run inp (Re (Seq a b) # k) s caps = run inp (Re a # Re b # k) s caps"
| "run inp (Re (Alt a b) # k) s caps =
     (case run inp (Re a # k) s caps of
        Some r \<Rightarrow> Some r
      | None \<Rightarrow> run inp (Re b # k) s caps)"
| "run inp (Re (Star c) # k) [] caps = run inp k [] caps"
| "run inp (Re (Star c) # k) (x # xs) caps =
     (if c x then
        (case run inp (Re (Star c) # k) xs caps of
           Some r \<Rightarrow> Some r
         | None \<Rightarrow> run inp k (x # xs) caps)
      else run inp k (x # xs) caps)"
| "run inp (Re (LazyStar c) # k) [] caps = run inp k [] caps"
| "run inp (Re (LazyStar c) # k) (x # xs) caps =
     (case run inp k (x # xs) caps of
        Some r \<Rightarrow> Some r
      | None \<Rightarrow> if c x then run inp (Re (LazyStar c) # k) xs caps else None)"
| "run inp (Re (Group n r) # k) s caps = run inp (Re r # Close n (length inp - length s) # k) s caps"
| "run inp (Re Bos # k) s caps = (if length s = length inp then run inp k s caps else None)"
| "run inp (Re Eos # k) s caps = (if s = [] then run inp k s caps else None)"
  by pat_completeness auto

termination
  by (relation "measures [\<lambda>(inp, k, s, caps). sum_list (map frame_size k), \<lambda>(inp, k, s, caps). length s]") auto

record Match =
  m_index :: nat
  m_end :: nat
  m_groups :: captures

fun exec_at :: "string \<Rightarrow> re \<Rightarrow> nat list \<Rightarrow> Match option" where
  "exec_at inp r [] = None"
| "exec_at inp r (i # starts) =
     (case run inp [Re r] (drop i inp) Map.empty of
        Some (e, caps) \<Rightarrow> Some \<lparr>m_index = i, m_end = e, m_groups = caps\<rparr>
      | None \<Rightarrow> exec_at inp r starts)"

definition exec :: "re \<Rightarrow> string \<Rightarrow> Match option" where
  "exec r inp = exec_at inp r [0..<Suc (length inp)]"

definition test :: "re \<Rightarrow> string \<Rightarrow> bool" where
  "test r inp = (exec r inp \<noteq> None)"

definition is_word :: "char \<Rightarrow> bool" where
  "is_word c = ((CHR ''a'' \<le> c \<and> c \<le> CHR ''z'') \<or> (CHR ''A'' \<le> c \<and> c \<le> CHR ''Z'') \<or>
                (CHR ''0'' \<le> c \<and> c \<le> CHR ''9'') \<or> c = CHR ''_'')"

definition is_dot :: "char \<Rightarrow> bool" where
  "is_dot c = (c \<noteq> CHR 0x0A \<and> c \<noteq> CHR 0x0D)"

definition toUpperChar :: "char \<Rightarrow> char" where
  "toUpperChar c = (if CHR ''a'' \<le> c \<and> c \<le> CHR ''z'' then char_of (of_char c - (32::nat)) else c)"

definition toLowerChar :: "char \<Rightarrow> char" where
  "toLowerChar c = (if CHR ''A'' \<le> c \<and> c \<le> CHR ''Z'' then char_of (of_char c + (32::nat)) else c)"

definition toUpperCase :: "string \<Rightarrow> string" where
  "toUpperCase s = map toUpperChar s"

definition toLowerCase :: "string \<Rightarrow> string" where
  "toLowerCase s = map toLowerChar s"

definition seqs :: "re list \<Rightarrow> re" where
  "seqs rs = foldr Seq rs Eps"

definition lit :: "string \<Rightarrow> re" where
  "lit s = seqs (map (\<lambda>c. Chr (\<lambda>x. x = c)) s)"

definition lit_i :: "string \<Rightarrow> re" where
  "lit_i s = seqs (map (\<lambda>c. Chr (\<lambda>x. toUpperChar x = toUpperChar c)) s)"

definition one_or_more :: "(char \<Rightarrow> bool) \<Rightarrow> re" where
  "one_or_more c = Seq (Chr c) (Star c)"

definition lazy_one_or_more :: "(char \<Rightarrow> bool) \<Rightarrow> re" where
  "lazy_one_or_more c = Seq (Chr c) (LazyStar c)"

definition opt :: "re \<Rightarrow> re" where
  "opt r = Alt r Eps"

lemma run_end:
  "run inp k s caps = Some (e, c) \<Longrightarrow> length inp - length s \<le> e"
proof (induction inp k s caps arbitrary: e c rule: run.induct)
  case (5 inp c' k x xs caps)
  then show ?case by (auto split: if_splits)
next
  case (7 inp a b k s caps)
  then show ?case by (auto split: option.splits)
next
  case (9 inp c' k x xs caps)
  then show ?case by (fastforce split: if_splits option.splits)
next
  case (11 inp c' k x xs caps)
  then show ?case by (fastforce split: if_splits option.splits)
qed (auto split: if_splits)

function split_loop :: "re \<Rightarrow> string \<Rightarrow> nat \<Rightarrow> nat \<Rightarrow> string list \<Rightarrow> string list" where
  "split_loop r S p q A =
     (if q < length S then
        (case run S [Re r] (drop q S) Map.empty of
           None \<Rightarrow> split_loop r S p (Suc q) A
         | Some (e0, caps) \<Rightarrow>
             (let e = min e0 (length S) in
              if e = p then split_loop r S p (Suc q) A
              else split_loop r S e e (A @ [take (q - p) (drop p S)])))
      else A @ [drop p S])"
  by pat_completeness auto

termination
proof (relation "measures [\<lambda>(r, S, p, q, A). length S - q, \<lambda>(r, S, p, q, A). if p = q then 0 else 1]", goal_cases)
  case 1
  then show ?case by simp
next
  case (2 r S p q A)
  then show ?case by auto
next
  case (3 r S p q A x2 e0 caps e)
  then show ?case by auto
next
  case (4 r S p q A x2 e0 caps e)
  from 4 have "run S [Re r] (drop q S) Map.empty = Some (e0, caps)" by simp
  from run_end[OF this] 4(1) have "q \<le> e0" by simp
  with 4 show ?case by auto
qed

definition split_re :: "re \<Rightarrow> string \<Rightarrow> string list" where
  "split_re r S =
     (if length S = 0 then
        (case run S [Re r] S Map.empty of None \<Rightarrow> [S] | Some z \<Rightarrow> [])
      else split_loop r S 0 0 [])"

declare split_loop.simps [simp del]

section \<open>QueryParser (QueryParser.ts)\<close>

text \<open>
  Every \<open>throw new Error(message)\<close> of the parser is the value \<open>Inl (Error message)\<close>.
  \<open>parseValue\<close> keeps a text as a number when \<open>Number\<close> of it is not NaN.
  \<open>group_text m n\<close> is \<open>match[n]\<close> for a group that takes part in every match; the optional
  groups are read through \<open>m_groups\<close>, where \<open>None\<close> is \<open>undefined\<close>.  The patterns are
  those of the source, \<open>lit_i\<close> for the text of a pattern with the flag \<open>i\<close>.
  \<open>columnType\<close> is the chain of tests on the type word inside \<open>parseCreateTable\<close>, and
  \<open>parseColumn\<close> the function it maps over the column definitions.
  \<open>parseSet\<close> is the loop over the assignments of \<open>SET\<close>, which fills the object
  \<open>set\<close>: an assignment without \<open>=\<close> calls \<open>parseValue(undefined)\<close>, which raises a
  TypeError at \<open>value.trim()\<close>.
\<close>

definition startsWith :: "string \<Rightarrow> string \<Rightarrow> bool" where
  "startsWith s p = (take (length p) s = p)"

definition endsWith :: "string \<Rightarrow> string \<Rightarrow> bool" where
  "endsWith s p = (length p \<le> length s \<and> drop (length s - length p) s = p)"

definition str_includes :: "string \<Rightarrow> string \<Rightarrow> bool" where
  "str_includes s sub = list_ex (\<lambda>i. take (length sub) (drop i s) = sub) [0..<Suc (length s)]"

definition group_text :: "Match \<Rightarrow> nat \<Rightarrow> string" where
  "group_text m n = (case m_groups m n of None \<Rightarrow> ''undefined'' | Some s \<Rightarrow> s)"

definition strip_semicolon :: "string \<Rightarrow> string" where
  "strip_semicolon s =
     (case exec (Seq (lit '';'') Eos) s of
        None \<Rightarrow> s
      | Some m \<Rightarrow> take (m_index m) s @ drop (m_end m) s)"

definition parseValue :: "string \<Rightarrow> jsval" where
  "parseValue value0 =
     (let v = trim value0 in
      if toLowerCase v = ''true'' then JBool True
      else if toLowerCase v = ''false'' then JBool False
      else if startsWith v [CHR 0x27] \<and> endsWith v [CHR 0x27] then JStr (butlast (tl v))
      else if startsWith v [CHR 0x22] \<and> endsWith v [CHR 0x22] then JStr (butlast (tl v))
      else (let num = StringToNumber v in if num \<noteq> NaN then JNum num else JStr v))"

definition parseValues :: "string \<Rightarrow> jsval list" where
  "parseValues valuesStr = map (\<lambda>v. parseValue (trim v)) (split_char CHR '','' valuesStr)"

definition where_condition_re :: re where
  "where_condition_re =
     seqs [Group 1 (one_or_more is_word), Star is_space,
           Group 2 (Alt (lit ''='') (Alt (lit ''!='') (Alt (lit ''>'') (Alt (lit ''<'') (Alt (lit ''>='') (lit ''<='')))))),
           Star is_space, Group 3 (one_or_more is_dot)]"

fun parseConditions :: "string list \<Rightarrow> exn + WhereClause list" where
  "parseConditions [] = Inr []"
| "parseConditions (condition # conditions) =
     (case exec where_condition_re condition of
        None \<Rightarrow> Inl (Error (''Invalid WHERE condition: '' @ condition))
      | Some m \<Rightarrow>
          (case parseConditions conditions of
             Inl e \<Rightarrow> Inl e
           | Inr ws \<Rightarrow>
               Inr (\<lparr>wc_column = group_text m 1, wc_operator = group_text m 2,
                      wc_value = parseValue (group_text m 3)\<rparr> # ws)))"

definition parseWhere :: "string \<Rightarrow> exn + WhereClause list" where
  "parseWhere whereClause =
     parseConditions (split_re (seqs [one_or_more is_space, lit_i ''AND'', one_or_more is_space]) whereClause)"

definition columnType :: "string \<Rightarrow> ColumnType" where
  "columnType rawType =
     (if test (seqs [Bos, lit_i ''varchar(''])  rawType \<or> test (seqs [Bos, lit_i ''char('']) rawType \<or>
         rawType = ''text'' \<or> test (seqs [Bos, lit_i ''timestamp'']) rawType
      then TString
      else if test (seqs [Bos, lit_i ''serial'']) rawType \<or>
              test (seqs [Bos, lit_i ''int'', opt (Group 1 (lit_i ''er'')), Eos]) rawType \<or>
              test (seqs [Bos, lit_i ''number'', Eos]) rawType \<or>
              test (seqs [Bos, lit_i ''bigint'']) rawType
      then TNumber
      else if test (seqs [Bos, lit_i ''bool'', opt (Group 1 (lit_i ''ean'')), Eos]) rawType
      then TBoolean
      else TString)"

definition part :: "string list \<Rightarrow> nat \<Rightarrow> string option" where
  "part parts i = (if i < length parts then Some (parts ! i) else None)"

definition parseColumn :: "string \<Rightarrow> ColumnDefinition" where
  "parseColumn def =
     (let parts = split_re (one_or_more is_space) def;
          name = (case part parts 0 of Some p \<Rightarrow> p | None \<Rightarrow> ''undefined'');
          rawType = (case part parts 1 of
                       Some p \<Rightarrow> if p \<noteq> [] then toLowerCase p else ''string''
                     | None \<Rightarrow> ''string'');
          upperDef = toUpperCase def;
          pk = str_includes upperDef ''PRIMARY KEY''
      in \<lparr>col_name = name, col_type = columnType rawType,
          col_primaryKey = pk,
          col_unique = str_includes upperDef ''UNIQUE'',
          col_nullable = (\<not> pk \<and> \<not> str_includes upperDef ''NOT NULL'')\<rparr>)"

definition parseCreateTable :: "string \<Rightarrow> exn + ParsedQuery" where
  "parseCreateTable sql =
     (case exec (seqs [lit_i ''CREATE TABLE'', one_or_more is_space, Group 1 (one_or_more is_word), Star is_space,
                       lit ''('', Group 2 (Star (\<lambda>c. True)), lit '')'']) sql of
        None \<Rightarrow> Inl (Error ''Invalid CREATE TABLE syntax'')
      | Some m \<Rightarrow>
          (let columnDefs = filter (\<lambda>d. d \<noteq> []) (map trim (split_char CHR '','' (group_text m 2)))
           in Inr (CREATE_TABLE (group_text m 1) (map parseColumn columnDefs))))"

definition parseDropTable :: "string \<Rightarrow> exn + ParsedQuery" where
  "parseDropTable sql =
     (case exec (seqs [lit_i ''DROP TABLE'', one_or_more is_space, Group 1 (one_or_more is_word)]) sql of
        None \<Rightarrow> Inl (Error ''Invalid DROP TABLE syntax'')
      | Some m \<Rightarrow> Inr (DROP_TABLE (group_text m 1)))"

definition parseInsert :: "string \<Rightarrow> exn + ParsedQuery" where
  "parseInsert sql =
     (case exec (seqs [lit_i ''INSERT INTO'', one_or_more is_space, Group 1 (one_or_more is_word), Star is_space,
                       opt (seqs [lit ''('', Group 2 (LazyStar is_dot), lit '')'']), Star is_space,
                       lit_i ''VALUES'', Star is_space, lit ''('', Group 3 (LazyStar is_dot), lit '')'']) sql of
        None \<Rightarrow> Inl (Error ''Invalid INSERT syntax'')
      | Some m \<Rightarrow>
          (let cols = (case m_groups m 2 of
                         None \<Rightarrow> None
                       | Some g \<Rightarrow> if g \<noteq> [] then Some (map trim (split_char CHR '','' g)) else None)
           in Inr (INSERT (group_text m 1) cols (parseValues (group_text m 3)))))"

definition parseSelect :: "string \<Rightarrow> exn + ParsedQuery" where
  "parseSelect sql =
     (case exec (seqs [lit_i ''SELECT'', one_or_more is_space, Group 1 (LazyStar is_dot), one_or_more is_space,
                       lit_i ''FROM'', one_or_more is_space, Group 2 (one_or_more is_word), Group 3 (Star is_dot)]) sql of
        None \<Rightarrow> Inl (Error ''Invalid SELECT syntax'')
      | Some selectMatch \<Rightarrow>
          (let columnsStr = trim (group_text selectMatch 1);
               cols = (if columnsStr = ''*'' then [''*''] else map trim (split_char CHR '','' columnsStr));
               frm = group_text selectMatch 2;
               rest = trim (group_text selectMatch 3);
               join =
                 (case exec (seqs [Alt (lit_i ''INNER'') (lit_i ''LEFT''), one_or_more is_space, lit_i ''JOIN'',
                                   one_or_more is_space, Group 1 (one_or_more is_word), one_or_more is_space, lit_i ''ON'',
                                   one_or_more is_space, Group 2 (one_or_more is_word), lit ''.'', Group 3 (one_or_more is_word),
                                   Star is_space, lit ''='', Star is_space,
                                   Group 4 (one_or_more is_word), lit ''.'', Group 5 (one_or_more is_word)]) rest of
                    None \<Rightarrow> None
                  | Some joinMatch \<Rightarrow>
                      Some \<lparr>join_type = (if str_includes (toUpperCase rest) ''LEFT'' then LEFT else INNER),
                            join_table = group_text joinMatch 1,
                            on_leftColumn = group_text joinMatch 2 @ ''.'' @ group_text joinMatch 3,
                            on_rightColumn = group_text joinMatch 4 @ ''.'' @ group_text joinMatch 5\<rparr>)
           in case exec (seqs [lit_i ''WHERE'', one_or_more is_space, Group 1 (lazy_one_or_more is_dot),
                               Alt (lit_i ''ORDER BY'') (Alt (lit_i ''GROUP BY'') Eos)]) rest of
                None \<Rightarrow> Inr (SELECT cols frm None join)
              | Some whereMatch \<Rightarrow>
                  (case parseWhere (group_text whereMatch 1) of
                     Inl e \<Rightarrow> Inl e
                   | Inr whr \<Rightarrow> Inr (SELECT cols frm (Some whr) join))))"

definition undefined_trim_message :: string where
  "undefined_trim_message = ''Cannot read properties of undefined (reading '' @ [CHR 0x27] @ ''trim'' @ [CHR 0x27] @ '')''"

fun parseSet :: "string list \<Rightarrow> Row \<Rightarrow> exn + Row" where
  "parseSet [] st = Inr st"
| "parseSet (pair # pairs) st =
     (case map trim (split_char CHR ''='' pair) of
        key # v # _ \<Rightarrow> parseSet pairs (row_set st key (parseValue v))
      | _ \<Rightarrow> Inl (TypeError undefined_trim_message))"

definition parseUpdate :: "string \<Rightarrow> exn + ParsedQuery" where
  "parseUpdate sql =
     (case exec (seqs [lit_i ''UPDATE'', one_or_more is_space, Group 1 (one_or_more is_word), one_or_more is_space,
                       lit_i ''SET'', one_or_more is_space, Group 2 (LazyStar is_dot),
                       opt (seqs [one_or_more is_space, lit_i ''WHERE'', one_or_more is_space, Group 3 (one_or_more is_dot)]),
                       Eos]) sql of
        None \<Rightarrow> Inl (Error ''Invalid UPDATE syntax'')
      | Some m \<Rightarrow>
          (case parseSet (split_char CHR '','' (group_text m 2)) (object []) of
             Inl e \<Rightarrow> Inl e
           | Inr st \<Rightarrow>
               (case m_groups m 3 of
                  None \<Rightarrow> Inr (UPDATE (group_text m 1) st None)
                | Some whereClause \<Rightarrow>
                    if whereClause = [] then Inr (UPDATE (group_text m 1) st None)
                    else (case parseWhere whereClause of
                            Inl e \<Rightarrow> Inl e
                          | Inr whr \<Rightarrow> Inr (UPDATE (group_text m 1) st (Some whr))))))"

definition parseDelete :: "string \<Rightarrow> exn + ParsedQuery" where
  "parseDelete sql =
     (case exec (seqs [lit_i ''DELETE FROM'', one_or_more is_space, Group 1 (one_or_more is_word),
                       opt (seqs [one_or_more is_space, lit_i ''WHERE'', one_or_more is_space, Group 2 (one_or_more is_dot)]),
                       Eos]) sql of
        None \<Rightarrow> Inl (Error ''Invalid DELETE syntax'')
      | Some m \<Rightarrow>
          (case m_groups m 2 of
             None \<Rightarrow> Inr (DELETE (group_text m 1) None)
           | Some whereClause \<Rightarrow>
               if whereClause = [] then Inr (DELETE (group_text m 1) None)
               else (case parseWhere whereClause of
                       Inl e \<Rightarrow> Inl e
                     | Inr whr \<Rightarrow> Inr (DELETE (group_text m 1) (Some whr)))))"

definition parseDescribe :: "string \<Rightarrow> exn + ParsedQuery" where
  "parseDescribe sql =
     (case exec (seqs [Alt (lit_i ''DESCRIBE'') (lit_i ''DESC''), one_or_more is_space, Group 1 (one_or_more is_word)]) sql of
        None \<Rightarrow> Inl (Error ''Invalid DESCRIBE syntax'')
      | Some m \<Rightarrow> Inr (DESCRIBE (group_text m 1)))"

definition parse :: "string \<Rightarrow> exn + ParsedQuery" where
  "parse sql =
     (let trimmed = strip_semicolon (trim sql);
          upperSQL = toUpperCase trimmed
      in if startsWith upperSQL ''CREATE TABLE'' then parseCreateTable trimmed
         else if startsWith upperSQL ''DROP TABLE'' then parseDropTable trimmed
         else if startsWith upperSQL ''INSERT INTO'' then parseInsert trimmed
         else if startsWith upperSQL ''SELECT'' then parseSelect trimmed
         else if startsWith upperSQL ''UPDATE'' then parseUpdate trimmed
         else if startsWith upperSQL ''DELETE FROM'' then parseDelete trimmed
         else if upperSQL = ''SHOW TABLES'' then Inr SHOW_TABLES
         else if startsWith upperSQL ''DESCRIBE'' \<or> startsWith upperSQL ''DESC'' then parseDescribe trimmed
         else Inl (Error (''Unsupported query: '' @ sql)))"

section \<open>The facade (RDBMS.ts)\<close>

text \<open>
  \<open>query\<close> is \<open>RDBMS.query\<close>: the \<open>try\<close> around the parser and the executor, and the
  \<open>catch\<close> that turns the exception into a result.  The parser changes nothing, and
  \<open>execute\<close> has caught what the executor threw, so the database at the \<open>catch\<close> is
  the one before the call.
\<close>

definition query :: "Database \<Rightarrow> string \<Rightarrow> exn + (QueryResult \<times> Database)" where
  "query db sql =
     try_catch (case parse sql of Inl e \<Rightarrow> Inl e | Inr parsed \<Rightarrow> execute db parsed)
       (\<lambda>error. Inr (failed (message error), db))"

section \<open>Sequences of table operations, invariants and examples\<close>

text \<open>
  \<open>Op\<close> and \<open>apply_op\<close> name the three mutating operations of a table, so that a state
  reached by any sequence of them is \<open>foldl apply_op (new_Table s) ops\<close>.

  \<open>proper\<close> are the strings, numbers and booleans, and \<open>held\<close> says that a value read
  from a row is one of them.  \<open>runs_setter row k\<close> says that the assignment \<open>row[k] = v\<close>
  runs the setter of \<open>__proto__\<close>.  \<open>positions\<close> are the positions of the rows that
  hold a value in a column.  \<open>index_sync\<close> says that every index lists, under every
  proper value, the positions of all the rows that hold it, and for a column other than
  \<open>__proto__\<close> only these, each once.  (An update of an inherited \<open>__proto__\<close> files the
  new value in the index while the assignment leaves the row without it.)  \<open>table_inv\<close>
  adds that the column names are distinct and that the indexed columns are those that
  have an index.  \<open>rows_typed\<close> says that every proper value a row holds for a column is
  of the type of the column, and \<open>uniqueness\<close> that no primary-key or unique column holds
  a proper value twice.

  \<open>answer\<close> and \<open>database_after\<close> are the result and the database that a call of
  \<open>query\<close> returns, and \<open>run_script\<close> runs statements one after the other on the empty database.
  The definitions named \<open>ex_...\<close> are the tables, rows and databases of the examples.
\<close>

definition proper :: "jsval \<Rightarrow> bool" where
  "proper v = (v \<noteq> JNull \<and> v \<noteq> JUndefined)"

definition held :: "jsany \<Rightarrow> bool" where
  "held a = (case a of Prim v \<Rightarrow> proper v | Function f \<Rightarrow> False | ObjectPrototype \<Rightarrow> False)"

definition runs_setter :: "Row \<Rightarrow> string \<Rightarrow> bool" where
  "runs_setter row k = (k = ''__proto__'' \<and> \<not> owns row k \<and> \<not> proto_null row)"

definition positions :: "Row list \<Rightarrow> string \<Rightarrow> jsval \<Rightarrow> nat set" where
  "positions rs c v = {i. i < length rs \<and> row_get (rs ! i) c = Prim v}"

definition index_sync :: "Row list \<Rightarrow> (string \<rightharpoonup> Index) \<Rightarrow> bool" where
  "index_sync rs ixs =
     (\<forall>c ix v. ixs c = Some ix \<longrightarrow> proper v \<longrightarrow>
        positions rs c v \<subseteq> set (index_find ix (Prim v)) \<and>
        (c \<noteq> ''__proto__'' \<longrightarrow>
           distinct (index_find ix (Prim v)) \<and> set (index_find ix (Prim v)) \<subseteq> positions rs c v))"

definition indexed_names :: "TableSchema \<Rightarrow> string set" where
  "indexed_names s = col_name ` {c \<in> set (columns s). indexed c}"

definition table_inv :: "Table \<Rightarrow> bool" where
  "table_inv t =
     (distinct (map col_name (columns (schema t))) \<and>
      dom (indexes t) = indexed_names (schema t) \<and>
      index_sync (rows t) (indexes t))"

datatype Op = Insert Row | Update Row "Row \<Rightarrow> bool" | Delete "Row \<Rightarrow> bool"

fun apply_op :: "Table \<Rightarrow> Op \<Rightarrow> Table" where
  "apply_op t (Insert row) = snd (insert_row t row)"
| "apply_op t (Update updates predicate) = snd (update t updates predicate)"
| "apply_op t (Delete predicate) = snd (delete t predicate)"

definition dup_error :: "ColumnDefinition \<Rightarrow> string" where
  "dup_error col = ''Duplicate value for '' @ (if col_primaryKey col then ''primary key'' else ''unique'')
                  @ '' column '' @ col_name col"

definition null_error :: "ColumnDefinition \<Rightarrow> string" where
  "null_error col = ''Column '' @ col_name col @ '' cannot be null''"

definition type_error :: "ColumnDefinition \<Rightarrow> string" where
  "type_error col = ''Invalid type for column '' @ col_name col"

definition row_typed :: "TableSchema \<Rightarrow> Row \<Rightarrow> bool" where
  "row_typed s r =
     (\<forall>c \<in> set (columns s). held (row_get r (col_name c)) \<longrightarrow>
        validateType (row_get r (col_name c)) (col_type c))"

definition rows_typed :: "Table \<Rightarrow> bool" where
  "rows_typed t = (\<forall>r \<in> set (rows t). row_typed (schema t) r)"

definition unique_column :: "Row list \<Rightarrow> string \<Rightarrow> bool" where
  "unique_column rs c = distinct (filter held (map (\<lambda>r. row_get r c) rs))"

definition uniqueness :: "Table \<Rightarrow> bool" where
  "uniqueness t = list_all (\<lambda>c. unique_column (rows t) (col_name c)) (filter indexed (columns (schema t)))"

definition join_matches :: "Row \<Rightarrow> string \<Rightarrow> string \<Rightarrow> Row list \<Rightarrow> Row list" where
  "join_matches leftRow lc rc rightRows =
     filter (\<lambda>r. strict_eq (row_get leftRow lc) (row_get r rc)) rightRows"

definition where_tail :: re where
  "where_tail = seqs [Star is_space, Group 3 (one_or_more is_dot)]"

definition where_ops :: re where
  "where_ops = Alt (lit ''='') (Alt (lit ''!='') (Alt (lit ''>'') (Alt (lit ''<'') (Alt (lit ''>='') (lit ''<='')))))"

definition prefix_i :: "string \<Rightarrow> string \<Rightarrow> bool" where
  "prefix_i p s = (length p \<le> length s \<and> toUpperCase (take (length p) s) = toUpperCase p)"

definition equal_i :: "string \<Rightarrow> string \<Rightarrow> bool" where
  "equal_i p s = (toUpperCase s = toUpperCase p)"

definition reports :: "QueryResult \<Rightarrow> bool" where
  "reports r = (if qr_success r then qr_error r = None
                else (case qr_error r of None \<Rightarrow> False | Some msg \<Rightarrow> msg \<noteq> []))"

definition answer :: "exn + (QueryResult \<times> Database) \<Rightarrow> exn + QueryResult" where
  "answer r = (case r of Inl e \<Rightarrow> Inl e | Inr (res, db) \<Rightarrow> Inr res)"

definition database_after :: "Database \<Rightarrow> string \<Rightarrow> Database" where
  "database_after db sql = (case query db sql of Inl e \<Rightarrow> db | Inr (res, db') \<Rightarrow> db')"

definition run_script :: "string list \<Rightarrow> Database" where
  "run_script statements = foldl database_after [] statements"

definition ex_id :: ColumnDefinition where
  "ex_id = \<lparr>col_name = ''id'', col_type = TNumber, col_primaryKey = True, col_unique = False, col_nullable = False\<rparr>"

definition ex_name :: ColumnDefinition where
  "ex_name = \<lparr>col_name = ''name'', col_type = TString, col_primaryKey = False, col_unique = False, col_nullable = False\<rparr>"

definition ex_schema :: TableSchema where
  "ex_schema = \<lparr>schema_name = ''t'', columns = [ex_id, ex_name], schema_primaryKey = Some ''id''\<rparr>"

definition ex_schema_rev :: TableSchema where
  "ex_schema_rev = \<lparr>schema_name = ''t'', columns = [ex_name, ex_id], schema_primaryKey = Some ''id''\<rparr>"

definition ex_row :: "rat \<Rightarrow> string \<Rightarrow> Row" where
  "ex_row n s = object [(''id'', JNum (Finite n)), (''name'', JStr s)]"

definition ex_ops :: "Op list" where
  "ex_ops = [Insert (ex_row 1 ''a''), Insert (ex_row 2 ''b''), Insert (ex_row 3 ''c''),
             Delete (\<lambda>r. row_get r ''id'' = Prim (JNum (Finite 1))),
             Update (object [(''id'', JNum (Finite 7))]) (\<lambda>r. row_get r ''name'' = Prim (JStr ''c''))]"

definition ex_table :: Table where
  "ex_table = foldl apply_op (new_Table ex_schema) [Insert (ex_row 1 ''a''), Insert (ex_row 2 ''b'')]"

definition ex_unique_db :: Database where
  "ex_unique_db = run_script
     [''CREATE TABLE t (id number PRIMARY KEY, name string NOT NULL)'',
      ''INSERT INTO t (id, name) VALUES (1, a)'',
      ''INSERT INTO t (id, name) VALUES (2, b)'']"

definition ex_library_db :: Database where
  "ex_library_db = run_script
     [''CREATE TABLE books (id number PRIMARY KEY, author_id number, title string)'',
      ''CREATE TABLE authors (id number PRIMARY KEY, name string)'',
      ''INSERT INTO books (id, author_id, title) VALUES (1, 1, Emma)'']"

definition ex_age_db :: Database where
  "ex_age_db = run_script [''CREATE TABLE t (age number)'', ''INSERT INTO t (age) VALUES (5)'']"

definition ex_method_db :: Database where
  "ex_method_db = run_script
     [''CREATE TABLE t (hasOwnProperty string)'', ''INSERT INTO t (hasOwnProperty) VALUES (x)'']"

definition ex_books :: "Row list" where
  "ex_books = [object [(''id'', JNum (Finite 1)), (''author_id'', JNum (Finite 1)), (''title'', JStr ''Emma'')]]"

definition ex_authors :: "Row list" where
  "ex_authors = [object [(''id'', JNum (Finite 2)), (''name'', JStr ''Jane Austen'')]]"

definition ex_join :: "JoinType \<Rightarrow> JoinClause" where
  "ex_join ty = \<lparr>join_type = ty, join_table = ''authors'',
                 on_leftColumn = ''books.author_id'', on_rightColumn = ''authors.id''\<rparr>"

definition ex_db :: Database where
  "ex_db = [(''t'', ex_table)]"

definition ex_twice :: TableSchema where
  "ex_twice = \<lparr>schema_name = ''t'',
               columns = [\<lparr>col_name = ''a'', col_type = TString, col_primaryKey = False, col_unique = False, col_nullable = True\<rparr>,
                          \<lparr>col_name = ''a'', col_type = TNumber, col_primaryKey = False, col_unique = True, col_nullable = True\<rparr>],
               schema_primaryKey = None\<rparr>"

definition ex_twice_db :: Database where
  "ex_twice_db = run_script
     [''CREATE TABLE t (a string, a number UNIQUE)'', ''INSERT INTO t (b) VALUES (1)'',
      ''UPDATE t SET a = x'']"

definition ex_proto :: TableSchema where
  "ex_proto = \<lparr>schema_name = ''t'',
               columns = [\<lparr>col_name = ''__proto__'', col_type = TString, col_primaryKey = False, col_unique = True, col_nullable = True\<rparr>],
               schema_primaryKey = None\<rparr>"

definition ex_key :: TableSchema where
  "ex_key = \<lparr>schema_name = ''t'', columns = [ex_id], schema_primaryKey = Some ''id''\<rparr>"

section \<open>Reading and writing the properties of a row\<close>

lemma map_of_replace_property:
  "map_of (replace_property ps k v) k' = (if k' = k \<and> map_of ps k \<noteq> None then Some v else map_of ps k')"
  by (induction ps) (auto simp: replace_property_def)

lemma map_of_add_property:
  "map_of ps k = None \<Longrightarrow> map_of (add_property ps k v) k' = (if k' = k then Some v else map_of ps k')"
  by (induction ps) (auto split: if_splits)

lemma row_set_setter:
  "runs_setter row k \<Longrightarrow> row_set row k v = (if v = JNull then row\<lparr>proto_null := True\<rparr> else row)"
  by (auto simp: runs_setter_def row_set_def)

lemma row_get_row_set:
  "\<not> runs_setter row k \<Longrightarrow> row_get (row_set row k v) k' = (if k' = k then Prim v else row_get row k')"
  by (auto simp: runs_setter_def row_set_def row_get_def owns_def map_of_replace_property
      map_of_add_property split: option.splits)

lemma owns_row_set:
  "owns (row_set row k v) k' = (owns row k' \<or> (k' = k \<and> \<not> runs_setter row k))"
  by (auto simp: runs_setter_def row_set_def owns_def map_of_replace_property map_of_add_property)

lemma proto_null_row_set:
  "proto_null (row_set row k v) = (proto_null row \<or> (runs_setter row k \<and> v = JNull))"
  by (auto simp: runs_setter_def row_set_def)

lemma object_prototype_not_held: "\<not> held (object_prototype k)"
  by (simp add: object_prototype_def held_def proper_def)

lemma held_owns: "held (row_get row k) \<Longrightarrow> owns row k"
  using object_prototype_not_held[of k]
  by (auto simp: row_get_def owns_def held_def proper_def split: option.splits if_splits)

lemma held_Prim: "held a = (\<exists>v. a = Prim v \<and> proper v)"
  by (cases a) (simp_all add: held_def)

lemma row_get_owned: "owns row k \<Longrightarrow> row_get (row\<lparr>proto_null := b\<rparr>) k = row_get row k"
  by (auto simp: row_get_def owns_def split: option.splits)

lemma row_get_unowned_null: "\<not> owns row k \<Longrightarrow> row_get (row\<lparr>proto_null := True\<rparr>) k = Prim JUndefined"
  by (auto simp: row_get_def owns_def split: option.splits)

lemma row_set_other_owned:
  "k' \<noteq> k \<Longrightarrow> owns row k' \<Longrightarrow> row_get (row_set row k v) k' = row_get row k'"
  by (cases "runs_setter row k") (simp_all add: row_set_setter row_get_row_set row_get_owned)

lemma row_set_other_held:
  assumes "k' \<noteq> k" and "proper w"
  shows "(row_get (row_set row k v) k' = Prim w) = (row_get row k' = Prim w)"
proof (cases "owns row k'")
  case True
  with assms(1) show ?thesis by (simp add: row_set_other_owned)
next
  case False
  then have a: "row_get row k' \<noteq> Prim w"
    using held_owns[of row k'] assms(2) by (auto simp: held_Prim)
  from False assms(1) have "\<not> owns (row_set row k v) k'" by (simp add: owns_row_set)
  then have "row_get (row_set row k v) k' \<noteq> Prim w"
    using held_owns[of "row_set row k v" k'] assms(2) by (auto simp: held_Prim)
  with a show ?thesis by simp
qed

lemma row_set_same_held:
  assumes "proper w"
  shows "(row_get (row_set row k v) k = Prim w) = (\<not> runs_setter row k \<and> v = w)"
proof (cases "runs_setter row k")
  case True
  then have "\<not> owns (row_set row k v) k" by (auto simp: owns_row_set runs_setter_def)
  then have "row_get (row_set row k v) k \<noteq> Prim w"
    using held_owns[of "row_set row k v" k] assms by (auto simp: held_Prim)
  with True show ?thesis by simp
next
  case False
  then show ?thesis by (simp add: row_get_row_set)
qed

lemma strict_eq_Prim: "v \<noteq> JNum NaN \<Longrightarrow> strict_eq a (Prim v) = (a = Prim v)"
  by (auto simp: strict_eq_def)

lemma validateType_held: "validateType a ty \<Longrightarrow> held a \<and> a = Prim (primitive a)"
  by (cases a; cases ty)
     (auto simp: validateType_def typeof_def held_def proper_def primitive_def split: jsval.splits)

section \<open>The indexes agree with the rows\<close>

lemma index_find_add:
  "index_find (index_add ix v i) w =
     (if v \<noteq> Prim JNull \<and> w = v then index_find ix v @ [i] else index_find ix w)"
  by (auto simp: index_find_def index_add_def split: option.splits)

lemma index_find_remove:
  "index_find (index_remove ix v i) w =
     (if v \<noteq> Prim JNull \<and> w = v then filter (\<lambda>idx. idx \<noteq> i) (index_find ix v) else index_find ix w)"
  by (auto simp: index_find_def index_remove_def Let_def split: option.splits)

lemma index_row_apply:
  "distinct (map col_name cols) \<Longrightarrow>
   index_row cols row i ixs k =
     (case ixs k of
        None \<Rightarrow> None
      | Some ix \<Rightarrow>
          if (\<exists>c \<in> set cols. col_name c = k \<and> indexed c) \<and> row_get row k \<noteq> Prim JNull
          then Some (index_add ix (row_get row k) i) else Some ix)"
proof (induction cols arbitrary: ixs)
  case Nil
  then show ?case by (simp add: index_row_def split: option.splits)
next
  case (Cons col cols)
  have step: "index_row (col # cols) row i ixs =
     index_row cols row i
       (if indexed col then
               (case ixs (col_name col) of
                  None \<Rightarrow> ixs
                | Some index \<Rightarrow>
                    if row_get row (col_name col) \<noteq> Prim JNull
                    then ixs(col_name col \<mapsto> index_add index (row_get row (col_name col)) i)
                    else ixs)
             else ixs)"
    by (simp add: index_row_def)
  from Cons.prems have d: "distinct (map col_name cols)" and nin: "\<And>c. c \<in> set cols \<Longrightarrow> col_name c \<noteq> col_name col"
    by (force simp: image_iff)+
  show ?case
    unfolding step using nin
    by (auto simp: Cons.IH[OF d] split: option.splits)
qed

lemma index_row_dom: "dom (index_row cols row i ixs) = dom ixs"
proof (induction cols arbitrary: ixs)
  case Nil
  then show ?case by (simp add: index_row_def)
next
  case (Cons col cols)
  have step: "index_row (col # cols) row i ixs =
     index_row cols row i
       (if indexed col then
               (case ixs (col_name col) of
                  None \<Rightarrow> ixs
                | Some index \<Rightarrow>
                    if row_get row (col_name col) \<noteq> Prim JNull
                    then ixs(col_name col \<mapsto> index_add index (row_get row (col_name col)) i)
                    else ixs)
             else ixs)"
    by (simp add: index_row_def)
  show ?case unfolding step by (auto simp: Cons.IH split: option.splits if_splits)
qed

lemma positions_append:
  "positions (rs @ [r]) c v = positions rs c v \<union> (if row_get r c = Prim v then {length rs} else {})"
  by (auto simp: positions_def nth_append less_Suc_eq)

lemma positions_bound: "i \<in> positions rs c v \<Longrightarrow> i < length rs"
  by (simp add: positions_def)

lemma index_sync_insert:
  assumes sync: "index_sync rs ixs"
    and d: "distinct (map col_name cols)"
    and dm: "dom ixs \<subseteq> col_name ` {c \<in> set cols. indexed c}"
  shows "index_sync (rs @ [newRow]) (index_row cols newRow (length rs) ixs)"
  unfolding index_sync_def
proof (intro allI impI)
  fix c ix' v
  assume a: "index_row cols newRow (length rs) ixs c = Some ix'" and p: "proper v"
  from a obtain ix where ix: "ixs c = Some ix"
    by (auto simp: index_row_apply[OF d] split: option.splits)
  from sync ix p have cov: "positions rs c v \<subseteq> set (index_find ix (Prim v))"
    and ex: "c \<noteq> ''__proto__'' \<Longrightarrow>
             distinct (index_find ix (Prim v)) \<and> set (index_find ix (Prim v)) \<subseteq> positions rs c v"
    by (auto simp: index_sync_def)
  from ix dm have exc: "\<exists>ca \<in> set cols. col_name ca = c \<and> indexed ca"
    by (auto simp: dom_def subset_iff image_iff)
  have ix': "ix' = (if row_get newRow c \<noteq> Prim JNull then index_add ix (row_get newRow c) (length rs) else ix)"
    using a ix exc by (simp add: index_row_apply[OF d] split: if_splits)
  have fnd: "index_find ix' (Prim v) =
      (if row_get newRow c = Prim v then index_find ix (Prim v) @ [length rs] else index_find ix (Prim v))"
    using p by (auto simp: ix' index_find_add proper_def)
  have one: "positions (rs @ [newRow]) c v \<subseteq> set (index_find ix' (Prim v))"
    unfolding positions_append fnd using cov by auto
  have two: "distinct (index_find ix' (Prim v)) \<and> set (index_find ix' (Prim v)) \<subseteq> positions (rs @ [newRow]) c v"
    if "c \<noteq> ''__proto__''"
  proof -
    from ex[OF that] have dist: "distinct (index_find ix (Prim v))"
      and sub: "set (index_find ix (Prim v)) \<subseteq> positions rs c v" by simp_all
    from sub have nin: "length rs \<notin> set (index_find ix (Prim v))"
      using positions_bound[of "length rs" rs c v] by auto
    show ?thesis
      unfolding positions_append fnd using dist sub nin by auto
  qed
  from one two
  show "positions (rs @ [newRow]) c v \<subseteq> set (index_find ix' (Prim v)) \<and>
        (c \<noteq> ''__proto__'' \<longrightarrow>
           distinct (index_find ix' (Prim v)) \<and>
           set (index_find ix' (Prim v)) \<subseteq> positions (rs @ [newRow]) c v)"
    by blast
qed

lemma positions_update_other:
  assumes "idx < length rs" and "c \<noteq> key" and "proper w"
  shows "positions (rs[idx := row_set row key v]) c w = positions (rs[idx := row]) c w"
  using assms by (auto simp: positions_def nth_list_update row_set_other_held)

lemma positions_update_same:
  assumes "idx < length rs" and "proper w"
  shows "positions (rs[idx := row_set row key v]) key w =
           (if \<not> runs_setter row key \<and> w = v
            then Set.insert idx (positions (rs[idx := row]) key w)
            else positions (rs[idx := row]) key w - {idx})"
  using assms by (auto simp: positions_def nth_list_update row_set_same_held)

lemma positions_update_mem:
  "idx < length rs \<Longrightarrow> (idx \<in> positions (rs[idx := row]) c w) = (row_get row c = Prim w)"
  by (simp add: positions_def)

lemma update_entry_sync:
  assumes sync: "index_sync (rs[idx := row]) ixs"
    and idx: "idx < length rs"
    and d: "distinct (map col_name (columns s))"
    and dm: "dom ixs = indexed_names s"
    and step: "update_entry s idx kv (row, ixs) = (row', ixs')"
  shows "index_sync (rs[idx := row']) ixs' \<and> dom ixs' = dom ixs"
proof -
  obtain key v where kv: "kv = (key, v)" by (cases kv)
  show ?thesis
  proof (cases "find (\<lambda>c. col_name c = key) (columns s)")
    case None
    with step kv sync show ?thesis by (simp add: update_entry_def)
  next
    case (Some col)
    then have colin: "col \<in> set (columns s)" and cn: "col_name col = key"
      by (auto simp: find_Some_iff)
    show ?thesis
    proof (cases "v = JUndefined \<or> (v \<noteq> JNull \<and> \<not> validateType (Prim v) (col_type col))")
      case True
      with step kv Some have "row' = row \<and> ixs' = ixs"
        by (auto simp: update_entry_def split: if_splits)
      with sync show ?thesis by simp
    next
      case False
      then have row': "row' = row_set row key v"
        using step kv Some by (auto simp: update_entry_def Let_def)
      let ?old = "row_get row key"
      show ?thesis
      proof (cases "indexed col \<and> \<not> strict_eq (Prim v) ?old \<and> ixs key \<noteq> None")
        case True
        then obtain index where index: "ixs key = Some index" by auto
        have ixs': "ixs' = ixs(key \<mapsto> index_add (index_remove index ?old idx) (Prim v) idx)"
          using step kv Some False True index by (auto simp: update_entry_def Let_def indexed_def)
        have dom': "dom ixs' = dom ixs" using index by (auto simp: ixs')
        have "index_sync (rs[idx := row']) ixs'"
          unfolding index_sync_def
        proof (intro allI impI)
          fix c ix w
          assume a: "ixs' c = Some ix" and p: "proper w"
          show "positions (rs[idx := row']) c w \<subseteq> set (index_find ix (Prim w)) \<and>
                (c \<noteq> ''__proto__'' \<longrightarrow>
                   distinct (index_find ix (Prim w)) \<and>
                   set (index_find ix (Prim w)) \<subseteq> positions (rs[idx := row']) c w)"
          proof (cases "c = key")
            case neq: False
            then have "ixs c = Some ix" using a by (simp add: ixs')
            with sync p show ?thesis
              unfolding row' positions_update_other[OF idx neq p]
              by (simp add: index_sync_def)
          next
            case eq: True
            then have ix: "ix = index_add (index_remove index ?old idx) (Prim v) idx"
              using a by (simp add: ixs')
            define S where "S = positions (rs[idx := row]) key w"
            define L where "L = index_find index (Prim w)"
            from sync index p have cov: "S \<subseteq> set L"
              and ex: "key \<noteq> ''__proto__'' \<Longrightarrow> distinct L \<and> set L \<subseteq> S"
              by (auto simp: index_sync_def S_def L_def)
            have mem: "idx \<in> S \<longleftrightarrow> ?old = Prim w"
              using idx by (simp add: S_def positions_update_mem)
            have fnd: "index_find ix (Prim w) =
                (if w = v then (if ?old = Prim w then filter (\<lambda>i. i \<noteq> idx) L else L) @ [idx]
                 else if ?old = Prim w then filter (\<lambda>i. i \<noteq> idx) L
                 else L)"
              using p by (auto simp: ix index_find_add index_find_remove proper_def L_def)
            have tgt: "positions (rs[idx := row']) c w =
                (if \<not> runs_setter row key \<and> w = v then Set.insert idx S else S - {idx})"
              unfolding eq row' S_def by (rule positions_update_same[OF idx p])
            have one: "positions (rs[idx := row']) c w \<subseteq> set (index_find ix (Prim w))"
              unfolding tgt fnd using cov by auto
            have two: "distinct (index_find ix (Prim w)) \<and>
                       set (index_find ix (Prim w)) \<subseteq> positions (rs[idx := row']) c w"
              if np: "c \<noteq> ''__proto__''"
            proof -
              from np eq have ns: "\<not> runs_setter row key" by (simp add: runs_setter_def)
              from ex np eq have dist: "distinct L" and sub: "set L \<subseteq> S" by simp_all
              consider (a) "w = v" "?old = Prim w" | (b) "w = v" "?old \<noteq> Prim w"
                | (c) "w \<noteq> v" "?old = Prim w" | (e) "w \<noteq> v" "?old \<noteq> Prim w"
                by blast
              then show ?thesis
              proof cases
                case a
                with ns dist sub show ?thesis unfolding tgt fnd by auto
              next
                case b
                with mem have "idx \<notin> S" by simp
                with sub have "idx \<notin> set L" by blast
                with b ns dist sub show ?thesis unfolding tgt fnd by auto
              next
                case c
                with ns dist sub show ?thesis unfolding tgt fnd by auto
              next
                case e
                with mem have "idx \<notin> S" by simp
                with e ns dist sub show ?thesis unfolding tgt fnd by auto
              qed
            qed
            from one two show ?thesis by blast
          qed
        qed
        with dom' show ?thesis by simp
      next
        case nochange: False
        have ixs': "ixs' = ixs"
          using step kv Some False nochange by (auto simp: update_entry_def Let_def indexed_def split: option.splits)
        have "index_sync (rs[idx := row']) ixs"
          unfolding index_sync_def
        proof (intro allI impI)
          fix c ix w
          assume a: "ixs c = Some ix" and p: "proper w"
          have same: "positions (rs[idx := row']) c w = positions (rs[idx := row]) c w"
          proof (cases "c = key")
            case True
            with a have "ixs key \<noteq> None" by simp
            moreover have "indexed col"
            proof -
              from a True dm obtain col' where c': "col' \<in> set (columns s)" "indexed col'" "col_name col' = key"
                by (auto simp: indexed_names_def dom_def set_eq_iff image_iff) metis
              with d colin cn have "col' = col"
                by (auto simp: distinct_map inj_on_def)
              with c' show ?thesis by simp
            qed
            ultimately have se: "strict_eq (Prim v) ?old" using nochange by simp
            then have old: "?old = Prim v" by (simp add: strict_eq_def)
            from False have "v \<noteq> JUndefined" by simp
            have "owns row key"
            proof (cases "v = JNull")
              case True
              with old show ?thesis
                by (auto simp: row_get_def owns_def object_prototype_def split: option.splits if_splits)
            next
              case nn: False
              with \<open>v \<noteq> JUndefined\<close> old have "held (row_get row key)" by (simp add: held_def proper_def)
              then show ?thesis by (rule held_owns)
            qed
            then have ns: "\<not> runs_setter row key" by (simp add: runs_setter_def)
            have "row_get row' k = row_get row k" for k
              using old by (simp add: row' row_get_row_set[OF ns])
            then show ?thesis
              using idx by (auto simp: positions_def nth_list_update)
          next
            case False
            then show ?thesis unfolding row' by (rule positions_update_other[OF idx _ p])
          qed
          from sync a p show "positions (rs[idx := row']) c w \<subseteq> set (index_find ix (Prim w)) \<and>
                (c \<noteq> ''__proto__'' \<longrightarrow>
                   distinct (index_find ix (Prim w)) \<and>
                   set (index_find ix (Prim w)) \<subseteq> positions (rs[idx := row']) c w)"
            unfolding same by (simp add: index_sync_def)
        qed
        then show ?thesis by (simp add: ixs')
      qed
    qed
  qed
qed

lemma fold_update_entry_sync:
  assumes "index_sync (rs[idx := row]) ixs"
    and "idx < length rs"
    and "distinct (map col_name (columns s))"
    and "dom ixs = indexed_names s"
    and "fold (update_entry s idx) us (row, ixs) = (row', ixs')"
  shows "index_sync (rs[idx := row']) ixs' \<and> dom ixs' = indexed_names s"
  using assms
proof (induction us arbitrary: row ixs)
  case Nil
  then show ?case by simp
next
  case (Cons kv us)
  obtain row1 ixs1 where st: "update_entry s idx kv (row, ixs) = (row1, ixs1)"
    by (cases "update_entry s idx kv (row, ixs)")
  from update_entry_sync[OF Cons.prems(1) Cons.prems(2) Cons.prems(3) Cons.prems(4) st]
  have s1: "index_sync (rs[idx := row1]) ixs1" and d1: "dom ixs1 = indexed_names s"
    using Cons.prems(4) by simp_all
  from Cons.prems(5) st have "fold (update_entry s idx) us (row1, ixs1) = (row', ixs')"
    by simp
  from Cons.IH[OF s1 Cons.prems(2) Cons.prems(3) d1 this] show ?case .
qed

lemma update_row_inv:
  assumes inv: "table_inv t" and idx: "idx < length (rows t)"
  shows "table_inv (snd (update_row u p idx (n, t))) \<and>
         length (rows (snd (update_row u p idx (n, t)))) = length (rows t) \<and>
         schema (snd (update_row u p idx (n, t))) = schema t"
proof (cases "p (rows t ! idx)")
  case False
  with inv show ?thesis by (simp add: update_row_def)
next
  case True
  obtain row' ixs' where f: "fold (update_entry (schema t) idx) (props u) (rows t ! idx, indexes t) = (row', ixs')"
    by (cases "fold (update_entry (schema t) idx) (props u) (rows t ! idx, indexes t)")
  have r: "snd (update_row u p idx (n, t)) = t\<lparr>rows := (rows t)[idx := row'], indexes := ixs'\<rparr>"
    using True f by (simp add: update_row_def)
  from inv have s0: "index_sync ((rows t)[idx := rows t ! idx]) (indexes t)"
    and d: "distinct (map col_name (columns (schema t)))"
    and dm: "dom (indexes t) = indexed_names (schema t)"
    by (simp_all add: table_inv_def)
  from fold_update_entry_sync[OF s0 idx d dm f] d
  show ?thesis unfolding r by (simp add: table_inv_def)
qed

lemma fold_update_row_inv:
  assumes "table_inv t" and "\<forall>i \<in> set is. i < length (rows t)"
  shows "table_inv (snd (fold (update_row u p) is (n, t))) \<and>
         length (rows (snd (fold (update_row u p) is (n, t)))) = length (rows t) \<and>
         schema (snd (fold (update_row u p) is (n, t))) = schema t"
  using assms
proof (induction "is" arbitrary: n t)
  case Nil
  then show ?case by simp
next
  case (Cons i "is")
  obtain n1 t1 where st: "update_row u p i (n, t) = (n1, t1)"
    by (cases "update_row u p i (n, t)")
  from Cons.prems have "i < length (rows t)" by simp
  from update_row_inv[OF Cons.prems(1) this, of u p n] st
  have i1: "table_inv t1" and l1: "length (rows t1) = length (rows t)" and s1: "schema t1 = schema t"
    by simp_all
  from Cons.prems(2) l1 have "\<forall>i \<in> set is. i < length (rows t1)" by simp
  from Cons.IH[OF i1 this, of n1] st l1 s1 show ?case by simp
qed

lemma update_inv:
  "table_inv t \<Longrightarrow> table_inv (snd (update t u p)) \<and> schema (snd (update t u p)) = schema t
     \<and> length (rows (snd (update t u p))) = length (rows t)"
  using fold_update_row_inv[of t "[0..<length (rows t)]" u p 0]
  by (simp add: update_def)

lemma insert_row_inv:
  assumes "table_inv t"
  shows "table_inv (snd (insert_row t row)) \<and> schema (snd (insert_row t row)) = schema t"
proof (cases "insert_cols t row (columns (schema t)) (object [])")
  case (Inl e)
  with assms show ?thesis by (simp add: insert_row_def)
next
  case (Inr newRow)
  from assms have "index_sync (rows t) (indexes t)"
    and d: "distinct (map col_name (columns (schema t)))"
    and dm: "dom (indexes t) = indexed_names (schema t)"
    by (simp_all add: table_inv_def)
  then have "index_sync (rows t @ [newRow]) (index_row (columns (schema t)) newRow (length (rows t)) (indexes t))"
    by (intro index_sync_insert) (auto simp: indexed_names_def)
  with d dm Inr show ?thesis
    by (simp add: insert_row_def table_inv_def index_row_dom Let_def)
qed

lemma new_Table_dom:
  "dom (fold (\<lambda>col m. if indexed col then m(col_name col \<mapsto> e) else m) cols m0) =
     dom m0 \<union> col_name ` {c \<in> set cols. indexed c}"
  by (induction cols arbitrary: m0) auto

lemma new_Table_val:
  "fold (\<lambda>col m. if indexed col then m(col_name col \<mapsto> e) else m) cols m0 c = Some ix \<Longrightarrow>
   ix = e \<or> m0 c = Some ix"
proof (induction cols arbitrary: m0)
  case Nil
  then show ?case by simp
next
  case (Cons a cols)
  from Cons.prems
  have "fold (\<lambda>col m. if indexed col then m(col_name col \<mapsto> e) else m) cols
          (if indexed a then m0(col_name a \<mapsto> e) else m0) c = Some ix"
    by simp
  from Cons.IH[OF this] show ?case by (auto split: if_splits)
qed

lemma new_Table_inv:
  "distinct (map col_name (columns s)) \<Longrightarrow> table_inv (new_Table s)"
  by (auto simp: table_inv_def new_Table_def new_Table_dom indexed_names_def index_sync_def
        index_find_def positions_def dest!: new_Table_val)

lemma unindex_row_dom: "dom (unindex_row cols row i ixs) = dom ixs"
proof (induction cols arbitrary: ixs)
  case Nil
  then show ?case by (simp add: unindex_row_def)
next
  case (Cons col cols)
  have step: "unindex_row (col # cols) row i ixs =
     unindex_row cols row i
       (if indexed col then
          (case ixs (col_name col) of
             None \<Rightarrow> ixs
           | Some index \<Rightarrow> ixs(col_name col \<mapsto> index_remove index (row_get row (col_name col)) i))
        else ixs)"
    by (simp add: unindex_row_def)
  show ?case unfolding step by (auto simp: Cons.IH split: option.splits if_splits)
qed

lemma fold_delete_at:
  "rows (fold delete_at is t) = fold splice1 is (rows t) \<and>
   schema (fold delete_at is t) = schema t \<and>
   dom (indexes (fold delete_at is t)) = dom (indexes t)"
  by (induction "is" arbitrary: t) (simp_all add: delete_at_def unindex_row_dom)

lemma splice1_append: "i < length xs \<Longrightarrow> splice1 i (xs @ ys) = splice1 i xs @ ys"
  by (simp add: splice1_def)

lemma length_splice1: "i < length xs \<Longrightarrow> length (splice1 i xs) = length xs - 1"
  by (simp add: splice1_def)

lemma fold_splice1_append:
  "sorted_wrt (>) is \<Longrightarrow> \<forall>i \<in> set is. i < length xs \<Longrightarrow>
   fold splice1 is (xs @ ys) = fold splice1 is xs @ ys"
proof (induction "is" arbitrary: xs)
  case Nil
  then show ?case by simp
next
  case (Cons i "is")
  from Cons.prems have i: "i < length xs" and s: "sorted_wrt (>) is" and lt: "\<forall>j \<in> set is. j < i"
    by auto
  from lt i have "\<forall>j \<in> set is. j < length (splice1 i xs)"
    by (auto simp: length_splice1)
  from Cons.IH[OF s this] i show ?case by (simp add: splice1_append)
qed

lemma toDelete_snoc:
  "filter (\<lambda>i. p ((xs @ [x]) ! i)) [0..<length (xs @ [x])] =
   filter (\<lambda>i. p (xs ! i)) [0..<length xs] @ (if p x then [length xs] else [])"
  by (auto simp: nth_append intro: filter_cong)

lemma sorted_toDelete: "sorted_wrt (>) (rev (filter q [0..<n]))"
proof -
  have "sorted_wrt (<) (filter q [0..<n])"
    by (intro sorted_wrt_filter) simp
  then show ?thesis
    by (simp add: sorted_wrt_rev conversep_iff[abs_def])
qed

lemma fold_splice1_filter:
  "fold splice1 (rev (filter (\<lambda>i. p (xs ! i)) [0..<length xs])) xs = filter (\<lambda>x. \<not> p x) xs"
proof (induction xs rule: rev_induct)
  case Nil
  then show ?case by simp
next
  case (snoc x xs)
  let ?td = "filter (\<lambda>i. p (xs ! i)) [0..<length xs]"
  have bound: "\<forall>i \<in> set (rev ?td). i < length xs" by auto
  show ?case
  proof (cases "p x")
    case True
    have "splice1 (length xs) (xs @ [x]) = xs" by (simp add: splice1_def)
    with True snoc show ?thesis unfolding toDelete_snoc by simp
  next
    case False
    with snoc fold_splice1_append[OF sorted_toDelete bound, of "[x]"]
    show ?thesis unfolding toDelete_snoc by simp
  qed
qed

lemma rebuild_fold_snoc:
  "fold (\<lambda>(idx, row) ixs. index_row cols row idx ixs) (enumerate 0 (rs @ [r])) ixs0 =
   index_row cols r (length rs) (fold (\<lambda>(idx, row) ixs. index_row cols row idx ixs) (enumerate 0 rs) ixs0)"
  by (simp add: enumerate_append_eq)

lemma rebuild_fold_dom:
  "dom (fold (\<lambda>(idx, row) ixs. index_row cols row idx ixs) es ixs0) = dom ixs0"
proof (induction es arbitrary: ixs0)
  case Nil
  then show ?case by simp
next
  case (Cons a es)
  obtain i r where a: "a = (i, r)" by (cases a)
  show ?case by (simp add: a Cons.IH index_row_dom)
qed

lemma rebuild_sync:
  assumes d: "distinct (map col_name cols)"
    and dm: "dom ixs0 \<subseteq> col_name ` {c \<in> set cols. indexed c}"
    and e: "\<forall>c ix. ixs0 c = Some ix \<longrightarrow> ix = Map.empty"
  shows "index_sync rs (fold (\<lambda>(idx, row) ixs. index_row cols row idx ixs) (enumerate 0 rs) ixs0)"
proof (induction rs rule: rev_induct)
  case Nil
  have "index_find ix v = []" if "ixs0 c = Some ix" for c ix v
  proof -
    from e that have "ix = Map.empty" by blast
    then show ?thesis by (simp add: index_find_def)
  qed
  then show ?case by (simp add: index_sync_def positions_def)
next
  case (snoc r rs)
  have "dom (fold (\<lambda>(idx, row) ixs. index_row cols row idx ixs) (enumerate 0 rs) ixs0)
          \<subseteq> col_name ` {c \<in> set cols. indexed c}"
    using dm by (simp add: rebuild_fold_dom)
  from index_sync_insert[OF snoc d this] show ?case
    by (simp only: rebuild_fold_snoc)
qed

lemma rebuildIndexes_inv:
  assumes "distinct (map col_name (columns (schema t)))"
    and "dom (indexes t) = indexed_names (schema t)"
  shows "table_inv (rebuildIndexes t)"
proof -
  have "dom (map_option index_clear \<circ> indexes t) = dom (indexes t)"
    by (auto simp: dom_def)
  moreover have "\<forall>c ix. (map_option index_clear \<circ> indexes t) c = Some ix \<longrightarrow> ix = Map.empty"
    by (auto simp: index_clear_def)
  ultimately show ?thesis
    using assms rebuild_sync[of "columns (schema t)" "map_option index_clear \<circ> indexes t" "rows t"]
    by (simp add: table_inv_def rebuildIndexes_def rebuild_fold_dom indexed_names_def)
qed

lemma delete_rows:
  "rows (snd (delete t p)) = filter (\<lambda>r. \<not> p r) (rows t) \<and> schema (snd (delete t p)) = schema t"
  by (simp add: delete_def Let_def rebuildIndexes_def fold_delete_at fold_splice1_filter)

lemma delete_inv:
  assumes "table_inv t"
  shows "table_inv (snd (delete t p))"
proof -
  let ?t1 = "fold delete_at (rev (filter (\<lambda>idx. p (rows t ! idx)) [0..<length (rows t)])) t"
  from assms have "distinct (map col_name (columns (schema ?t1)))"
    and "dom (indexes ?t1) = indexed_names (schema ?t1)"
    by (simp_all add: table_inv_def fold_delete_at)
  then have "table_inv (rebuildIndexes ?t1)" by (rule rebuildIndexes_inv)
  then show ?thesis by (simp add: delete_def Let_def)
qed

lemma apply_op_inv: "table_inv t \<Longrightarrow> table_inv (apply_op t op) \<and> schema (apply_op t op) = schema t"
  by (cases op) (simp_all add: insert_row_inv update_inv delete_inv delete_rows)

lemma foldl_apply_op_inv:
  "table_inv t \<Longrightarrow> table_inv (foldl apply_op t ops) \<and> schema (foldl apply_op t ops) = schema t"
proof (induction ops arbitrary: t)
  case Nil
  then show ?case by simp
next
  case (Cons op ops)
  from apply_op_inv[OF Cons.prems, of op] Cons.IH[of "apply_op t op"] show ?case by simp
qed

lemma mset_positions:
  assumes "distinct ps" and "set ps = {i. i < length rs \<and> P (rs ! i)}"
  shows "mset (map (\<lambda>i. rs ! i) ps) = mset (filter P rs)"
proof -
  have "mset ps = mset (filter (\<lambda>i. P (rs ! i)) [0..<length rs])"
    using assms by (intro set_eq_iff_mset_eq_distinct[THEN iffD1]) auto
  then have "mset (map (\<lambda>i. rs ! i) ps) = mset (map (\<lambda>i. rs ! i) (filter (\<lambda>i. P (rs ! i)) [0..<length rs]))"
    by (metis mset_map)
  also have "map (\<lambda>i. rs ! i) (filter (\<lambda>i. P (rs ! i)) [0..<length rs]) = filter P (map (\<lambda>i. rs ! i) [0..<length rs])"
    by (simp add: filter_map comp_def)
  also have "map (\<lambda>i. rs ! i) [0..<length rs] = rs"
    by (rule map_nth)
  finally show ?thesis .
qed

lemma findByIndex_inv:
  assumes inv: "table_inv t"
    and c: "c \<in> set (columns (schema t))" "indexed c" "col_name c \<noteq> ''__proto__''"
    and v: "proper v"
  shows "mset (findByIndex t (col_name c) v) =
         mset (map spread (filter (\<lambda>r. row_get r (col_name c) = Prim v) (rows t)))"
proof -
  from inv c have "col_name c \<in> dom (indexes t)"
    by (auto simp: table_inv_def indexed_names_def)
  then obtain ix where ix: "indexes t (col_name c) = Some ix" by auto
  from inv have "index_sync (rows t) (indexes t)" by (simp add: table_inv_def)
  with ix v c(3) have "distinct (index_find ix (Prim v))"
    and "positions (rows t) (col_name c) v \<subseteq> set (index_find ix (Prim v))"
    and "set (index_find ix (Prim v)) \<subseteq> positions (rows t) (col_name c) v"
    unfolding index_sync_def by blast+
  then have pos: "distinct (index_find ix (Prim v))"
    "set (index_find ix (Prim v)) = {i. i < length (rows t) \<and> row_get (rows t ! i) (col_name c) = Prim v}"
    by (auto simp: positions_def)
  have eq: "map (\<lambda>idx. if idx < length (rows t) then spread (rows t ! idx) else object []) (index_find ix (Prim v)) =
        map spread (map (\<lambda>idx. rows t ! idx) (index_find ix (Prim v)))"
    unfolding map_map by (rule map_cong) (simp_all add: pos(2))
  have "mset (map (\<lambda>idx. rows t ! idx) (index_find ix (Prim v))) =
        mset (filter (\<lambda>r. row_get r (col_name c) = Prim v) (rows t))"
    by (rule mset_positions[OF pos])
  then have "mset (map spread (map (\<lambda>idx. rows t ! idx) (index_find ix (Prim v)))) =
        mset (map spread (filter (\<lambda>r. row_get r (col_name c) = Prim v) (rows t)))"
    by (metis mset_map)
  then show ?thesis
    by (simp only: findByIndex_def ix option.case eq)
qed

lemma clear_dom_eq:
  "dom m1 = dom m2 \<Longrightarrow> map_option index_clear \<circ> m1 = map_option index_clear \<circ> m2"
proof
  fix c
  assume "dom m1 = dom m2"
  then have "(c \<in> dom m1) = (c \<in> dom m2)" by simp
  then have "(m1 c = None) = (m2 c = None)" by (simp only: domIff) blast
  then show "(map_option index_clear \<circ> m1) c = (map_option index_clear \<circ> m2) c"
    by (cases "m1 c"; cases "m2 c") (simp_all add: index_clear_def)
qed

lemma rebuildIndexes_idem: "rebuildIndexes (rebuildIndexes t) = rebuildIndexes t"
proof -
  have "dom (map_option index_clear \<circ> indexes t) = dom (indexes t)"
    by (auto simp: dom_def)
  then have "dom (indexes (rebuildIndexes t)) = dom (indexes t)"
    by (simp add: rebuildIndexes_def rebuild_fold_dom)
  from clear_dom_eq[OF this] show ?thesis
    by (simp add: rebuildIndexes_def)
qed

section \<open>What insert and update leave in a row\<close>

lemma insert_cols_append:
  "insert_cols t row (pre @ rest) acc =
     (case insert_cols t row pre acc of Inl e \<Rightarrow> Inl e | Inr acc' \<Rightarrow> insert_cols t row rest acc')"
  by (induction pre arbitrary: acc) (simp_all add: Let_def)

lemma insert_cols_step:
  assumes "insert_cols t row (col # cols) acc = Inr newRow"
  shows "insert_cols t row cols
           (row_set acc (col_name col)
              (if row_get row (col_name col) = Prim JUndefined \<or> row_get row (col_name col) = Prim JNull
               then JNull else primitive (row_get row (col_name col))))
         = Inr newRow"
    and "row_get row (col_name col) = Prim JUndefined \<or> row_get row (col_name col) = Prim JNull \<or>
         (validateType (row_get row (col_name col)) (col_type col) \<and>
          (indexed col \<longrightarrow> (\<forall>ix. indexes t (col_name col) = Some ix \<longrightarrow>
              index_find ix (row_get row (col_name col)) = [])))"
  using assms by (auto simp: Let_def indexed_def split: if_splits option.splits)

lemma insert_cols_keep_held:
  "insert_cols t row cols acc = Inr newRow \<Longrightarrow> k \<notin> col_name ` set cols \<Longrightarrow> proper w \<Longrightarrow>
   (row_get newRow k = Prim w) = (row_get acc k = Prim w)"
proof (induction cols arbitrary: acc)
  case Nil
  then show ?case by simp
next
  case (Cons col cols)
  from Cons.prems(2) have k: "k \<noteq> col_name col" "k \<notin> col_name ` set cols" by auto
  from Cons.IH[OF insert_cols_step(1)[OF Cons.prems(1)] k(2) Cons.prems(3)] k(1) Cons.prems(3)
  show ?case by (simp add: row_set_other_held)
qed

lemma insert_cols_keep_owned:
  "insert_cols t row cols acc = Inr newRow \<Longrightarrow> k \<notin> col_name ` set cols \<Longrightarrow> owns acc k \<Longrightarrow>
   owns newRow k \<and> row_get newRow k = row_get acc k"
proof (induction cols arbitrary: acc)
  case Nil
  then show ?case by simp
next
  case (Cons col cols)
  from Cons.prems(2) have k: "k \<noteq> col_name col" "k \<notin> col_name ` set cols" by auto
  let ?acc = "row_set acc (col_name col)
              (if row_get row (col_name col) = Prim JUndefined \<or> row_get row (col_name col) = Prim JNull
               then JNull else primitive (row_get row (col_name col)))"
  from Cons.prems(3) have o: "owns ?acc k" by (simp add: owns_row_set)
  from Cons.IH[OF insert_cols_step(1)[OF Cons.prems(1)] k(2) o] k(1) Cons.prems(3)
  show ?case by (simp add: row_set_other_owned)
qed

lemma insert_cols_no_proto:
  "insert_cols t row cols acc = Inr newRow \<Longrightarrow> ''__proto__'' \<notin> col_name ` set cols \<Longrightarrow>
   owns newRow ''__proto__'' = owns acc ''__proto__'' \<and> proto_null newRow = proto_null acc"
proof (induction cols arbitrary: acc)
  case Nil
  then show ?case by simp
next
  case (Cons col cols)
  from Cons.prems(2) have k: "col_name col \<noteq> ''__proto__''" "''__proto__'' \<notin> col_name ` set cols" by auto
  from k(1) have ns: "\<not> runs_setter acc (col_name col)" by (simp add: runs_setter_def)
  from Cons.IH[OF insert_cols_step(1)[OF Cons.prems(1)] k(2)] k(1) ns
  show ?case by (auto simp: owns_row_set proto_null_row_set)
qed

lemma insert_cols_held:
  assumes "distinct (map col_name cols)"
    and "insert_cols t row cols acc = Inr newRow"
    and "c \<in> set cols"
    and "held (row_get newRow (col_name c))"
  shows "row_get newRow (col_name c) = row_get row (col_name c) \<and>
         validateType (row_get row (col_name c)) (col_type c) \<and>
         (indexed c \<longrightarrow> (\<forall>ix. indexes t (col_name c) = Some ix \<longrightarrow>
              index_find ix (row_get row (col_name c)) = []))"
  using assms
proof (induction cols arbitrary: acc)
  case Nil
  then show ?case by simp
next
  case (Cons col cols)
  note rec = insert_cols_step(1)[OF Cons.prems(2)]
  show ?case
  proof (cases "c = col")
    case True
    from Cons.prems(4) obtain w where w: "row_get newRow (col_name c) = Prim w" "proper w"
      by (auto simp: held_Prim)
    from Cons.prems(1) True have "col_name c \<notin> col_name ` set cols" by auto
    from insert_cols_keep_held[OF rec this w(2)] w(1) True
    have "row_get (row_set acc (col_name col)
              (if row_get row (col_name col) = Prim JUndefined \<or> row_get row (col_name col) = Prim JNull
               then JNull else primitive (row_get row (col_name col)))) (col_name col) = Prim w"
      by simp
    with w(2) have v: "(if row_get row (col_name col) = Prim JUndefined \<or> row_get row (col_name col) = Prim JNull
               then JNull else primitive (row_get row (col_name col))) = w"
      by (simp add: row_set_same_held)
    with w(2) have nn: "row_get row (col_name col) \<noteq> Prim JUndefined" "row_get row (col_name col) \<noteq> Prim JNull"
      and pw: "primitive (row_get row (col_name col)) = w"
      by (auto simp: proper_def split: if_splits)
    from insert_cols_step(2)[OF Cons.prems(2)] nn
    have ok: "validateType (row_get row (col_name col)) (col_type col)"
      and ix: "indexed col \<longrightarrow> (\<forall>ix. indexes t (col_name col) = Some ix \<longrightarrow>
              index_find ix (row_get row (col_name col)) = [])"
      by simp_all
    from validateType_held[OF ok] pw have "row_get row (col_name col) = Prim w" by simp
    with w(1) ok ix True show ?thesis by simp
  next
    case False
    with Cons.prems have "c \<in> set cols" "distinct (map col_name cols)" by auto
    from Cons.IH[OF this(2) rec this(1) Cons.prems(4)] show ?thesis .
  qed
qed

lemma update_entry_typed:
  assumes d: "distinct (map col_name (columns s))"
    and ty: "row_typed s row"
    and step: "update_entry s idx kv (row, ixs) = (row', ixs')"
  shows "row_typed s row'"
proof -
  obtain key v where kv: "kv = (key, v)" by (cases kv)
  show ?thesis
  proof (cases "find (\<lambda>c. col_name c = key) (columns s)")
    case None
    with step kv ty show ?thesis by (simp add: update_entry_def)
  next
    case (Some col)
    then have colin: "col \<in> set (columns s)" and cn: "col_name col = key"
      by (auto simp: find_Some_iff)
    show ?thesis
    proof (cases "v = JUndefined \<or> (v \<noteq> JNull \<and> \<not> validateType (Prim v) (col_type col))")
      case True
      with step kv Some have "row' = row"
        by (auto simp: update_entry_def split: if_splits)
      with ty show ?thesis by simp
    next
      case False
      then have row': "row' = row_set row key v"
        using step kv Some by (auto simp: update_entry_def Let_def)
      show ?thesis
        unfolding row_typed_def
      proof (intro ballI impI)
        fix c assume c: "c \<in> set (columns s)" and h: "held (row_get row' (col_name c))"
        from h obtain w where w: "row_get row' (col_name c) = Prim w" "proper w"
          by (auto simp: held_Prim)
        show "validateType (row_get row' (col_name c)) (col_type c)"
        proof (cases "col_name c = key")
          case True
          with d c colin cn have cc: "c = col" by (auto simp: distinct_map inj_on_def)
          from w True have "v = w" by (simp add: row' row_set_same_held)
          with w False cc show ?thesis by (auto simp: proper_def)
        next
          case ne: False
          with w have "row_get row (col_name c) = Prim w" by (simp add: row' row_set_other_held)
          with ty c w show ?thesis by (auto simp: row_typed_def held_Prim)
        qed
      qed
    qed
  qed
qed

lemma fold_update_entry_typed:
  assumes "distinct (map col_name (columns s))"
    and "row_typed s row"
    and "fold (update_entry s idx) us (row, ixs) = (row', ixs')"
  shows "row_typed s row'"
  using assms
proof (induction us arbitrary: row ixs)
  case Nil
  then show ?case by simp
next
  case (Cons kv us)
  obtain row1 ixs1 where st: "update_entry s idx kv (row, ixs) = (row1, ixs1)"
    by (cases "update_entry s idx kv (row, ixs)")
  from update_entry_typed[OF Cons.prems(1) Cons.prems(2) st] have t1: "row_typed s row1" .
  from Cons.prems(3) st have "fold (update_entry s idx) us (row1, ixs1) = (row', ixs')" by simp
  from Cons.IH[OF Cons.prems(1) t1 this] show ?case .
qed

lemma update_row_typed:
  assumes d: "distinct (map col_name (columns (schema t)))"
    and ty: "rows_typed t" and idx: "idx < length (rows t)"
  shows "rows_typed (snd (update_row u p idx (n, t)))"
proof (cases "p (rows t ! idx)")
  case False
  with ty show ?thesis by (simp add: update_row_def)
next
  case True
  obtain row' ixs' where f: "fold (update_entry (schema t) idx) (props u) (rows t ! idx, indexes t) = (row', ixs')"
    by (cases "fold (update_entry (schema t) idx) (props u) (rows t ! idx, indexes t)")
  have r: "snd (update_row u p idx (n, t)) = t\<lparr>rows := (rows t)[idx := row'], indexes := ixs'\<rparr>"
    using True f by (simp add: update_row_def)
  from ty idx have "row_typed (schema t) (rows t ! idx)" by (simp add: rows_typed_def)
  from fold_update_entry_typed[OF d this f] have "row_typed (schema t) row'" .
  with ty show ?thesis unfolding r
    by (auto simp: rows_typed_def dest!: set_update_subset_insert[THEN subsetD])
qed

lemma fold_update_row_typed:
  assumes "table_inv t" and "rows_typed t" and "\<forall>i \<in> set is. i < length (rows t)"
  shows "rows_typed (snd (fold (update_row u p) is (n, t)))"
  using assms
proof (induction "is" arbitrary: n t)
  case Nil
  then show ?case by simp
next
  case (Cons i "is")
  obtain n1 t1 where st: "update_row u p i (n, t) = (n1, t1)"
    by (cases "update_row u p i (n, t)")
  from Cons.prems have i: "i < length (rows t)" by simp
  from Cons.prems(1) have d: "distinct (map col_name (columns (schema t)))" by (simp add: table_inv_def)
  from update_row_inv[OF Cons.prems(1) i, of u p n] st
  have i1: "table_inv t1" and l1: "length (rows t1) = length (rows t)"
    by simp_all
  from update_row_typed[OF d Cons.prems(2) i, of u p n] st have t1: "rows_typed t1" by simp
  from Cons.prems(3) l1 have "\<forall>i \<in> set is. i < length (rows t1)" by simp
  from Cons.IH[OF i1 t1 this, of n1] st show ?case by simp
qed

lemma update_typed: "table_inv t \<Longrightarrow> rows_typed t \<Longrightarrow> rows_typed (snd (update t u p))"
  using fold_update_row_typed[of t "[0..<length (rows t)]" u p 0]
  by (simp add: update_def)

lemma delete_typed: "rows_typed t \<Longrightarrow> rows_typed (snd (delete t p))"
  by (simp add: rows_typed_def delete_rows)

lemma insert_row_typed:
  assumes inv: "table_inv t" and ty: "rows_typed t"
  shows "rows_typed (snd (insert_row t row))"
proof (cases "insert_cols t row (columns (schema t)) (object [])")
  case (Inl e)
  with ty show ?thesis by (simp add: insert_row_def)
next
  case (Inr newRow)
  from inv have d: "distinct (map col_name (columns (schema t)))" by (simp add: table_inv_def)
  have "row_typed (schema t) newRow"
    unfolding row_typed_def
  proof (intro ballI impI)
    fix c assume c: "c \<in> set (columns (schema t))" and h: "held (row_get newRow (col_name c))"
    from insert_cols_held[OF d Inr c h]
    show "validateType (row_get newRow (col_name c)) (col_type c)" by simp
  qed
  with ty Inr show ?thesis by (simp add: insert_row_def rows_typed_def Let_def)
qed

lemma apply_op_typed: "table_inv t \<Longrightarrow> rows_typed t \<Longrightarrow> rows_typed (apply_op t op)"
  by (cases op) (simp_all add: insert_row_typed update_typed delete_typed)

lemma foldl_apply_op_typed:
  "table_inv t \<Longrightarrow> rows_typed t \<Longrightarrow> rows_typed (foldl apply_op t ops)"
proof (induction ops arbitrary: t)
  case Nil
  then show ?case by simp
next
  case (Cons op ops)
  from apply_op_inv[OF Cons.prems(1), of op] apply_op_typed[OF Cons.prems, of op]
    Cons.IH[of "apply_op t op"] show ?case by simp
qed

lemma insert_cols_duplicate:
  assumes "validateType (Prim v) (col_type c)" and "row_get row (col_name c) = Prim v"
    and "proper v"
    and "indexed c" and "indexes t (col_name c) = Some ix" and "index_find ix (Prim v) \<noteq> []"
  shows "insert_cols t row (c # post) acc = Inl (dup_error c)"
  using assms by (auto simp: Let_def indexed_def dup_error_def proper_def)

lemma insert_cols_error:
  "insert_cols t row cols acc = Inl e \<Longrightarrow>
   \<exists>c \<in> set cols.
      (e = null_error c \<and> \<not> col_nullable c \<and> \<not> col_primaryKey c) \<or> e = type_error c \<or> e = dup_error c"
proof (induction cols arbitrary: acc)
  case Nil
  then show ?case by simp
next
  case (Cons col cols)
  show ?case
  proof (cases "\<exists>acc'. insert_cols t row cols acc' = Inl e")
    case True
    then obtain acc' where "insert_cols t row cols acc' = Inl e" ..
    from Cons.IH[OF this] show ?thesis by auto
  next
    case False
    with Cons.prems have "(e = null_error col \<and> \<not> col_nullable col \<and> \<not> col_primaryKey col) \<or>
        e = type_error col \<or> e = dup_error col"
      by (auto simp: Let_def null_error_def type_error_def dup_error_def split: if_splits)
    then show ?thesis by auto
  qed
qed

lemma distinct_filter_map_filter:
  "distinct (filter Q (map f rs)) \<Longrightarrow> distinct (filter Q (map f (filter P rs)))"
  by (induction rs) auto

lemma delete_uniqueness: "uniqueness t \<Longrightarrow> uniqueness (snd (delete t p))"
  by (auto simp: uniqueness_def unique_column_def delete_rows list_all_iff
      intro: distinct_filter_map_filter)

lemma insert_row_uniqueness:
  assumes inv: "table_inv t" and u: "uniqueness t"
  shows "uniqueness (snd (insert_row t row))"
proof (cases "insert_cols t row (columns (schema t)) (object [])")
  case (Inl e)
  with u show ?thesis by (simp add: insert_row_def)
next
  case (Inr newRow)
  from inv have d: "distinct (map col_name (columns (schema t)))"
    and dm: "dom (indexes t) = indexed_names (schema t)"
    and sync: "index_sync (rows t) (indexes t)"
    by (simp_all add: table_inv_def)
  have "unique_column (rows t @ [newRow]) (col_name c)"
    if c: "c \<in> set (columns (schema t))" and ic: "indexed c" for c
  proof -
    from u c ic have old: "distinct (filter held (map (\<lambda>r. row_get r (col_name c)) (rows t)))"
      by (simp add: uniqueness_def unique_column_def list_all_iff)
    let ?a = "row_get newRow (col_name c)"
    show ?thesis
    proof (cases "held ?a")
      case False
      with old show ?thesis by (simp add: unique_column_def)
    next
      case True
      then obtain v where v: "?a = Prim v" "proper v" by (auto simp: held_Prim)
      from dm c ic obtain ix where ix: "indexes t (col_name c) = Some ix"
        by (auto simp: indexed_names_def dom_def set_eq_iff image_iff)
      from insert_cols_held[OF d Inr c True] ic ix v have "index_find ix (Prim v) = []"
        by auto
      moreover from sync ix v(2)
      have "positions (rows t) (col_name c) v \<subseteq> set (index_find ix (Prim v))"
        unfolding index_sync_def by blast
      ultimately have "\<forall>i < length (rows t). row_get (rows t ! i) (col_name c) \<noteq> Prim v"
        by (auto simp: positions_def)
      then have "?a \<notin> set (map (\<lambda>r. row_get r (col_name c)) (rows t))"
        unfolding v(1) by (auto simp: in_set_conv_nth)
      with old True show ?thesis by (simp add: unique_column_def)
    qed
  qed
  with Inr show ?thesis by (simp add: insert_row_def uniqueness_def list_all_iff Let_def)
qed

section \<open>The join, the filter and the error messages\<close>

lemma inner_loop_fold:
  "fold (join_inner_loop leftRow lc rc L R) rightRows (result, m) =
     (result @ map (\<lambda>r. qualify R r (qualify L leftRow (object []))) (join_matches leftRow lc rc rightRows),
      m \<or> join_matches leftRow lc rc rightRows \<noteq> [])"
  by (induction rightRows arbitrary: result m) (simp_all add: join_inner_loop_def join_matches_def)

lemma outer_loop_step:
  "join_outer_loop rs j lc rc L R leftRow result =
     result @ map (\<lambda>r. qualify R r (qualify L leftRow (object []))) (join_matches leftRow lc rc rs)
            @ (if join_matches leftRow lc rc rs = [] \<and> join_type j = LEFT
               then [qualify L leftRow (object [])] else [])"
  by (simp add: join_outer_loop_def inner_loop_fold)

lemma outer_loop_fold:
  "fold (join_outer_loop rs j lc rc L R) ls result =
     result @ concat (map (\<lambda>l. join_outer_loop rs j lc rc L R l []) ls)"
proof (induction ls arbitrary: result)
  case Nil
  then show ?case by simp
next
  case (Cons l ls)
  have "join_outer_loop rs j lc rc L R l result = result @ join_outer_loop rs j lc rc L R l []"
    by (simp add: outer_loop_step)
  then show ?case by (simp add: Cons.IH)
qed

lemma add_property_append: "\<not> is_array_index k \<Longrightarrow> add_property ps k v = ps @ [(k, v)]"
  by (induction ps) auto

lemma qualified_key: "T @ ''.'' @ k \<noteq> ''__proto__''" "\<not> is_array_index (T @ ''.'' @ k)"
proof -
  have "CHR ''.'' \<in> set (T @ ''.'' @ k)" by simp
  moreover have "CHR ''.'' \<notin> set ''__proto__''" by simp
  ultimately show "T @ ''.'' @ k \<noteq> ''__proto__''" by metis
  show "\<not> is_array_index (T @ ''.'' @ k)" by (simp add: is_array_index_def is_digit_def)
qed

lemma row_set_fresh:
  "k \<notin> fst ` set (props row) \<Longrightarrow> k \<noteq> ''__proto__'' \<Longrightarrow> \<not> is_array_index k \<Longrightarrow>
   row_set row k v = row\<lparr>props := props row @ [(k, v)]\<rparr>"
  by (simp add: row_set_def owns_def map_of_eq_None_iff add_property_append)

lemma qualify_distinct:
  "distinct (map fst ps) \<Longrightarrow> (\<forall>k \<in> fst ` set ps. T @ ''.'' @ k \<notin> fst ` set (props acc)) \<Longrightarrow>
   fold (\<lambda>(key, v) j. row_set j (T @ ''.'' @ key) v) ps acc =
     acc\<lparr>props := props acc @ map (\<lambda>(k, v). (T @ ''.'' @ k, v)) ps\<rparr>"
proof (induction ps arbitrary: acc)
  case Nil
  then show ?case by simp
next
  case (Cons kv ps)
  obtain k v where kv: "kv = (k, v)" by (cases kv)
  from Cons.prems kv have fresh: "T @ ''.'' @ k \<notin> fst ` set (props acc)" by auto
  have step: "row_set acc (T @ ''.'' @ k) v = acc\<lparr>props := props acc @ [(T @ ''.'' @ k, v)]\<rparr>"
    by (rule row_set_fresh[OF fresh qualified_key])
  have d: "distinct (map fst ps)" using Cons.prems by simp
  have "\<forall>k' \<in> fst ` set ps. T @ ''.'' @ k' \<notin> fst ` set (props (acc\<lparr>props := props acc @ [(T @ ''.'' @ k, v)]\<rparr>))"
    using Cons.prems kv by (auto simp: image_iff)
  note ih = Cons.IH[OF d this]
  let ?F = "\<lambda>(key, v) j. row_set j (T @ ''.'' @ key) v"
  have "fold ?F (kv # ps) acc = fold ?F ps (row_set acc (T @ ''.'' @ k) v)"
    by (simp add: kv)
  also have "\<dots> = fold ?F ps (acc\<lparr>props := props acc @ [(T @ ''.'' @ k, v)]\<rparr>)"
    by (simp only: step)
  also have "\<dots> = acc\<lparr>props := props acc @ map (\<lambda>(k, v). (T @ ''.'' @ k, v)) (kv # ps)\<rparr>"
    using ih by (simp add: kv)
  finally show ?case .
qed

lemma qualify_object:
  "distinct (map fst (props row)) \<Longrightarrow>
   qualify T row (object []) = object (map (\<lambda>(k, v). (T @ ''.'' @ k, v)) (props row))"
  using qualify_distinct[of "props row" T "object []"]
  by (simp add: qualify_def object_def)

lemma each_member:
  "each f xs = Inr ys \<Longrightarrow> y \<in> set ys \<Longrightarrow> \<exists>x \<in> set xs. f x = Inr y"
proof (induction xs arbitrary: ys)
  case Nil
  then show ?case by simp
next
  case (Cons x xs)
  from Cons.prems(1) obtain z zs where z: "f x = Inr z" "each f xs = Inr zs" "ys = z # zs"
    by (auto split: sum.splits)
  with Cons.prems(2) Cons.IH[OF z(2)] show ?case by auto
qed

lemma each_error: "each f xs = Inl e \<Longrightarrow> \<exists>x \<in> set xs. f x = Inl e"
  by (induction xs) (auto split: sum.splits)

lemma select_columns_absent:
  "select_columns row cols acc = Inr r \<Longrightarrow> w \<notin> set cols \<Longrightarrow> owns r w = owns acc w"
proof (induction cols arbitrary: acc)
  case Nil
  then show ?case by simp
next
  case (Cons col cols)
  from Cons.prems(2) have w: "w \<noteq> col" "w \<notin> set cols" by auto
  from Cons.prems(1) obtain has where
    "select_columns row cols (if has then row_set acc col (primitive (row_get row col)) else acc) = Inr r"
    by (auto split: sum.splits)
  from Cons.IH[OF this w(2)] w(1) show ?case by (simp add: owns_row_set split: if_splits)
qed

lemma select_columns_error:
  "select_columns row cols acc = Inl e \<Longrightarrow> e = TypeError ''row.hasOwnProperty is not a function''"
  by (induction cols arbitrary: acc)
     (auto simp: hasOwnProperty_def split: sum.splits jsany.splits)

lemma select_error:
  "select t cols = Inl e \<Longrightarrow> e = TypeError ''row.hasOwnProperty is not a function''"
  by (auto simp: select_def split: if_splits dest!: each_error select_columns_error)

lemma select_absent:
  assumes "cols \<noteq> []" and "hd cols \<noteq> ''*''" and "w \<notin> set cols"
    and "select t cols = Inr rs" and "r \<in> set rs"
  shows "\<not> owns r w"
proof -
  from assms(1,2,4) have "each (\<lambda>row. select_columns row cols (object [])) (rows t) = Inr rs"
    by (simp add: select_def)
  from each_member[OF this assms(5)] obtain row where "select_columns row cols (object []) = Inr r"
    by blast
  from select_columns_absent[OF this assms(3)] show ?thesis
    by (simp add: owns_def object_def)
qed

lemma row_get_absent:
  "\<not> owns r w \<Longrightarrow> object_prototype w = Prim JUndefined \<Longrightarrow> row_get r w = Prim JUndefined"
  by (auto simp: row_get_def owns_def)

lemma number_less_NaN: "number_less NaN y = None" "number_less x NaN = None"
  by (cases x; simp)+

lemma IsLessThan_undefined: "IsLessThan (Prim JUndefined) a = None" "IsLessThan a (Prim JUndefined) = None"
  by (simp_all add: IsLessThan_def ToPrimitive_def ToNumber_def number_less_NaN split: jsval.splits)

lemma evaluateCondition_absent:
  assumes "row_get r (wc_column c) = Prim JUndefined" and "wc_value c \<noteq> JUndefined"
  shows "evaluateCondition r c = (wc_operator c = ''!='')"
  using assms
  by (auto simp: evaluateCondition_def Let_def js_gt_def js_lt_def js_ge_def js_le_def
      IsLessThan_undefined strict_eq_def)












lemma reports_failed: "msg \<noteq> [] \<Longrightarrow> reports (failed msg)"
  by (simp add: reports_def failed_def)

lemma reports_done: "reports (done_message m n)" "reports (done_rows rs)"
  by (simp_all add: reports_def done_message_def done_rows_def)

lemma insert_row_error: "insert_row t row = (Failure e, t') \<Longrightarrow> e \<noteq> []"
proof -
  assume a: "insert_row t row = (Failure e, t')"
  then have "insert_cols t row (columns (schema t)) (object []) = Inl e"
    by (auto simp: insert_row_def Let_def split: sum.splits)
  from insert_cols_error[OF this] show ?thesis
    by (auto simp: null_error_def type_error_def dup_error_def)
qed

lemma executeSelect_error:
  "executeSelect db cols frm whr join = Inl e \<Longrightarrow> e = TypeError ''row.hasOwnProperty is not a function''"
  by (auto simp: executeSelect_def Let_def split: option.splits sum.splits dest: select_error)

lemma executeSelect_reports: "executeSelect db cols frm whr join = Inr r \<Longrightarrow> reports r"
  by (auto simp: executeSelect_def Let_def reports_done
      intro!: reports_failed split: option.splits sum.splits)

lemma execute_switch_error:
  "execute_switch db q = Inl e \<Longrightarrow> e = TypeError ''row.hasOwnProperty is not a function''"
  by (cases q) (auto simp: execute_switch_def split: sum.splits dest: executeSelect_error)

lemma execute_switch_reports: "execute_switch db q = Inr (r, db') \<Longrightarrow> reports r"
proof (cases q)
  case (CREATE_TABLE n cols)
  then show "execute_switch db q = Inr (r, db') \<Longrightarrow> reports r"
    by (auto simp: execute_switch_def executeCreateTable_def createTable_def Let_def reports_done
        intro!: reports_failed split: prod.splits Outcome.splits if_splits)
next
  case (DROP_TABLE n)
  then show "execute_switch db q = Inr (r, db') \<Longrightarrow> reports r"
    by (auto simp: execute_switch_def executeDropTable_def dropTable_def reports_done
        intro!: reports_failed split: prod.splits Outcome.splits if_splits)
next
  case (INSERT n cols vs)
  then show "execute_switch db q = Inr (r, db') \<Longrightarrow> reports r"
    by (auto simp: execute_switch_def executeInsert_def Let_def reports_done
        intro!: reports_failed dest: insert_row_error split: prod.splits Outcome.splits option.splits)
next
  case (SELECT cols frm whr join)
  then show "execute_switch db q = Inr (r, db') \<Longrightarrow> reports r"
    by (auto simp: execute_switch_def split: sum.splits dest: executeSelect_reports)
next
  case (UPDATE n st whr)
  then show "execute_switch db q = Inr (r, db') \<Longrightarrow> reports r"
    by (auto simp: execute_switch_def executeUpdate_def reports_done
        intro!: reports_failed split: option.splits prod.splits)
next
  case (DELETE frm whr)
  then show "execute_switch db q = Inr (r, db') \<Longrightarrow> reports r"
    by (auto simp: execute_switch_def executeDelete_def reports_done
        intro!: reports_failed split: option.splits prod.splits)
next
  case SHOW_TABLES
  then show "execute_switch db q = Inr (r, db') \<Longrightarrow> reports r"
    by (auto simp: execute_switch_def executeShowTables_def reports_done)
next
  case (DESCRIBE n)
  then show "execute_switch db q = Inr (r, db') \<Longrightarrow> reports r"
    by (auto simp: execute_switch_def executeDescribe_def reports_done
        intro!: reports_failed split: option.splits)
qed

lemma execute_returns: "\<exists>r db'. execute db q = Inr (r, db') \<and> reports r"
proof (cases "execute_switch db q")
  case (Inl e)
  from execute_switch_error[OF Inl] Inl show ?thesis
    by (simp add: execute_def try_catch_def reports_failed)
next
  case (Inr p)
  obtain r db' where p: "p = (r, db')" by (cases p)
  from execute_switch_reports[of db q r db'] Inr p show ?thesis
    by (simp add: execute_def try_catch_def)
qed

section \<open>The operators the parser can produce\<close>

lemma where_condition_re_unfold:
  "where_condition_re = Seq (Group 1 (one_or_more is_word)) (Seq (Star is_space) (Seq (Group 2 where_ops) where_tail))"
  by (simp add: where_condition_re_def where_tail_def where_ops_def seqs_def)

lemma star_succeeds: "run inp [Re (Star c), Close n p, Re Eps] s caps \<noteq> None"
  by (induction s) (auto split: option.splits)

lemma star_cont:
  "run inp (Re (Star c) # k) s caps = Some r \<Longrightarrow> \<exists>pre s'. s = pre @ s' \<and> run inp k s' caps = Some r"
proof (induction s)
  case Nil
  then show ?case by auto
next
  case (Cons x xs)
  show ?case
  proof (cases "c x \<and> run inp (Re (Star c) # k) xs caps \<noteq> None")
    case True
    with Cons.prems have "run inp (Re (Star c) # k) xs caps = Some r" by (auto split: option.splits)
    from Cons.IH[OF this] obtain pre s' where "xs = pre @ s'" "run inp k s' caps = Some r" by blast
    then have "x # xs = (x # pre) @ s'" by simp
    with \<open>run inp k s' caps = Some r\<close> show ?thesis by blast
  next
    case False
    with Cons.prems have "run inp k (x # xs) caps = Some r" by (auto split: option.splits if_splits)
    then have "x # xs = [] @ (x # xs) \<and> run inp k (x # xs) caps = Some r" by simp
    then show ?thesis by blast
  qed
qed

lemma tail_succeeds: "run inp (Re where_tail # []) (CHR ''='' # ys) caps \<noteq> None"
  by (simp add: where_tail_def seqs_def one_or_more_def is_space_def is_dot_def star_succeeds)

lemma tail_keeps:
  assumes "run inp [Re where_tail] s caps = Some (e, c)"
  shows "c 2 = caps 2"
proof -
  from assms have "run inp [Re (Star is_space), Re (Seq (Group 3 (one_or_more is_dot)) Eps)] s caps = Some (e, c)"
    by (simp add: where_tail_def seqs_def)
  from star_cont[OF this] obtain s1 where
    "run inp [Re (Seq (Group 3 (one_or_more is_dot)) Eps)] s1 caps = Some (e, c)" by blast
  then have "run inp [Re (Chr is_dot), Re (Star is_dot), Close 3 (length inp - length s1), Re Eps] s1 caps = Some (e, c)"
    by (simp add: one_or_more_def)
  then obtain xs where "run inp [Re (Star is_dot), Close 3 (length inp - length s1), Re Eps] xs caps = Some (e, c)"
    by (cases s1) (auto split: if_splits)
  from star_cont[OF this] obtain s2 where
    "run inp [Close 3 (length inp - length s1), Re Eps] s2 caps = Some (e, c)" by blast
  then show ?thesis by auto
qed

lemma ops_group:
  assumes inp: "inp = pre @ s"
    and r: "run inp [Re where_ops, Close 2 (length pre), Re where_tail] s caps = Some (e, c)"
  shows "c 2 \<in> {Some ''='', Some ''!='', Some ''>'', Some ''<''}"
proof -
  have cap: "take (length inp - length s' - length pre) (drop (length pre) inp) = lit'"
    if "s = lit' @ s'" for lit' s'
    using inp that by simp
  have keep: "run inp [Re where_tail] s' (caps(2 \<mapsto> v)) = Some (e, c) \<Longrightarrow> c 2 = Some v" for s' v
    using tail_keeps[of inp s' "caps(2 \<mapsto> v)" e c] by simp
  show ?thesis
  proof (cases s)
    case Nil
    with r show ?thesis by (simp add: where_ops_def lit_def seqs_def)
  next
    case (Cons x xs)
    note s = Cons
    consider (eq) "x = CHR ''=''" | (ne) "x = CHR ''!''" | (gt) "x = CHR ''>''" | (lt) "x = CHR ''<''"
      | (other) "x \<noteq> CHR ''=''" "x \<noteq> CHR ''!''" "x \<noteq> CHR ''>''" "x \<noteq> CHR ''<''"
      by blast
    then show ?thesis
    proof cases
      case eq
      have "take (length inp - length xs - length pre) (drop (length pre) inp) = ''=''"
        using cap[of "''=''" xs] s eq by simp
      with r s eq show ?thesis
        by (auto simp: where_ops_def lit_def seqs_def split: option.splits dest!: keep)
    next
      case ne
      show ?thesis
      proof (cases xs)
        case Nil
        with r s ne show ?thesis by (simp add: where_ops_def lit_def seqs_def)
      next
        case (Cons y ys)
        have "take (length inp - length ys - length pre) (drop (length pre) inp) = ''!=''"
          if "y = CHR ''=''"
          using cap[of "''!=''" ys] s ne Cons that by simp
        with r s ne Cons show ?thesis
          by (auto simp: where_ops_def lit_def seqs_def split: option.splits if_splits dest!: keep)
      qed
    next
      case gt
      have c1: "take (length inp - length xs - length pre) (drop (length pre) inp) = ''>''"
        using cap[of "''>''" xs] s gt by simp
      show ?thesis
      proof (cases "run inp [Re where_tail] xs (caps(2 \<mapsto> ''>''))")
        case (Some res)
        with r s gt c1 have "run inp [Re where_tail] xs (caps(2 \<mapsto> ''>'')) = Some (e, c)"
          by (simp add: where_ops_def lit_def seqs_def)
        from keep[OF this] show ?thesis by simp
      next
        case None
        have "xs \<noteq> CHR ''='' # ys" for ys
          using None tail_succeeds[of inp ys "caps(2 \<mapsto> ''>'')"] by auto
        with r s gt c1 None show ?thesis
          by (cases xs) (auto simp: where_ops_def lit_def seqs_def split: if_splits)
      qed
    next
      case lt
      have c1: "take (length inp - length xs - length pre) (drop (length pre) inp) = ''<''"
        using cap[of "''<''" xs] s lt by simp
      show ?thesis
      proof (cases "run inp [Re where_tail] xs (caps(2 \<mapsto> ''<''))")
        case (Some res)
        with r s lt c1 have "run inp [Re where_tail] xs (caps(2 \<mapsto> ''<'')) = Some (e, c)"
          by (simp add: where_ops_def lit_def seqs_def)
        from keep[OF this] show ?thesis by simp
      next
        case None
        have "xs \<noteq> CHR ''='' # ys" for ys
          using None tail_succeeds[of inp ys "caps(2 \<mapsto> ''<'')"] by auto
        with r s lt c1 None show ?thesis
          by (cases xs) (auto simp: where_ops_def lit_def seqs_def split: if_splits)
      qed
    next
      case other
      with r s show ?thesis
        by (simp add: where_ops_def lit_def seqs_def)
    qed
  qed
qed

lemma exec_at_Some:
  "exec_at inp r starts = Some m \<Longrightarrow>
   \<exists>i \<in> set starts. run inp [Re r] (drop i inp) Map.empty = Some (m_end m, m_groups m)"
  by (induction starts) (auto split: option.splits)

lemma where_condition_operator:
  assumes "exec where_condition_re cnd = Some m"
  shows "m_groups m 2 \<in> {Some ''='', Some ''!='', Some ''>'', Some ''<''}"
proof -
  from exec_at_Some[OF assms[unfolded exec_def]] obtain i where
    r0: "run cnd [Re where_condition_re] (drop i cnd) Map.empty = Some (m_end m, m_groups m)"
    by blast
  let ?p1 = "length cnd - length (drop i cnd)"
  let ?k1 = "[Close 1 ?p1, Re (Seq (Star is_space) (Seq (Group 2 where_ops) where_tail))]"
  from r0 have "run cnd (Re (Chr is_word) # Re (Star is_word) # ?k1) (drop i cnd) Map.empty
      = Some (m_end m, m_groups m)"
    by (simp add: where_condition_re_unfold one_or_more_def)
  then obtain x xs where s0: "drop i cnd = x # xs"
    and r1: "run cnd (Re (Star is_word) # ?k1) xs Map.empty = Some (m_end m, m_groups m)"
    by (cases "drop i cnd") (auto split: if_splits)
  from star_cont[OF r1] obtain pre1 s1 where s1: "xs = pre1 @ s1"
    and r2: "run cnd ?k1 s1 Map.empty = Some (m_end m, m_groups m)"
    by blast
  from r2 obtain caps1 where
    "run cnd [Re (Star is_space), Re (Seq (Group 2 where_ops) where_tail)] s1 caps1 = Some (m_end m, m_groups m)"
    by simp
  from star_cont[OF this] obtain pre2 s2 where s2: "s1 = pre2 @ s2"
    and r3: "run cnd [Re (Seq (Group 2 where_ops) where_tail)] s2 caps1 = Some (m_end m, m_groups m)"
    by blast
  have "cnd = take i cnd @ drop i cnd" by simp
  with s0 s1 s2 have split: "cnd = (take i cnd @ x # pre1 @ pre2) @ s2" by simp
  then have len: "length cnd - length s2 = length (take i cnd @ x # pre1 @ pre2)"
    by (metis add_diff_cancel_right' length_append)
  from r3 have "run cnd [Re where_ops, Close 2 (length (take i cnd @ x # pre1 @ pre2)), Re where_tail] s2 caps1
      = Some (m_end m, m_groups m)"
    by (simp add: len)
  from ops_group[OF split this] show ?thesis .
qed

lemma parseConditions_operators:
  "parseConditions cs = Inr ws \<Longrightarrow> \<forall>w \<in> set ws. wc_operator w \<in> {''='', ''!='', ''>'', ''<''}"
proof (induction cs arbitrary: ws)
  case Nil
  then show ?case by simp
next
  case (Cons c cs)
  from Cons.prems obtain m ws' where m: "exec where_condition_re c = Some m"
    and rest: "parseConditions cs = Inr ws'"
    and ws: "ws = \<lparr>wc_column = group_text m 1, wc_operator = group_text m 2, wc_value = parseValue (group_text m 3)\<rparr> # ws'"
    by (auto split: option.splits sum.splits)
  from where_condition_operator[OF m] have "group_text m 2 \<in> {''='', ''!='', ''>'', ''<''}"
    by (auto simp: group_text_def)
  with Cons.IH[OF rest] ws show ?case by simp
qed

lemma parseWhere_operators:
  "parseWhere whereClause = Inr ws \<Longrightarrow> \<forall>w \<in> set ws. wc_operator w \<noteq> ''>='' \<and> wc_operator w \<noteq> ''<=''"
  unfolding parseWhere_def by (drule parseConditions_operators) auto

section \<open>The type words the parser recognises\<close>

text \<open>
  What the patterns of \<open>columnType\<close> accept, without the matcher: \<open>prefix_i\<close> is \<open>/^p/i\<close>
  and \<open>equal_i\<close> is \<open>/^p$/i\<close>.
\<close>

lemma lit_i_Cons: "lit_i (c # cs) = Seq (Chr (\<lambda>x. toUpperChar x = toUpperChar c)) (lit_i cs)"
  by (simp add: lit_i_def seqs_def)

lemma lit_i_Nil: "lit_i [] = Eps"
  by (simp add: lit_i_def seqs_def)

lemma run_lit_i:
  "run inp (Re (lit_i p) # k) s caps =
     (if prefix_i p s then run inp k (drop (length p) s) caps else None)"
proof (induction p arbitrary: s)
  case Nil
  then show ?case by (simp add: lit_i_Nil prefix_i_def toUpperCase_def)
next
  case (Cons c cs)
  show ?case
  proof (cases s)
    case Nil
    then show ?thesis by (simp add: lit_i_Cons prefix_i_def)
  next
    case (Cons x xs)
    then show ?thesis
      by (auto simp: lit_i_Cons Cons.IH prefix_i_def toUpperCase_def)
  qed
qed

lemma exec_at_anchored:
  "\<forall>i \<in> set starts. 0 < i \<and> i \<le> length inp \<Longrightarrow> exec_at inp (Seq Bos r) starts = None"
  by (induction starts) auto

lemma test_anchored:
  "test (Seq Bos r) s = (run s [Re r] s Map.empty \<noteq> None)"
proof -
  have "[0..<Suc (length s)] = 0 # [1..<Suc (length s)]"
    by (simp add: upt_rec)
  moreover have "exec_at s (Seq Bos r) [1..<Suc (length s)] = None"
    by (rule exec_at_anchored) auto
  ultimately show ?thesis
    by (auto simp: test_def exec_def split: option.splits)
qed

lemma prefix_whole: "(prefix_i p s \<and> drop (length p) s = []) = equal_i p s"
proof
  assume a: "prefix_i p s \<and> drop (length p) s = []"
  then have "take (length p) s = s" by simp
  with a show "equal_i p s" by (simp add: prefix_i_def equal_i_def)
next
  assume e: "equal_i p s"
  then have "length s = length p"
    by (auto simp: equal_i_def toUpperCase_def dest: map_eq_imp_length_eq)
  with e show "prefix_i p s \<and> drop (length p) s = []"
    by (simp add: prefix_i_def equal_i_def)
qed

lemma test_prefix: "test (seqs [Bos, lit_i p]) s = prefix_i p s"
  by (simp add: seqs_def test_anchored run_lit_i)

lemma test_whole: "test (seqs [Bos, lit_i p, Eos]) s = equal_i p s"
  using prefix_whole[of p s] by (auto simp: seqs_def test_anchored run_lit_i)

lemma test_whole_opt:
  "test (seqs [Bos, lit_i p, opt (Group 1 (lit_i q)), Eos]) s = (equal_i (p @ q) s \<or> equal_i p s)"
proof -
  note a = prefix_whole[of p s]
  have b: "(prefix_i p s \<and> prefix_i q (drop (length p) s) \<and> drop (length q) (drop (length p) s) = [])
             = equal_i (p @ q) s"
  proof
    assume l: "prefix_i p s \<and> prefix_i q (drop (length p) s) \<and> drop (length q) (drop (length p) s) = []"
    then have "length s = length p + length q" by (auto simp: prefix_i_def)
    with l have "s = take (length p) s @ take (length q) (drop (length p) s)"
      by (metis append_take_drop_id l append_Nil2)
    with l show "equal_i (p @ q) s"
      by (metis equal_i_def map_append prefix_i_def toUpperCase_def)
  next
    assume r: "equal_i (p @ q) s"
    then have "length (map toUpperChar s) = length (map toUpperChar (p @ q))"
      by (simp only: equal_i_def toUpperCase_def)
    then have len: "length s = length p + length q" by simp
    from r have "map toUpperChar (take (length p) s) @ map toUpperChar (drop (length p) s)
        = map toUpperChar p @ map toUpperChar q"
      by (metis append_take_drop_id equal_i_def map_append toUpperCase_def)
    with len have "map toUpperChar (take (length p) s) = map toUpperChar p"
      and "map toUpperChar (drop (length p) s) = map toUpperChar q"
      by (auto simp: append_eq_append_conv)
    with len show "prefix_i p s \<and> prefix_i q (drop (length p) s) \<and> drop (length q) (drop (length p) s) = []"
      by (simp add: prefix_i_def toUpperCase_def)
  qed
  show ?thesis
    by (auto simp: seqs_def opt_def test_anchored run_lit_i a[symmetric] b[symmetric] split: option.splits)
qed

lemma columnType_meaning:
  "columnType rawType =
     (if prefix_i ''varchar('' rawType \<or> prefix_i ''char('' rawType \<or> rawType = ''text'' \<or>
         prefix_i ''timestamp'' rawType
      then TString
      else if prefix_i ''serial'' rawType \<or> equal_i ''int'' rawType \<or> equal_i ''inter'' rawType \<or>
              equal_i ''number'' rawType \<or> prefix_i ''bigint'' rawType
      then TNumber
      else if equal_i ''bool'' rawType \<or> equal_i ''boolean'' rawType
      then TBoolean
      else TString)"
  unfolding columnType_def test_prefix test_whole test_whole_opt
  by auto

text \<open>
  The index lists positions in the order in which the values arrived, which an update can
  turn against the order of the rows: after the ids 1 and 2 are both set to 7, the second
  row first, \<open>findByIndex\<close> gives the second row before the first.
\<close>

lemma findByIndex_order:
  "findByIndex (foldl apply_op (new_Table ex_schema)
       [Insert (ex_row 1 ''a''), Insert (ex_row 2 ''b''),
        Update (object [(''id'', JNum (Finite 7))]) (\<lambda>r. row_get r ''name'' = Prim (JStr ''b'')),
        Update (object [(''id'', JNum (Finite 7))]) (\<lambda>r. row_get r ''name'' = Prim (JStr ''a''))]) ''id'' (JNum (Finite 7))
     = [ex_row 7 ''b'', ex_row 7 ''a''] \<and>
   rows (foldl apply_op (new_Table ex_schema)
       [Insert (ex_row 1 ''a''), Insert (ex_row 2 ''b''),
        Update (object [(''id'', JNum (Finite 7))]) (\<lambda>r. row_get r ''name'' = Prim (JStr ''b'')),
        Update (object [(''id'', JNum (Finite 7))]) (\<lambda>r. row_get r ''name'' = Prim (JStr ''a''))])
     = [ex_row 7 ''a'', ex_row 7 ''b'']"
  by code_simp

text \<open>
  \<open>Table.select\<close> with a column list returns when every row finds the method
  \<open>hasOwnProperty\<close>: when no row owns a cell of that name or has lost its prototype.
\<close>

lemma select_columns_returns:
  "\<not> owns row ''hasOwnProperty'' \<Longrightarrow> \<not> proto_null row \<Longrightarrow> \<exists>r. select_columns row cols acc = Inr r"
  by (induction cols arbitrary: acc)
     (auto simp: hasOwnProperty_def row_get_def owns_def object_prototype_def)

lemma each_returns: "\<forall>x \<in> set xs. \<exists>y. f x = Inr y \<Longrightarrow> \<exists>ys. each f xs = Inr ys"
  by (induction xs) auto

lemma select_returns:
  "\<forall>row \<in> set (rows t). \<not> owns row ''hasOwnProperty'' \<and> \<not> proto_null row \<Longrightarrow>
   \<exists>rs. select t cols = Inr rs"
  unfolding select_def using each_returns[of "rows t" "\<lambda>row. select_columns row cols (object [])"]
  by (auto dest: select_columns_returns)

text \<open>
  Examples of the reading of numbers, of the order of the properties of an object and of
  the members that a row inherits.
\<close>

lemma StringToNumber_examples:
  "map StringToNumber [''1'', ''1.5'', ''1e3'', ''0x10'', '' 12 '', [], ''-7'', ''.5'', ''5.'']
     = [Finite 1, Finite (3 / 2), Finite 1000, Finite 16, Finite 12, Finite 0, Finite (- 7),
        Finite (1 / 2), Finite 5] \<and>
   map StringToNumber [''.'', ''1e'', ''abc'', ''= 5'', ''-0x10'', ''1_0''] = [NaN, NaN, NaN, NaN, NaN, NaN] \<and>
   map StringToNumber [''Infinity'', ''-Infinity''] = [Infinity, MinusInfinity] \<and>
   StringToNumber ''9007199254740993'' = Finite 9007199254740992 \<and>
   map parseValue [''1.50'', ''a'', ''NaN'', ''null'', ''TRUE'']
     = [JNum (Finite (3 / 2)), JStr ''a'', JStr ''NaN'', JStr ''null'', JBool True]"
  by code_simp

lemma property_order_example:
  "parse ''UPDATE t SET 2 = 3, b = 1, 1 = 5, __proto__ = 4'' =
     Inr (UPDATE ''t'' (object [(''1'', JNum (Finite 5)), (''2'', JNum (Finite 3)), (''b'', JNum (Finite 1))]) None)"
  by code_simp

lemma inherited_member_examples:
  "row_get (object [(''name'', JStr ''a'')]) ''toString'' = Function ''toString'' \<and>
   row_get (object [(''name'', JStr ''a'')]) ''__proto__'' = ObjectPrototype \<and>
   row_get (object [(''name'', JStr ''a'')]) ''age'' = Prim JUndefined \<and>
   row_get (row_set (object [(''name'', JStr ''a'')]) ''__proto__'' JNull) ''toString'' = Prim JUndefined \<and>
   row_set (object [(''name'', JStr ''a'')]) ''__proto__'' (JStr ''x'') = object [(''name'', JStr ''a'')] \<and>
   hasOwnProperty (object [(''hasOwnProperty'', JStr ''x'')]) ''name'' =
     Inl (TypeError ''row.hasOwnProperty is not a function'') \<and>
   hasOwnProperty (object [(''name'', JStr ''a'')]) ''name'' = Inr True \<and>
   js_gt (Function ''Object'') (Prim (JStr ''a'')) = True"
  by code_simp

section \<open>The claims\<close>

text \<open>
  Claim C1 (uniqueness).  No two live rows may hold the same non-null value in a
  primary-key or unique column, whatever the operations.  \<open>insert_row_uniqueness\<close> and
  \<open>delete_uniqueness\<close> above show that insert and delete keep this; \<open>update\<close> has no
  duplicate check and breaks it.  On the table \<open>t (id number PRIMARY KEY, name string NOT
  NULL)\<close> with the rows of id 1 and 2, the update \<open>{id: 1}\<close> of every row reports 2 rows
  and leaves two live rows of id 1; so does the statement \<open>UPDATE t SET id = 1\<close>.
\<close>

theorem update_breaks_uniqueness:
  "uniqueness (foldl apply_op (new_Table ex_schema) [Insert (ex_row 1 ''a''), Insert (ex_row 2 ''b'')]) \<and>
   fst (update (foldl apply_op (new_Table ex_schema) [Insert (ex_row 1 ''a''), Insert (ex_row 2 ''b'')])
       (object [(''id'', JNum (Finite 1))]) (\<lambda>r. True)) = 2 \<and>
   rows (snd (update (foldl apply_op (new_Table ex_schema) [Insert (ex_row 1 ''a''), Insert (ex_row 2 ''b'')])
       (object [(''id'', JNum (Finite 1))]) (\<lambda>r. True)))
     = [object [(''id'', JNum (Finite 1)), (''name'', JStr ''a'')],
        object [(''id'', JNum (Finite 1)), (''name'', JStr ''b'')]] \<and>
   uniqueness (snd (update (foldl apply_op (new_Table ex_schema) [Insert (ex_row 1 ''a''), Insert (ex_row 2 ''b'')])
       (object [(''id'', JNum (Finite 1))]) (\<lambda>r. True))) = False \<and>
   answer (query ex_unique_db ''SELECT * FROM t'') =
     Inr (done_rows [object [(''id'', JNum (Finite 1)), (''name'', JStr ''a'')],
                     object [(''id'', JNum (Finite 2)), (''name'', JStr ''b'')]]) \<and>
   answer (query ex_unique_db ''UPDATE t SET id = 1'') = Inr (done_message ''2 row(s) updated'' (Some 2)) \<and>
   answer (query (database_after ex_unique_db ''UPDATE t SET id = 1'') ''SELECT * FROM t'') =
     Inr (done_rows [object [(''id'', JNum (Finite 1)), (''name'', JStr ''a'')],
                     object [(''id'', JNum (Finite 1)), (''name'', JStr ''b'')]])"
  by code_simp

text \<open>
  Claim C2 (insert on a duplicate), as amended.  In every state a table reaches from its
  creation, for a primary-key or unique column \<open>c\<close> and a row whose value for \<open>c\<close> is a
  string, number or boolean that already stands in a live row, \<open>Table.insert\<close> fails and
  returns the table unchanged.  The error is the duplicate-value error of \<open>c\<close>, unless a
  column before \<open>c\<close> in the schema already rejects the row: then it is that column's
  error.
\<close>

theorem insert_duplicate_atomic:
  assumes names: "distinct (map col_name (columns s))"
    and t: "t = foldl apply_op (new_Table s) ops"
    and cols: "columns s = pre @ c # post"
    and c: "indexed c"
    and v: "row_get row (col_name c) = Prim v" "v \<noteq> JNull" "v \<noteq> JUndefined"
    and live: "r \<in> set (rows t)" "row_get r (col_name c) = Prim v"
  shows "insert_row t row =
           (Failure (case insert_cols t row pre (object []) of Inl e \<Rightarrow> e | Inr _ \<Rightarrow> dup_error c), t)"
proof -
  have i0: "table_inv (new_Table s)" using names by (rule new_Table_inv)
  have "rows_typed (new_Table s)" by (simp add: rows_typed_def new_Table_def)
  from foldl_apply_op_inv[OF i0, of ops] foldl_apply_op_typed[OF i0 this, of ops]
  have inv: "table_inv t" and sch: "schema t = s" and ty: "rows_typed t"
    by (simp_all add: t new_Table_def)
  from v have pv: "proper v" by (simp add: proper_def)
  from cols have cin: "c \<in> set (columns (schema t))" by (simp add: sch)
  with inv c obtain ix where ix: "indexes t (col_name c) = Some ix"
    by (auto simp: table_inv_def indexed_names_def dom_def set_eq_iff image_iff)
  from live obtain i where i: "i < length (rows t)" "rows t ! i = r"
    by (auto simp: in_set_conv_nth)
  with live(2) have "i \<in> positions (rows t) (col_name c) v" by (simp add: positions_def)
  moreover from inv have "index_sync (rows t) (indexes t)" by (simp add: table_inv_def)
  with ix pv have "positions (rows t) (col_name c) v \<subseteq> set (index_find ix (Prim v))"
    unfolding index_sync_def by blast
  ultimately have "i \<in> set (index_find ix (Prim v))" by blast
  then have ne: "index_find ix (Prim v) \<noteq> []" by auto
  from live(2) pv have "held (row_get r (col_name c))" by (simp add: held_def)
  with ty live(1) cin have "validateType (row_get r (col_name c)) (col_type c)"
    unfolding rows_typed_def row_typed_def by blast
  with live(2) have vt: "validateType (Prim v) (col_type c)" by simp
  have "insert_cols t row (columns (schema t)) (object []) =
          (case insert_cols t row pre (object []) of Inl e \<Rightarrow> Inl e | Inr _ \<Rightarrow> Inl (dup_error c))"
    unfolding sch cols insert_cols_append
    using insert_cols_duplicate[OF vt v(1) pv c ix ne]
    by (simp split: sum.splits)
  then show ?thesis
    by (simp add: insert_row_def split: sum.splits)
qed

theorem insert_duplicate_atomic_witness:
  "insert_row (foldl apply_op (new_Table ex_schema) [Insert (ex_row 1 ''a'')]) (ex_row 1 ''b'')
   = (Failure ''Duplicate value for primary key column id'',
      foldl apply_op (new_Table ex_schema) [Insert (ex_row 1 ''a'')]) \<and>
   answer (query ex_unique_db ''INSERT INTO t (id, name) VALUES (1, b)'') =
     Inr (failed ''Duplicate value for primary key column id'') \<and>
   answer (query (database_after ex_unique_db ''INSERT INTO t (id, name) VALUES (1, b)'') ''SELECT * FROM t'') =
     Inr (done_rows [ex_row 1 ''a'', ex_row 2 ''b''])"
proof -
  have q1: "answer (query ex_unique_db ''INSERT INTO t (id, name) VALUES (1, b)'') =
     Inr (failed ''Duplicate value for primary key column id'')"
    by code_simp
  have q2: "answer (query (database_after ex_unique_db ''INSERT INTO t (id, name) VALUES (1, b)'') ''SELECT * FROM t'') =
     Inr (done_rows [ex_row 1 ''a'', ex_row 2 ''b''])"
    by code_simp
  let ?ops = "[Insert (ex_row 1 ''a'')]"
  let ?t = "foldl apply_op (new_Table ex_schema) ?ops"
  have h1: "distinct (map col_name (columns ex_schema))" by code_simp
  have h3: "columns ex_schema = [] @ ex_id # [ex_name]" by (simp add: ex_schema_def)
  have h4: "indexed ex_id" by (simp add: indexed_def ex_id_def)
  have h5: "row_get (ex_row 1 ''b'') (col_name ex_id) = Prim (JNum (Finite 1))" by code_simp
  have h8: "ex_row 1 ''a'' \<in> set (rows ?t)" by code_simp
  have h9: "row_get (ex_row 1 ''a'') (col_name ex_id) = Prim (JNum (Finite 1))" by code_simp
  have d: "dup_error ex_id = ''Duplicate value for primary key column id''"
    by (simp add: dup_error_def ex_id_def)
  from insert_duplicate_atomic[OF h1 refl h3 h4 h5 _ _ h8 h9] d q1 q2
  show ?thesis by simp
qed

text \<open>
  The claim as first stated fails twice.  With the schema \<open>(name NOT NULL, id PRIMARY KEY)\<close>
  and a live row of id 1, inserting \<open>{id: 1}\<close> fails with the null error of \<open>name\<close>, not
  with a duplicate-value error.  With the schema \<open>(id PRIMARY KEY, name NOT NULL)\<close> and a
  live row whose id is null, inserting another row whose id is null succeeds and the table
  grows.
\<close>

theorem insert_duplicate_counterexample:
  "row_get (object [(''id'', JNum (Finite 1))]) ''id'' = Prim (JNum (Finite 1)) \<and>
   rows (foldl apply_op (new_Table ex_schema_rev) [Insert (ex_row 1 ''a'')])
     = [object [(''name'', JStr ''a''), (''id'', JNum (Finite 1))]] \<and>
   fst (insert_row (foldl apply_op (new_Table ex_schema_rev) [Insert (ex_row 1 ''a'')])
          (object [(''id'', JNum (Finite 1))])) = Failure ''Column name cannot be null'' \<and>
   row_get (object [(''id'', JNull), (''name'', JStr ''b'')]) ''id'' = Prim JNull \<and>
   rows (foldl apply_op (new_Table ex_schema) [Insert (object [(''name'', JStr ''a'')])])
     = [object [(''id'', JNull), (''name'', JStr ''a'')]] \<and>
   fst (insert_row (foldl apply_op (new_Table ex_schema) [Insert (object [(''name'', JStr ''a'')])])
          (object [(''id'', JNull), (''name'', JStr ''b'')])) = Success \<and>
   rows (snd (insert_row (foldl apply_op (new_Table ex_schema) [Insert (object [(''name'', JStr ''a'')])])
          (object [(''id'', JNull), (''name'', JStr ''b'')])))
     = [object [(''id'', JNull), (''name'', JStr ''a'')], object [(''id'', JNull), (''name'', JStr ''b'')]]"
  by code_simp

text \<open>
  Claim C3 (index/scan equivalence), as amended.  In every state that a table of schema
  \<open>s\<close>, with distinct column names, reaches from its creation by any sequence of insert,
  update and delete operations, and for every primary-key or unique column \<open>c\<close> other
  than \<open>__proto__\<close> and every string, boolean or number \<open>v\<close> other than NaN,
  \<open>findByIndex\<close> returns copies of exactly the rows \<open>r\<close> with \<open>r[c] === v\<close>: the same
  rows with the same multiplicities (after an update the order in which the index lists
  them can differ from the scan order, see \<open>findByIndex_order\<close>).
\<close>

theorem index_scan_equivalence:
  assumes "distinct (map col_name (columns s))"
    and "c \<in> set (columns s)" and "indexed c" and "col_name c \<noteq> ''__proto__''"
    and "v \<noteq> JNull" and "v \<noteq> JUndefined" and "v \<noteq> JNum NaN"
  shows "mset (findByIndex (foldl apply_op (new_Table s) ops) (col_name c) v) =
         mset (map spread (filter (\<lambda>r. strict_eq (row_get r (col_name c)) (Prim v))
                             (rows (foldl apply_op (new_Table s) ops))))"
proof -
  have "table_inv (new_Table s)" using assms(1) by (rule new_Table_inv)
  from foldl_apply_op_inv[OF this, of ops]
  have inv: "table_inv (foldl apply_op (new_Table s) ops)"
    and sch: "schema (foldl apply_op (new_Table s) ops) = s"
    by (simp_all add: new_Table_def)
  from assms(2) sch have cin: "c \<in> set (columns (schema (foldl apply_op (new_Table s) ops)))" by simp
  from assms(5) assms(6) have "proper v" by (simp add: proper_def)
  from findByIndex_inv[OF inv cin assms(3) assms(4) this] show ?thesis
    by (simp add: strict_eq_Prim[OF assms(7)])
qed

theorem index_scan_equivalence_witness:
  "mset (findByIndex (foldl apply_op (new_Table ex_schema) ex_ops) ''id'' (JNum (Finite 7))) =
   mset (map spread (filter (\<lambda>r. strict_eq (row_get r ''id'') (Prim (JNum (Finite 7))))
                       (rows (foldl apply_op (new_Table ex_schema) ex_ops)))) \<and>
   findByIndex (foldl apply_op (new_Table ex_schema) ex_ops) ''id'' (JNum (Finite 7)) = [ex_row 7 ''c'']"
proof -
  have h1: "distinct (map col_name (columns ex_schema))" by code_simp
  have h2: "ex_id \<in> set (columns ex_schema)" by (simp add: ex_schema_def)
  have h3: "indexed ex_id" by (simp add: indexed_def ex_id_def)
  have n: "col_name ex_id = ''id''" by (simp add: ex_id_def)
  have h4: "col_name ex_id \<noteq> ''__proto__''" by (simp add: n)
  have e: "findByIndex (foldl apply_op (new_Table ex_schema) ex_ops) ''id'' (JNum (Finite 7)) = [ex_row 7 ''c'']"
    by code_simp
  from index_scan_equivalence[OF h1 h2 h3 h4, of "JNum (Finite 7)" ex_ops] e
  show ?thesis by (simp add: n)
qed

text \<open>
  The claim as first stated fails in three ways.  The program accepts a schema with two
  columns of one name, \<open>t (a string, a number UNIQUE)\<close>: an update looks the column up
  by name, finds the first, which has no index, and leaves the index of the second as it
  was, so after \<open>UPDATE t SET a = x\<close> the index finds nothing where the scan finds the
  row.  On a column named \<open>__proto__\<close> an update files the new value in the index while
  the assignment to the row is ignored: the index finds the row, the scan does not.  And
  the index finds a row by NaN, which \<open>===\<close> never does.
\<close>

theorem index_scan_counterexample:
  "findByIndex (foldl apply_op (new_Table ex_twice)
       [Insert (object []), Update (object [(''a'', JStr ''x'')]) (\<lambda>r. True)]) ''a'' (JStr ''x'') = [] \<and>
   filter (\<lambda>r. strict_eq (row_get r ''a'') (Prim (JStr ''x'')))
     (rows (foldl apply_op (new_Table ex_twice)
       [Insert (object []), Update (object [(''a'', JStr ''x'')]) (\<lambda>r. True)]))
     = [object [(''a'', JStr ''x'')]] \<and>
   map_option (\<lambda>t. findByIndex t ''a'' (JStr ''x'')) (getTable ex_twice_db ''t'') = Some [] \<and>
   answer (query ex_twice_db ''SELECT * FROM t WHERE a = x'') = Inr (done_rows [object [(''a'', JStr ''x'')]]) \<and>
   findByIndex (foldl apply_op (new_Table ex_proto)
       [Insert (object [(''__proto__'', JStr ''x'')]),
        Update (object [(''__proto__'', JStr ''y'')]) (\<lambda>r. True)]) ''__proto__'' (JStr ''y'') = [object []] \<and>
   filter (\<lambda>r. strict_eq (row_get r ''__proto__'') (Prim (JStr ''y'')))
     (rows (foldl apply_op (new_Table ex_proto)
       [Insert (object [(''__proto__'', JStr ''x'')]),
        Update (object [(''__proto__'', JStr ''y'')]) (\<lambda>r. True)])) = [] \<and>
   findByIndex (foldl apply_op (new_Table ex_key) [Insert (object [(''id'', JNum NaN)])]) ''id'' (JNum NaN)
     = [object [(''id'', JNum NaN)]] \<and>
   filter (\<lambda>r. strict_eq (row_get r ''id'') (Prim (JNum NaN)))
     (rows (foldl apply_op (new_Table ex_key) [Insert (object [(''id'', JNum NaN)])])) = []"
  by code_simp

text \<open>
  Claim C4 (null in the primary-key column), as amended.  The null check of
  \<open>Table.insert\<close> exempts the primary-key column: an insert that gives null for it, or
  leaves it out, never fails with the null error of that column, and when the insert
  succeeds the new live row holds null in the primary-key column.  (If the column is
  named \<open>__proto__\<close>, the assignment of null takes the prototype from the new row
  instead, and the row holds nothing under that name.)
\<close>

theorem primary_key_null_accepted:
  assumes names: "distinct (map col_name (columns (schema t)))"
    and c: "c \<in> set (columns (schema t))" and pk: "col_primaryKey c"
    and null: "row_get row (col_name c) = Prim JNull \<or> row_get row (col_name c) = Prim JUndefined"
  shows "fst (insert_row t row) \<noteq> Failure (null_error c) \<and>
         (fst (insert_row t row) = Success \<longrightarrow>
            length (rows (snd (insert_row t row))) = Suc (length (rows t)) \<and>
            row_get (last (rows (snd (insert_row t row)))) (col_name c) =
              (if col_name c = ''__proto__'' then Prim JUndefined else Prim JNull))"
proof (cases "insert_cols t row (columns (schema t)) (object [])")
  case (Inl e)
  from insert_cols_error[OF Inl] obtain c' where c': "c' \<in> set (columns (schema t))"
    and e: "(e = null_error c' \<and> \<not> col_nullable c' \<and> \<not> col_primaryKey c') \<or> e = type_error c' \<or> e = dup_error c'"
    by blast
  have "e \<noteq> null_error c"
  proof
    assume eq: "e = null_error c"
    with e have "null_error c = null_error c' \<and> \<not> col_primaryKey c'"
      by (auto simp: null_error_def type_error_def dup_error_def)
    then have "col_name c = col_name c'" and npk: "\<not> col_primaryKey c'"
      by (simp_all add: null_error_def)
    with names c c' have "c = c'" by (auto simp: distinct_map inj_on_def)
    with pk npk show False by simp
  qed
  with Inl show ?thesis by (simp add: insert_row_def)
next
  case (Inr newRow)
  from c obtain pre post where sp: "columns (schema t) = pre @ c # post"
    by (auto simp: in_set_conv_decomp)
  with names have npre: "col_name c \<notin> col_name ` set pre" and npost: "col_name c \<notin> col_name ` set post"
    by auto
  from Inr obtain acc where pre: "insert_cols t row pre (object []) = Inr acc"
    and rest: "insert_cols t row (c # post) acc = Inr newRow"
    unfolding sp insert_cols_append by (auto split: sum.splits)
  let ?acc = "row_set acc (col_name c) JNull"
  from insert_cols_step(1)[OF rest] null have post: "insert_cols t row post ?acc = Inr newRow"
    by auto
  have "row_get newRow (col_name c) = (if col_name c = ''__proto__'' then Prim JUndefined else Prim JNull)"
  proof (cases "col_name c = ''__proto__''")
    case True
    from insert_cols_no_proto[OF pre] npre True
    have a: "\<not> owns acc ''__proto__''" "\<not> proto_null acc"
      by (simp_all add: owns_def object_def)
    then have rs: "runs_setter acc (col_name c)" by (simp add: runs_setter_def True)
    from a rs have "\<not> owns ?acc ''__proto__''" "proto_null ?acc"
      by (simp_all add: owns_row_set proto_null_row_set True)
    with insert_cols_no_proto[OF post] npost True
    have "\<not> owns newRow ''__proto__''" "proto_null newRow" by simp_all
    with True show ?thesis by (simp add: row_get_def owns_def)
  next
    case False
    then have ns: "\<not> runs_setter acc (col_name c)" by (simp add: runs_setter_def)
    then have "owns ?acc (col_name c)" "row_get ?acc (col_name c) = Prim JNull"
      by (simp_all add: owns_row_set row_get_row_set)
    with insert_cols_keep_owned[OF post npost] False show ?thesis by simp
  qed
  with Inr show ?thesis by (simp add: insert_row_def Let_def)
qed

theorem primary_key_null_accepted_witness:
  "fst (insert_row (new_Table ex_schema) (object [(''name'', JStr ''a'')])) \<noteq> Failure (null_error ex_id) \<and>
   length (rows (snd (insert_row (new_Table ex_schema) (object [(''name'', JStr ''a'')])))) = Suc 0 \<and>
   row_get (last (rows (snd (insert_row (new_Table ex_schema) (object [(''name'', JStr ''a'')]))))) ''id''
     = Prim JNull"
proof -
  have h1: "distinct (map col_name (columns (schema (new_Table ex_schema))))" by code_simp
  have h2: "ex_id \<in> set (columns (schema (new_Table ex_schema)))"
    by (simp add: new_Table_def ex_schema_def)
  have h3: "col_primaryKey ex_id" by (simp add: ex_id_def)
  have h4: "row_get (object [(''name'', JStr ''a'')]) (col_name ex_id) = Prim JNull \<or>
            row_get (object [(''name'', JStr ''a'')]) (col_name ex_id) = Prim JUndefined"
    by code_simp
  have s: "fst (insert_row (new_Table ex_schema) (object [(''name'', JStr ''a'')])) = Success" by code_simp
  have n: "col_name ex_id = ''id''" by (simp add: ex_id_def)
  have r0: "rows (new_Table ex_schema) = []" by (simp add: new_Table_def)
  from primary_key_null_accepted[OF h1 h2 h3 h4] s show ?thesis by (simp add: n r0)
qed

text \<open>
  The claim as first stated fails: on the empty table \<open>t (id number PRIMARY KEY, name
  string NOT NULL)\<close> the insert of \<open>{name: 'a'}\<close> succeeds and the live row holds null in
  \<open>id\<close>.
\<close>

theorem primary_key_null_counterexample:
  "fst (insert_row (new_Table ex_schema) (object [(''name'', JStr ''a'')])) = Success \<and>
   rows (snd (insert_row (new_Table ex_schema) (object [(''name'', JStr ''a'')]))) =
     [object [(''id'', JNull), (''name'', JStr ''a'')]]"
  by code_simp



text \<open>
  Claim C6 (delete count and idempotence).  \<open>delete\<close> returns the number of rows that
  satisfy the predicate, the row count goes down by exactly that number, and running the
  same \<open>delete\<close> again returns 0 and leaves the table (rows, schema and indexes) as it
  is.
\<close>

theorem delete_count_idempotent:
  "fst (delete t p) = length (filter p (rows t)) \<and>
   length (rows (snd (delete t p))) + length (filter p (rows t)) = length (rows t) \<and>
   delete (snd (delete t p)) p = (0, snd (delete t p))"
proof -
  have cnt: "length (filter (\<lambda>idx. p (rs ! idx)) [0..<length rs]) = length (filter p rs)" for rs :: "Row list"
  proof -
    have "filter p (map (\<lambda>i. rs ! i) [0..<length rs]) = map (\<lambda>i. rs ! i) (filter (\<lambda>idx. p (rs ! idx)) [0..<length rs])"
      by (simp add: filter_map comp_def)
    then have "length (filter p (map (\<lambda>i. rs ! i) [0..<length rs])) = length (filter (\<lambda>idx. p (rs ! idx)) [0..<length rs])"
      by simp
    then show ?thesis by (simp add: map_nth)
  qed
  have one: "fst (delete t p) = length (filter p (rows t))"
    by (simp add: delete_def Let_def cnt)
  have two: "length (rows (snd (delete t p))) + length (filter p (rows t)) = length (rows t)"
    using sum_length_filter_compl[of p "rows t"] by (simp add: delete_rows add.commute)
  let ?t' = "snd (delete t p)"
  have none: "filter (\<lambda>idx. p (rows ?t' ! idx)) [0..<length (rows ?t')] = []"
  proof -
    have "\<not> p (rows ?t' ! idx)" if "idx < length (rows ?t')" for idx
      using nth_mem[OF that] by (simp add: delete_rows)
    then show ?thesis by (simp add: filter_empty_conv)
  qed
  have "?t' = rebuildIndexes (fold delete_at (rev (filter (\<lambda>idx. p (rows t ! idx)) [0..<length (rows t)])) t)"
    by (simp add: delete_def Let_def)
  then have "rebuildIndexes ?t' = ?t'"
    by (simp add: rebuildIndexes_idem)
  with none have three: "delete ?t' p = (0, ?t')"
    by (simp add: delete_def[of ?t'] Let_def)
  from one two three show ?thesis by blast
qed

theorem delete_count_idempotent_witness:
  "fst (delete (foldl apply_op (new_Table ex_schema) ex_ops) (\<lambda>r. row_get r ''id'' = Prim (JNum (Finite 2)))) = 1 \<and>
   length (rows (snd (delete (foldl apply_op (new_Table ex_schema) ex_ops)
                        (\<lambda>r. row_get r ''id'' = Prim (JNum (Finite 2)))))) = 1 \<and>
   fst (delete (snd (delete (foldl apply_op (new_Table ex_schema) ex_ops)
                        (\<lambda>r. row_get r ''id'' = Prim (JNum (Finite 2)))))
          (\<lambda>r. row_get r ''id'' = Prim (JNum (Finite 2)))) = 0"
proof -
  have r: "rows (foldl apply_op (new_Table ex_schema) ex_ops) = [ex_row 2 ''b'', ex_row 7 ''c'']"
    by code_simp
  have g: "row_get (ex_row 2 ''b'') ''id'' = Prim (JNum (Finite 2))"
    "row_get (ex_row 7 ''c'') ''id'' \<noteq> Prim (JNum (Finite 2))"
    by code_simp+
  from delete_count_idempotent[of "foldl apply_op (new_Table ex_schema) ex_ops"
      "\<lambda>r. row_get r ''id'' = Prim (JNum (Finite 2))"]
  show ?thesis by (simp add: r g)
qed

text \<open>
  Claim C7 (LEFT JOIN without null padding).  A left row that matches no right row
  contributes, at its place in the result, exactly one row for a LEFT join: its own
  entries with every key rewritten to \<open><left table>.<key>\<close> and nothing from the right
  side; for an INNER join it contributes nothing.
\<close>

theorem left_join_unmatched:
  assumes unmatched:
      "\<forall>r \<in> set rightRows.
         \<not> strict_eq (row_get leftRow (property_key (second (split_char CHR ''.'' (on_leftColumn join)))))
                     (row_get r (property_key (second (split_char CHR ''.'' (on_rightColumn join)))))"
    and keys: "distinct (map fst (props leftRow))"
  shows "executeJoin (before @ leftRow # after) rightRows join L R =
           executeJoin before rightRows join L R
           @ (if join_type join = LEFT
              then [object (map (\<lambda>(k, v). (L @ ''.'' @ k, v)) (props leftRow))] else [])
           @ executeJoin after rightRows join L R"
proof -
  let ?lc = "property_key (second (split_char CHR ''.'' (on_leftColumn join)))"
  let ?rc = "property_key (second (split_char CHR ''.'' (on_rightColumn join)))"
  have q: "qualify L leftRow (object []) = object (map (\<lambda>(k, v). (L @ ''.'' @ k, v)) (props leftRow))"
    by (rule qualify_object[OF keys])
  have nomatch: "join_matches leftRow ?lc ?rc rightRows = []"
    using unmatched by (simp add: join_matches_def filter_empty_conv)
  have one: "join_outer_loop rightRows join ?lc ?rc L R leftRow [] =
      (if join_type join = LEFT then [object (map (\<lambda>(k, v). (L @ ''.'' @ k, v)) (props leftRow))] else [])"
    by (simp add: outer_loop_step nomatch q)
  have all: "fold (join_outer_loop rightRows join ?lc ?rc L R) ls [] =
      concat (map (\<lambda>l. join_outer_loop rightRows join ?lc ?rc L R l []) ls)" for ls
    using outer_loop_fold[of rightRows join ?lc ?rc L R ls "[]"] by simp
  show ?thesis
    unfolding executeJoin_def Let_def all by (simp add: one)
qed

theorem left_join_unmatched_witness:
  "executeJoin ex_books ex_authors (ex_join LEFT) ''books'' ''authors'' =
     [object [(''books.id'', JNum (Finite 1)), (''books.author_id'', JNum (Finite 1)), (''books.title'', JStr ''Emma'')]] \<and>
   executeJoin ex_books ex_authors (ex_join INNER) ''books'' ''authors'' = [] \<and>
   answer (query ex_library_db ''SELECT * FROM books LEFT JOIN authors ON books.author_id = authors.id'') =
     Inr (done_rows [object [(''books.id'', JNum (Finite 1)), (''books.author_id'', JNum (Finite 1)),
                             (''books.title'', JStr ''Emma'')]]) \<and>
   answer (query ex_library_db ''SELECT * FROM books INNER JOIN authors ON books.author_id = authors.id'') =
     Inr (done_rows [])"
proof -
  have left: "answer (query ex_library_db ''SELECT * FROM books LEFT JOIN authors ON books.author_id = authors.id'') =
     Inr (done_rows [object [(''books.id'', JNum (Finite 1)), (''books.author_id'', JNum (Finite 1)),
                             (''books.title'', JStr ''Emma'')]])"
    by code_simp
  have inner: "answer (query ex_library_db ''SELECT * FROM books INNER JOIN authors ON books.author_id = authors.id'') =
     Inr (done_rows [])"
    by code_simp
  have h: "\<forall>r \<in> set ex_authors.
         \<not> strict_eq (row_get (hd ex_books) (property_key (second (split_char CHR ''.'' (on_leftColumn (ex_join ty))))))
                     (row_get r (property_key (second (split_char CHR ''.'' (on_rightColumn (ex_join ty))))))" for ty
    by (simp add: ex_authors_def ex_books_def ex_join_def second_def property_key_def row_get_def
        object_def strict_eq_def)
  have d: "distinct (map fst (props (hd ex_books)))" by (simp add: ex_books_def object_def)
  have b: "ex_books = [] @ hd ex_books # []" by (simp add: ex_books_def)
  have e: "executeJoin [] ex_authors j ''books'' ''authors'' = []" for j
    by (simp add: executeJoin_def)
  have q: "map (\<lambda>(k, v). (''books'' @ ''.'' @ k, v)) (props (hd ex_books)) =
      [(''books.id'', JNum (Finite 1)), (''books.author_id'', JNum (Finite 1)), (''books.title'', JStr ''Emma'')]"
    by (simp add: ex_books_def object_def)
  have t: "join_type (ex_join ty) = ty" for ty by (simp add: ex_join_def)
  note l = left_join_unmatched[OF h d, where before = "[]" and after = "[]" and L = "''books''"
      and R = "''authors''", unfolded b[symmetric] e q t]
  from l[of LEFT] l[of INNER] left inner show ?thesis by simp
qed

text \<open>
  Claim C8 (the operators \<open>>=\<close> and \<open><=\<close>).  The condition \<open>age >= 5\<close> should parse to
  the operator \<open>>=\<close> with the literal 5 and accept a row whose age is 5.  The
  alternation of the condition pattern tries \<open>>\<close> before \<open>>=\<close>, so the parser yields the
  operator \<open>>\<close> with the string \<open>= 5\<close>, which no number exceeds: the row of age 5 is
  rejected, and likewise for \<open><=\<close>.  By \<open>parseWhere_operators\<close> above the parser never
  yields the operator \<open>>=\<close> or \<open><=\<close>, whatever the text.
\<close>

theorem compound_operator_misparsed:
  "parseWhere ''age >= 5'' =
     Inr [\<lparr>wc_column = ''age'', wc_operator = ''>'', wc_value = JStr ''= 5''\<rparr>] \<and>
   parseWhere ''age <= 5'' =
     Inr [\<lparr>wc_column = ''age'', wc_operator = ''<'', wc_value = JStr ''= 5''\<rparr>] \<and>
   evaluateWhere (object [(''age'', JNum (Finite 5))])
     [\<lparr>wc_column = ''age'', wc_operator = ''>'', wc_value = JStr ''= 5''\<rparr>] = False \<and>
   evaluateWhere (object [(''age'', JNum (Finite 5))])
     [\<lparr>wc_column = ''age'', wc_operator = ''<'', wc_value = JStr ''= 5''\<rparr>] = False \<and>
   answer (query ex_age_db ''SELECT * FROM t'') = Inr (done_rows [object [(''age'', JNum (Finite 5))]]) \<and>
   answer (query ex_age_db ''SELECT * FROM t WHERE age >= 5'') = Inr (done_rows []) \<and>
   answer (query ex_age_db ''SELECT * FROM t WHERE age <= 5'') = Inr (done_rows [])"
  by code_simp

text \<open>
  Claim C9 (column types).  The type tokens \<open>serial\<close>, \<open>int\<close>, \<open>number\<close> and those that
  start with \<open>bigint\<close> give the type number, \<open>varchar(...)\<close>, \<open>char(...)\<close>, \<open>text\<close> and
  \<open>timestamp...\<close> give string, \<open>bool\<close> and \<open>boolean\<close> give boolean, and an unknown token
  gives string.  The token \<open>integer\<close> should give number too, but the pattern of the
  parser is \<open>int(er)?\<close>: it accepts \<open>inter\<close> and sends \<open>integer\<close> to the default, string
  (\<open>columnType_meaning\<close> above says what every type word gives).
\<close>

theorem integer_type_token:
  "columnType ''integer'' = TString \<and>
   columnType ''inter'' = TNumber \<and>
   parse ''CREATE TABLE t (n integer)'' =
     Inr (CREATE_TABLE ''t'' [\<lparr>col_name = ''n'', col_type = TString, col_primaryKey = False,
                                 col_unique = False, col_nullable = True\<rparr>]) \<and>
   map columnType [''serial'', ''int'', ''number'', ''bigint'', ''bigint(20)'']
     = [TNumber, TNumber, TNumber, TNumber, TNumber] \<and>
   map columnType [''varchar(255)'', ''char(1)'', ''text'', ''timestamp'', ''timestamptz'']
     = [TString, TString, TString, TString, TString] \<and>
   map columnType [''bool'', ''boolean''] = [TBoolean, TBoolean] \<and>
   map columnType [''float'', ''string'', ''blob''] = [TString, TString, TString]"
  by code_simp

text \<open>
  Claim C10 (WHERE on a column that was projected away), as amended.  For a SELECT with
  a column list that is not empty and does not start with \<open>*\<close>, whose projection
  succeeds, and a condition on a column outside that list whose name is not the name of
  a member of \<open>Object.prototype\<close>, the projected rows hold no value for the column: with
  one of the operators \<open>=\<close>, \<open>>\<close>, \<open><\<close>, \<open>>=\<close>, \<open><=\<close> no row passes a WHERE clause
  that contains the condition and the result is empty; with \<open>!=\<close> every projected row
  passes the condition.  (By \<open>select_returns\<close> above the projection succeeds when no
  row owns a cell named \<open>hasOwnProperty\<close> or has lost its prototype.)
\<close>

theorem where_on_unselected_column:
  assumes "getTable db frm = Some t"
    and "cols \<noteq> []" and "hd cols \<noteq> ''*''"
    and "select t cols = Inr rs"
    and "wc_column c \<notin> set cols"
    and "object_prototype (wc_column c) = Prim JUndefined"
    and "wc_value c \<noteq> JUndefined"
  shows "(wc_operator c \<in> {''='', ''>'', ''<'', ''>='', ''<=''} \<and> c \<in> set conds \<longrightarrow>
            (\<forall>r \<in> set rs. \<not> evaluateWhere r conds) \<and>
            executeSelect db cols frm (Some conds) None = Inr (done_rows [])) \<and>
         (wc_operator c = ''!='' \<longrightarrow>
            (\<forall>r \<in> set rs. evaluateWhere r [c]) \<and>
            executeSelect db cols frm (Some [c]) None = Inr (done_rows rs))"
proof -
  have ev: "evaluateCondition r c = (wc_operator c = ''!='')" if "r \<in> set rs" for r
    using evaluateCondition_absent[OF
        row_get_absent[OF select_absent[OF assms(2) assms(3) assms(5) assms(4) that] assms(6)] assms(7)] .
  have a: "\<not> evaluateWhere r conds"
    if "wc_operator c \<in> {''='', ''>'', ''<'', ''>='', ''<=''}" "c \<in> set conds" "r \<in> set rs" for r
  proof -
    from that(1) have "wc_operator c \<noteq> ''!=''" by auto
    with ev[OF that(3)] have "\<not> evaluateCondition r c" by simp
    with that(2) show ?thesis by (auto simp: evaluateWhere_def list_all_iff)
  qed
  have b: "evaluateWhere r [c]" if "wc_operator c = ''!=''" "r \<in> set rs" for r
    using ev[OF that(2)] that(1) by (simp add: evaluateWhere_def)
  from a have a': "filterRows rs conds = []"
    if "wc_operator c \<in> {''='', ''>'', ''<'', ''>='', ''<=''}" "c \<in> set conds"
    using that by (auto simp: filterRows_def filter_empty_conv)
  from b have b': "filterRows rs [c] = rs" if "wc_operator c = ''!=''"
    using that by (simp add: filterRows_def)
  show ?thesis
    using a a' b b' assms(1) assms(4) by (auto simp: executeSelect_def Let_def)
qed

theorem where_on_unselected_column_witness:
  "executeSelect ex_db [''name''] ''t''
      (Some [\<lparr>wc_column = ''id'', wc_operator = ''='', wc_value = JNum (Finite 1)\<rparr>]) None = Inr (done_rows []) \<and>
   executeSelect ex_db [''name''] ''t''
      (Some [\<lparr>wc_column = ''id'', wc_operator = ''!='', wc_value = JNum (Finite 1)\<rparr>]) None
     = Inr (done_rows [object [(''name'', JStr ''a'')], object [(''name'', JStr ''b'')]]) \<and>
   answer (query ex_unique_db ''SELECT id, name FROM t WHERE id = 1'') =
     Inr (done_rows [object [(''id'', JNum (Finite 1)), (''name'', JStr ''a'')]]) \<and>
   answer (query ex_unique_db ''SELECT name FROM t WHERE id = 1'') = Inr (done_rows []) \<and>
   answer (query ex_unique_db ''SELECT name FROM t WHERE id != 1'') =
     Inr (done_rows [object [(''name'', JStr ''a'')], object [(''name'', JStr ''b'')]])"
proof -
  have q0: "answer (query ex_unique_db ''SELECT id, name FROM t WHERE id = 1'') =
     Inr (done_rows [object [(''id'', JNum (Finite 1)), (''name'', JStr ''a'')]])"
    by code_simp
  have q1: "answer (query ex_unique_db ''SELECT name FROM t WHERE id = 1'') = Inr (done_rows [])"
    by code_simp
  have q2: "answer (query ex_unique_db ''SELECT name FROM t WHERE id != 1'') =
     Inr (done_rows [object [(''name'', JStr ''a'')], object [(''name'', JStr ''b'')]])"
    by code_simp
  have g: "getTable ex_db ''t'' = Some ex_table" by (simp add: getTable_def ex_db_def)
  have s: "select ex_table [''name''] = Inr [object [(''name'', JStr ''a'')], object [(''name'', JStr ''b'')]]"
    by code_simp
  have o: "object_prototype ''id'' = Prim JUndefined" by code_simp
  note w = where_on_unselected_column[OF g _ _ s, where c = "\<lparr>wc_column = ''id'', wc_operator = op, wc_value = JNum (Finite 1)\<rparr>" for op]
  from w[of "''=''" "[\<lparr>wc_column = ''id'', wc_operator = ''='', wc_value = JNum (Finite 1)\<rparr>]"]
       w[of "''!=''" "[]"] o q0 q1 q2
  show ?thesis by simp
qed

text \<open>
  The claim as first stated fails for a name that every object inherits.  On the table
  \<open>t (id, name)\<close> with two rows, \<open>SELECT name FROM t WHERE constructor > a\<close> reads the
  function \<open>Object\<close> from each projected row and compares its text, which begins with
  \<open>function\<close>, with \<open>a\<close>: both rows pass; likewise \<open>__proto__ < z\<close> compares the text
  \<open>[object Object]\<close>.  And on a table with a column named \<open>hasOwnProperty\<close> the
  projection throws, so the result is a failure and not an empty result.
\<close>

theorem where_on_unselected_column_counterexample:
  "row_get (object [(''name'', JStr ''a'')]) ''constructor'' = Function ''Object'' \<and>
   evaluateWhere (object [(''name'', JStr ''a'')])
     [\<lparr>wc_column = ''constructor'', wc_operator = ''>'', wc_value = JStr ''a''\<rparr>] = True \<and>
   parse ''SELECT name FROM t WHERE constructor > a'' =
     Inr (SELECT [''name''] ''t''
            (Some [\<lparr>wc_column = ''constructor'', wc_operator = ''>'', wc_value = JStr ''a''\<rparr>]) None) \<and>
   answer (query ex_unique_db ''SELECT name FROM t WHERE constructor > a'') =
     Inr (done_rows [object [(''name'', JStr ''a'')], object [(''name'', JStr ''b'')]]) \<and>
   answer (query ex_unique_db ''SELECT name FROM t WHERE __proto__ < z'') =
     Inr (done_rows [object [(''name'', JStr ''a'')], object [(''name'', JStr ''b'')]]) \<and>
   answer (query ex_method_db ''SELECT hasOwnProperty FROM t WHERE id = 1'') =
     Inr (failed ''row.hasOwnProperty is not a function'')"
  by code_simp


end
